(* ===== verification/Go_Prelude.thy ===== *)
theory Go_Prelude
  imports Main "HOL-Library.Word"
begin

text \<open>
  The parts of Go and of its standard library that the backend uses, shared by
  every component theory.

  \<^item> Strings are byte sequences, as in Go: a \<^typ>\<open>string\<close> is the list of its bytes.
    The functions of package \<open>strings\<close> work on them. Case mapping and white space
    are those of ASCII; bytes from 128 on are left as they are, so the case pairs and
    the spaces Go knows beyond ASCII are not modelled.
  \<^item> A \<open>time.Time\<close> is the number of nanoseconds since the Unix epoch and a
    \<open>time.Duration\<close> a number of nanoseconds. \<open>Time.Sub\<close> saturates at the bounds of
    an \<open>int64\<close>, which matters for the zero \<open>time.Time\<close> the circuit breaker stores.
  \<^item> \<open>int32\<close> counters are 32-bit words read by \<^const>\<open>sint\<close>.
  \<^item> The sweep \<open>map_sweep\<close> is the loop that deletes dead entries of a Go map;
    four components run it from a ticker. The locale \<open>expiring\<close> holds what such
    a sweep promises to a reader that ignores dead entries.
\<close>

named_theorems go_simps \<open>evaluation rules of the Go library models\<close>
named_theorems go_defs \<open>definitions to unfold when a handler is run on a given input\<close>

section \<open>Time\<close>

type_synonym time = int
type_synonym duration = int

abbreviation millisecond :: duration where "millisecond \<equiv> 1000000"
abbreviation second :: duration where "second \<equiv> 1000000000"
abbreviation minute :: duration where "minute \<equiv> 60000000000"
abbreviation hour :: duration where "hour \<equiv> 3600000000000"

text \<open>The zero \<open>time.Time\<close>: 1 January of the year 1, in UTC.\<close>

definition zero_time :: time where
  "zero_time = - 62135596800 * second"

abbreviation max_int64 :: int where "max_int64 \<equiv> 9223372036854775807"
abbreviation min_int64 :: int where "min_int64 \<equiv> - 9223372036854775808"

text \<open>\<open>t.Sub(u)\<close>: the difference, clipped to what a \<open>Duration\<close> can hold.\<close>

definition time_sub :: "time \<Rightarrow> time \<Rightarrow> duration" where
  "time_sub t u = max min_int64 (min max_int64 (t - u))"

lemma time_sub_exact [simp]:
  "min_int64 \<le> t - u \<Longrightarrow> t - u \<le> max_int64 \<Longrightarrow> time_sub t u = t - u"
  by (simp add: time_sub_def)

lemma time_sub_gt_iff:
  "min_int64 \<le> d \<Longrightarrow> d < max_int64 \<Longrightarrow> time_sub t u > d \<longleftrightarrow> t - u > d"
  by (auto simp: time_sub_def)

lemma time_sub_ge_iff:
  "min_int64 < d \<Longrightarrow> d \<le> max_int64 \<Longrightarrow> time_sub t u \<ge> d \<longleftrightarrow> t - u \<ge> d"
  by (auto simp: time_sub_def)

lemma time_sub_mono: "t \<le> t' \<Longrightarrow> time_sub t u \<le> time_sub t' u"
  by (auto simp: time_sub_def)

text \<open>\<open>time.Unix(n, 0)\<close> and \<open>t.Unix()\<close>.\<close>

definition unix_time :: "int \<Rightarrow> time" where
  "unix_time n = n * second"

definition to_unix :: "time \<Rightarrow> int" where
  "to_unix t = t div second"

lemma unix_time_le: "unix_time (to_unix t) \<le> t"
  by (simp add: unix_time_def to_unix_def)

lemma unix_time_gt: "t - second < unix_time (to_unix t)"
  by (simp add: unix_time_def to_unix_def)

section \<open>Machine integers\<close>

type_synonym int32 = "32 word"

text \<open>Go's \<open>int\<close> wraps at 64 bits.\<close>

definition wrap64 :: "int \<Rightarrow> int" where
  "wrap64 x = (x + 9223372036854775808) mod 18446744073709551616 - 9223372036854775808"

lemma wrap64_id [simp]: "min_int64 \<le> x \<Longrightarrow> x \<le> max_int64 \<Longrightarrow> wrap64 x = x"
  by (simp add: wrap64_def)

lemma sint_int32_range: "- 2147483648 \<le> sint (x :: int32)" "sint (x :: int32) \<le> 2147483647"
  using sint_ge [of x] sint_lt [of x] by simp_all

lemma sint_inc [simp]:
  assumes "sint (x :: int32) < 2147483647"
  shows "sint (x + 1) = sint x + 1"
proof -
  have "sint (x + 1) = signed_take_bit 31 (sint x + sint (1 :: int32))"
    by (simp add: sint_word_ariths)
  also have "\<dots> = sint x + 1"
    using assms sint_int32_range(1) [of x]
    by (simp add: signed_take_bit_int_eq_self)
  finally show ?thesis .
qed

lemma sint_of_int [simp]:
  "- 2147483648 \<le> n \<Longrightarrow> n \<le> 2147483647 \<Longrightarrow> sint (word_of_int n :: int32) = n"
  by (simp add: sint_sbintrunc' signed_take_bit_int_eq_self)

lemma sint_of_nat [simp]: "n \<le> 2147483647 \<Longrightarrow> sint (word_of_nat n :: int32) = int n"
  using sint_of_int [of "int n"] by simp

section \<open>Results\<close>

text \<open>
  A call that can fail gives a value of a sum type, with the error on the left.
  A nil dereference, a failed type assertion or an out-of-range slice is a panic,
  which is an error value of its own where the code can reach one.
\<close>

definition is_ok :: "'e + 'a \<Rightarrow> bool" where
  "is_ok r = (case r of Inl _ \<Rightarrow> False | Inr _ \<Rightarrow> True)"

lemma is_ok_simps [simp]: "is_ok (Inr x)" "\<not> is_ok (Inl e)"
  by (simp_all add: is_ok_def)

lemma is_okE: "is_ok r \<Longrightarrow> (\<And>x. r = Inr x \<Longrightarrow> P) \<Longrightarrow> P"
  by (cases r) auto

section \<open>Package strings\<close>

definition hasPrefix :: "string \<Rightarrow> string \<Rightarrow> bool" where
  "hasPrefix s p \<longleftrightarrow> take (length p) s = p"

definition hasSuffix :: "string \<Rightarrow> string \<Rightarrow> bool" where
  "hasSuffix s p \<longleftrightarrow> length p \<le> length s \<and> drop (length s - length p) s = p"

definition trimPrefix :: "string \<Rightarrow> string \<Rightarrow> string" where
  "trimPrefix s p = (if hasPrefix s p then drop (length p) s else s)"

definition trimSuffix :: "string \<Rightarrow> string \<Rightarrow> string" where
  "trimSuffix s p = (if hasSuffix s p then take (length s - length p) s else s)"

fun contains :: "string \<Rightarrow> string \<Rightarrow> bool" where
  "contains [] p \<longleftrightarrow> p = []"
| "contains (c # s) p \<longleftrightarrow> hasPrefix (c # s) p \<or> contains s p"

lemma hasPrefix_iff: "hasPrefix s p \<longleftrightarrow> (\<exists>t. s = p @ t)"
  by (metis append_eq_conv_conj append_take_drop_id hasPrefix_def)

lemma hasSuffix_iff: "hasSuffix s p \<longleftrightarrow> (\<exists>t. s = t @ p)"
proof
  assume "hasSuffix s p"
  then have "s = take (length s - length p) s @ p"
    by (metis append_take_drop_id hasSuffix_def)
  then show "\<exists>t. s = t @ p" ..
qed (auto simp: hasSuffix_def)

lemma hasPrefix_append [simp]: "hasPrefix (p @ t) p"
  by (simp add: hasPrefix_def)

lemma hasPrefix_Nil [simp]: "hasPrefix s []"
  by (simp add: hasPrefix_def)

lemma contains_iff: "contains s p \<longleftrightarrow> (\<exists>u v. s = u @ p @ v)"
proof (induction s)
  case Nil
  then show ?case by auto
next
  case (Cons c s)
  show ?case
  proof
    assume "contains (c # s) p"
    then show "\<exists>u v. c # s = u @ p @ v"
      using Cons by (auto simp: hasPrefix_iff) (metis append_Cons append_Nil)+
  next
    assume "\<exists>u v. c # s = u @ p @ v"
    then obtain u v where uv: "c # s = u @ p @ v" by blast
    show "contains (c # s) p"
    proof (cases u)
      case Nil
      with uv have "hasPrefix (c # s) p" by (metis append_Nil hasPrefix_append)
      then show ?thesis by simp
    next
      case (Cons d u')
      with uv have "s = u' @ p @ v" by simp
      with Cons.IH show ?thesis by auto
    qed
  qed
qed

lemma contains_char_iff: "contains s [c] \<longleftrightarrow> c \<in> set s"
  by (auto simp: contains_iff in_set_conv_decomp)

lemma contains_append [simp]: "contains s p \<Longrightarrow> contains (s @ t) p" "contains t p \<Longrightarrow> contains (s @ t) p"
  by (auto simp: contains_iff) (metis append.assoc)+

subsection \<open>Case and white space\<close>

definition char_lower :: "char \<Rightarrow> char" where
  "char_lower c = (let n = (of_char c :: nat) in if 65 \<le> n \<and> n \<le> 90 then char_of (n + 32) else c)"

definition char_upper :: "char \<Rightarrow> char" where
  "char_upper c = (let n = (of_char c :: nat) in if 97 \<le> n \<and> n \<le> 122 then char_of (n - 32) else c)"

definition toLower :: "string \<Rightarrow> string" where
  "toLower s = map char_lower s"

definition toUpper :: "string \<Rightarrow> string" where
  "toUpper s = map char_upper s"

definition is_space :: "char \<Rightarrow> bool" where
  "is_space c \<longleftrightarrow> (let n = (of_char c :: nat) in n = 32 \<or> (9 \<le> n \<and> n \<le> 13))"

definition trimSpace :: "string \<Rightarrow> string" where
  "trimSpace s = rev (dropWhile is_space (rev (dropWhile is_space s)))"

lemma of_char_less_256 [simp]: "(of_char c :: nat) < 256"
  using of_char_of [of "of_char c :: nat"] by (metis char_of_char mod_less_divisor zero_less_numeral of_char_of)

lemma char_lower_idem [simp]: "char_lower (char_lower c) = char_lower c"
  by (simp add: char_lower_def Let_def)

lemma char_upper_idem [simp]: "char_upper (char_upper c) = char_upper c"
  by (auto simp: char_upper_def Let_def)

lemma toLower_idem [simp]: "toLower (toLower s) = toLower s"
  by (simp add: toLower_def)

lemma toUpper_idem [simp]: "toUpper (toUpper s) = toUpper s"
  by (simp add: toUpper_def)

lemma length_toLower [simp]: "length (toLower s) = length s"
  by (simp add: toLower_def)

lemma toLower_append [simp]: "toLower (s @ t) = toLower s @ toLower t"
  by (simp add: toLower_def)

lemma trimSpace_idem [simp]: "trimSpace (trimSpace s) = trimSpace s"
proof -
  have hd_or: "dropWhile P (rev (dropWhile P (rev (dropWhile P s)))) = rev (dropWhile P (rev (dropWhile P s)))"
    for P :: "char \<Rightarrow> bool"
  proof (cases "dropWhile P s")
    case (Cons c t)
    then have "\<not> P c" by (metis hd_dropWhile list.distinct(1) list.sel(1))
    with Cons show ?thesis
      by (simp add: dropWhile_append dropWhile_eq_self_iff)
  qed (simp only: dropWhile.simps rev.simps)
  show ?thesis
    unfolding trimSpace_def hd_or by (simp add: dropWhile_idem)
qed

subsection \<open>Splitting and joining\<close>

text \<open>\<open>strings.Split\<close> and \<open>strings.SplitN\<close> at a separator of one byte.\<close>

fun split_first :: "char \<Rightarrow> string \<Rightarrow> string \<times> string option" where
  "split_first c [] = ([], None)"
| "split_first c (d # s) =
     (if d = c then ([], Some s) else (let (a, r) = split_first c s in (d # a, r)))"

fun splitN :: "nat \<Rightarrow> char \<Rightarrow> string \<Rightarrow> string list" where
  "splitN 0 c s = []"
| "splitN (Suc 0) c s = [s]"
| "splitN (Suc (Suc n)) c s =
     (case split_first c s of (a, None) \<Rightarrow> [a] | (a, Some r) \<Rightarrow> a # splitN (Suc n) c r)"

definition split :: "char \<Rightarrow> string \<Rightarrow> string list" where
  "split c s = splitN (Suc (length s)) c s"

fun join :: "char \<Rightarrow> string list \<Rightarrow> string" where
  "join c [] = []"
| "join c [s] = s"
| "join c (s # ss) = s @ c # join c ss"

lemma sep_unique:
  "c \<notin> set a \<Longrightarrow> c \<notin> set a' \<Longrightarrow> a @ c # r = a' @ c # r' \<longleftrightarrow> a = a' \<and> r = r'"
proof (induction a arbitrary: a')
  case Nil
  then show ?case by (cases a') auto
next
  case (Cons d a)
  then show ?case by (cases a') auto
qed

lemma split_first_spec:
  "case split_first c s of (a, None) \<Rightarrow> a = s \<and> c \<notin> set s | (a, Some r) \<Rightarrow> s = a @ c # r \<and> c \<notin> set a"
proof (induction s)
  case (Cons d s)
  then show ?case
    by (cases "split_first c s"; cases "snd (split_first c s)") auto
qed simp

lemma split_first_None: "split_first c s = (a, None) \<longleftrightarrow> a = s \<and> c \<notin> set s"
proof -
  obtain a' r where p: "split_first c s = (a', r)" by fastforce
  then show ?thesis using split_first_spec [where c = c and s = s] by (cases r) auto
qed

lemma split_first_Some:
  "split_first c s = (a, Some r) \<longleftrightarrow> s = a @ c # r \<and> c \<notin> set a"
proof -
  obtain a' r' where p: "split_first c s = (a', r')" by fastforce
  then show ?thesis
    using split_first_spec [where c = c and s = s] by (cases r') (auto simp: sep_unique)
qed

lemma split_first_append [simp]: "c \<notin> set a \<Longrightarrow> split_first c (a @ c # r) = (a, Some r)"
  by (simp add: split_first_Some)

lemma split_first_no_sep [simp]: "c \<notin> set s \<Longrightarrow> split_first c s = (s, None)"
  by (simp add: split_first_None)

text \<open>The parts joined by the separator give the string back.\<close>

lemma join_splitN: "0 < n \<Longrightarrow> join c (splitN n c s) = s"
proof (induction n c s rule: splitN.induct)
  case (3 n c s)
  show ?case
  proof (cases "split_first c s")
    case (Pair a r)
    show ?thesis
    proof (cases r)
      case None
      with Pair show ?thesis by (simp add: split_first_None)
    next
      case (Some r')
      then have s: "s = a @ c # r'" using Pair by (simp add: split_first_Some)
      have "splitN (Suc n) c r' \<noteq> []"
        by (cases n) (auto split: prod.splits option.splits)
      then have "join c (a # splitN (Suc n) c r') = a @ c # join c (splitN (Suc n) c r')"
        by (cases "splitN (Suc n) c r'") auto
      with Pair Some s 3 show ?thesis by simp
    qed
  qed
qed auto

lemma splitN_2: "splitN 2 c s = (case split_first c s of (a, None) \<Rightarrow> [a] | (a, Some r) \<Rightarrow> [a, r])"
  by (simp add: numeral_2_eq_2 split: prod.splits option.splits)

lemma splitN_2_eq: "splitN 2 c s = [a, r] \<longleftrightarrow> s = a @ c # r \<and> c \<notin> set a"
proof -
  obtain a' r' where p: "split_first c s = (a', r')" by fastforce
  then show ?thesis
    using split_first_spec [where c = c and s = s] by (cases r') (auto simp: splitN_2 sep_unique)
qed

lemma splitN_3: "splitN 3 c s =
  (case split_first c s of (a, None) \<Rightarrow> [a] | (a, Some r) \<Rightarrow> a # splitN 2 c r)"
  by (simp add: numeral_3_eq_3 numeral_2_eq_2 split: prod.splits option.splits)

lemma splitN_3_eq:
  "splitN 3 c s = [a, b, r] \<longleftrightarrow> s = a @ c # b @ c # r \<and> c \<notin> set a \<and> c \<notin> set b"
proof -
  obtain a' r' where p: "split_first c s = (a', r')" by fastforce
  then show ?thesis
    using split_first_spec [where c = c and s = s]
    by (cases r') (auto simp: splitN_3 splitN_2_eq sep_unique)
qed

text \<open>Splitting is the inverse of joining parts without separator.\<close>

lemma splitN_join:
  "ps \<noteq> [] \<Longrightarrow> length ps \<le> n \<Longrightarrow> \<forall>p \<in> set ps. c \<notin> set p \<Longrightarrow> splitN n c (join c ps) = ps"
proof (induction ps arbitrary: n)
  case (Cons p ps)
  then obtain m where n: "n = Suc m" by (cases n) auto
  show ?case
  proof (cases ps)
    case Nil
    then show ?thesis using Cons.prems n by (cases m) auto
  next
    case (Cons q qs)
    then obtain k where "m = Suc k" using Cons.prems n by (cases m) auto
    then show ?thesis using Cons Cons.prems Cons.IH [of m] n by simp
  qed
qed simp

lemma length_join: "length ps \<le> Suc (length (join c ps))"
  by (induction c ps rule: join.induct) auto

lemma split_join: "ps \<noteq> [] \<Longrightarrow> \<forall>p \<in> set ps. c \<notin> set p \<Longrightarrow> split c (join c ps) = ps"
  unfolding split_def by (rule splitN_join) (auto simp: length_join)

lemma splitN_no_sep: "length s < n \<Longrightarrow> p \<in> set (splitN n c s) \<Longrightarrow> c \<notin> set p"
proof (induction n c s arbitrary: p rule: splitN.induct)
  case (3 n c s)
  obtain a r where ar: "split_first c s = (a, r)" by fastforce
  show ?case
  proof (cases r)
    case None
    then show ?thesis using 3 ar by (auto simp: split_first_None)
  next
    case (Some r')
    then have s: "s = a @ c # r'" "c \<notin> set a" using ar by (auto simp: split_first_Some)
    have pa: "p = a \<or> p \<in> set (splitN (Suc n) c r')" using "3.prems"(2) ar Some by simp
    have len: "length r' < Suc n" using "3.prems"(1) s(1) by simp
    show ?thesis using pa s(2) "3.IH" [OF ar [symmetric] Some len] by blast
  qed
qed auto

lemma split_parts: "join c (split c s) = s" "p \<in> set (split c s) \<Longrightarrow> c \<notin> set p"
  unfolding split_def by (auto simp: join_splitN dest: splitN_no_sep [rotated])

section \<open>Package strconv\<close>

lemma split_not_Nil [simp]: "split c s \<noteq> []"
proof -
  have "splitN (Suc n) c s \<noteq> []" for n by (cases n) (auto simp: Let_def split: prod.splits option.splits)
  then show ?thesis by (simp add: split_def)
qed

definition is_digit :: "char \<Rightarrow> bool" where
  "is_digit c \<longleftrightarrow> (let n = (of_char c :: nat) in 48 \<le> n \<and> n \<le> 57)"

definition digits_value :: "string \<Rightarrow> int" where
  "digits_value s = foldl (\<lambda>a c. a * 10 + (int (of_char c) - 48)) 0 s"

text \<open>
  \<open>strconv.Atoi\<close>: an optional sign and then decimal digits. The first component is the
  value returned, also beside an error: 0 for a malformed string and the nearest bound
  for a value out of range. The second says whether the error is nil.
\<close>

definition atoi :: "string \<Rightarrow> int \<times> bool" where
  "atoi s =
     (let neg = hasPrefix s ''-'';
          ds = (if neg \<or> hasPrefix s ''+'' then tl s else s);
          v = (if neg then - digits_value ds else digits_value ds)
      in if ds = [] \<or> \<not> list_all is_digit ds then (0, False)
         else if v < min_int64 then (min_int64, False)
         else if v > max_int64 then (max_int64, False)
         else (v, True))"

fun nat_digits :: "nat \<Rightarrow> string" where
  "nat_digits n = (if n < 10 then [char_of (48 + n)] else nat_digits (n div 10) @ [char_of (48 + n mod 10)])"

declare nat_digits.simps [simp del]

definition itoa :: "int \<Rightarrow> string" where
  "itoa n = (if n < 0 then CHR ''-'' # nat_digits (nat (- n)) else nat_digits (nat n))"

lemma digits_value_snoc: "digits_value (s @ [c]) = digits_value s * 10 + (int (of_char c) - 48)"
  by (simp add: digits_value_def)

lemma nat_digits_value: "digits_value (nat_digits n) = int n"
proof (induction n rule: nat_digits.induct)
  case (1 n)
  show ?case
  proof (cases "n < 10")
    case True
    then show ?thesis by (subst nat_digits.simps) (simp add: digits_value_def)
  next
    case False
    have "int (n div 10) * 10 + int (n mod 10) = int n"
      by (metis div_mult_mod_eq of_nat_add of_nat_mult of_nat_numeral)
    with False 1 show ?thesis
      by (subst nat_digits.simps) (simp add: digits_value_snoc)
  qed
qed

lemma is_digit_char [simp]: "(n :: nat) < 10 \<Longrightarrow> is_digit (char_of (48 + n))"
  by (simp add: is_digit_def Let_def)

lemma nat_digits_digits: "list_all is_digit (nat_digits n) \<and> nat_digits n \<noteq> []"
proof (induction n rule: nat_digits.induct)
  case (1 n)
  then show ?case
    by (subst (1 2) nat_digits.simps) (auto simp: is_digit_char)
qed

text \<open>Parsing what \<open>strconv.Itoa\<close> prints gives the number back.\<close>

lemma atoi_itoa: "min_int64 \<le> n \<Longrightarrow> n \<le> max_int64 \<Longrightarrow> atoi (itoa n) = (n, True)"
proof -
  assume b: "min_int64 \<le> n" "n \<le> max_int64"
  have "\<not> hasPrefix (nat_digits m) ''-''" "\<not> hasPrefix (nat_digits m) ''+''" for m
    using nat_digits_digits [of m]
    by (cases "nat_digits m"; auto simp: hasPrefix_def is_digit_def)+
  then show ?thesis
    using b nat_digits_digits nat_digits_value
    by (auto simp: atoi_def itoa_def Let_def hasPrefix_def)
qed

text \<open>\<open>strconv.ParseBool\<close>, with the error dropped: what is not a boolean is false.\<close>

definition parseBool :: "string \<Rightarrow> bool" where
  "parseBool s \<longleftrightarrow> s \<in> {''1'', ''t'', ''T'', ''TRUE'', ''true'', ''True''}"

section \<open>Maps and sweeps\<close>

text \<open>
  \<open>for k, v := range m { if dead(v) { delete(m, k) } }\<close>: a Go map may be modified
  while it is iterated, and every entry is visited that no iteration removed.
\<close>

definition map_sweep :: "('v \<Rightarrow> bool) \<Rightarrow> ('k \<rightharpoonup> 'v) \<Rightarrow> ('k \<rightharpoonup> 'v)" where
  "map_sweep dead m = (\<lambda>k. case m k of None \<Rightarrow> None | Some v \<Rightarrow> if dead v then None else Some v)"

lemma map_sweep_Some: "map_sweep dead m k = Some v \<longleftrightarrow> m k = Some v \<and> \<not> dead v"
  by (auto simp: map_sweep_def split: option.splits)

lemma map_sweep_None: "map_sweep dead m k = None \<longleftrightarrow> (\<forall>v. m k = Some v \<longrightarrow> dead v)"
  by (auto simp: map_sweep_def split: option.splits)

lemma dom_map_sweep: "dom (map_sweep dead m) \<subseteq> dom m"
  by (auto simp: map_sweep_Some)

lemma finite_dom_map_sweep [intro]: "finite (dom m) \<Longrightarrow> finite (dom (map_sweep dead m))"
  by (rule finite_subset [OF dom_map_sweep])

lemma map_sweep_idem [simp]: "map_sweep dead (map_sweep dead m) = map_sweep dead m"
  by (rule ext) (simp add: map_sweep_def split: option.split)

text \<open>
  A store whose entries die as time passes. A reader that treats a dead entry as absent
  cannot tell whether a sweep ran, and sweeps commute with each other in time.
\<close>

locale expiring =
  fixes dead :: "time \<Rightarrow> 'v \<Rightarrow> bool"
  assumes dead_mono: "dead t v \<Longrightarrow> t \<le> t' \<Longrightarrow> dead t' v"
begin

definition live :: "('k \<rightharpoonup> 'v) \<Rightarrow> time \<Rightarrow> 'k \<Rightarrow> 'v option" where
  "live m t k = map_sweep (dead t) m k"

lemma live_sweep:
  assumes "t \<le> t'"
  shows "live (map_sweep (dead t) m) t' k = live m t' k"
  using dead_mono [OF _ assms] by (auto simp: live_def map_sweep_def split: option.splits)

lemma sweep_sweep:
  assumes "t \<le> t'"
  shows "map_sweep (dead t') (map_sweep (dead t) m) = map_sweep (dead t') m"
  using dead_mono [OF _ assms] by (auto simp: map_sweep_def fun_eq_iff split: option.splits)

lemma live_update: "\<not> dead t v \<Longrightarrow> live (m(k \<mapsto> v)) t k = Some v"
  by (simp add: live_def map_sweep_def)

lemma live_other: "k' \<noteq> k \<Longrightarrow> live (m(k := x)) t k' = live m t k'"
  by (simp add: live_def map_sweep_def)

lemma sweep_keeps_live: "live m t k = Some v \<Longrightarrow> map_sweep (dead t) m k = Some v"
  by (simp add: live_def)

end

section \<open>Tables\<close>

text \<open>A query for one row: the row found satisfies the condition, and the only such row is found.\<close>

lemma find_SomeD: "find P xs = Some x \<Longrightarrow> x \<in> set xs \<and> P x"
  by (auto simp: find_Some_iff)

lemma find_unique:
  assumes "x \<in> set xs" "P x" "\<And>y. y \<in> set xs \<Longrightarrow> P y \<Longrightarrow> y = x"
  shows "find P xs = Some x"
proof (cases "find P xs")
  case None
  then show ?thesis using assms(1,2) by (simp add: find_None_iff)
next
  case (Some y)
  then show ?thesis using find_SomeD [OF Some] assms(3) [of y] by simp
qed

lemma find_map_same:
  "(\<And>x. P (f x) = P x) \<Longrightarrow> find P (map f xs) = map_option f (find P xs)"
  by (induction xs) auto

section \<open>Systems that only grow\<close>

text \<open>
  A state that is changed by steps, each of which keeps an invariant and only moves up a
  preorder: what holds for one step holds for every run. \<open>pre\<close> is what a step may assume of
  its arguments.
\<close>

locale growing_system =
  fixes step :: "'e \<Rightarrow> 's \<Rightarrow> 's"
    and pre :: "'e \<Rightarrow> 's \<Rightarrow> bool"
    and inv :: "'s \<Rightarrow> bool"
    and le :: "'s \<Rightarrow> 's \<Rightarrow> bool"
  assumes step_inv: "inv s \<Longrightarrow> pre e s \<Longrightarrow> inv (step e s)"
    and step_le: "inv s \<Longrightarrow> pre e s \<Longrightarrow> le s (step e s)"
    and le_refl: "le s s"
    and le_trans: "le s t \<Longrightarrow> le t u \<Longrightarrow> le s u"
begin

primrec run :: "'e list \<Rightarrow> 's \<Rightarrow> 's" where
  "run [] s = s"
| "run (e # es) s = run es (step e s)"

primrec pre_run :: "'e list \<Rightarrow> 's \<Rightarrow> bool" where
  "pre_run [] s = True"
| "pre_run (e # es) s \<longleftrightarrow> pre e s \<and> pre_run es (step e s)"

lemma run_inv: "inv s \<Longrightarrow> pre_run es s \<Longrightarrow> inv (run es s)"
  by (induction es arbitrary: s) (auto intro: step_inv)

lemma run_le: "inv s \<Longrightarrow> pre_run es s \<Longrightarrow> le s (run es s)"
proof (induction es arbitrary: s)
  case (Cons e es)
  then have "le s (step e s)" "inv (step e s)" by (auto intro: step_le step_inv)
  with Cons show ?case by (auto intro: le_trans)
qed (simp add: le_refl)

lemma run_append: "run (es @ fs) s = run fs (run es s)"
  by (induction es arbitrary: s) simp_all

end

end
