(* ===== verification/Gin_Context.thy ===== *)
theory Gin_Context
  imports Complex_Main Go_Prelude
begin

text \<open>
  What the handlers see of the web framework: the request, the key-value store of
  \<open>gin.Context\<close> and the response being written.

  \<^item> A value stored with \<open>c.Set\<close> has a dynamic type. The backend stores strings and users;
    a \<open>User\<close> and a \<open>*User\<close> are different types to a type assertion, so they are
    different constructors of \<open>gval\<close>.
  \<^item> A handler maps a context and the server's state to the next ones. A middleware also takes
    the handlers that follow it, which \<open>c.Next()\<close> runs; a middleware that aborts does not
    call them.
  \<^item> A response body is a JSON value. The helpers of \<open>api/router.go\<close> that build the
    envelope \<open>{"data": ..., "error": ...}\<close> are here because every handler uses them.
\<close>

section \<open>JSON values\<close>

text \<open>Integers and floating-point numbers are kept apart; \<open>JRaw\<close> is a \<open>json.RawMessage\<close>.\<close>

datatype json = JNull | JBool bool | JNum int | JFloat rat | JStr string | JRaw string
  | JArr "json list"  | JObj "(string \<times> json) list"

section \<open>Users and stored values\<close>

record user =
  u_ID :: string
  u_Username :: string
  u_Email :: string
  u_Role :: string
  u_TokenID :: string
  u_MustChangePassword :: bool

datatype gval = GString string | GUser user | GUserPtr user

text \<open>The type assertions \<open>v.(string)\<close> and \<open>v.(User)\<close>, with the comma-ok form's result.\<close>

fun as_string :: "gval \<Rightarrow> string option" where
  "as_string (GString s) = Some s"
| "as_string _ = None"

fun as_User :: "gval \<Rightarrow> user option" where
  "as_User (GUser u) = Some u"
| "as_User _ = None"

section \<open>Requests and responses\<close>

record request =
  rq_method :: string
  rq_path :: string
  rq_headers :: "string \<rightharpoonup> string"
  rq_clientIP :: string
  rq_params :: "string \<rightharpoonup> string"
  rq_query :: "string \<rightharpoonup> string"
  rq_contentLength :: int

record ctx =
  cx_req :: request
  cx_keys :: "string \<rightharpoonup> gval"
  cx_headers :: "string \<rightharpoonup> string"
  cx_status :: int
  cx_body :: "json option"
  cx_aborted :: bool
  cx_panicked :: bool

definition new_ctx :: "request \<Rightarrow> ctx" where
  "new_ctx r = \<lparr>cx_req = r, cx_keys = Map.empty, cx_headers = Map.empty, cx_status = 200,
                cx_body = None, cx_aborted = False, cx_panicked = False\<rparr>"

text \<open>\<open>c.GetHeader\<close>, \<open>c.Query\<close> and \<open>c.Param\<close> give the empty string for an absent name.\<close>

text \<open>A request with nothing but a method and a path.\<close>

definition bare_request :: "string \<Rightarrow> string \<Rightarrow> ctx" where
  "bare_request meth path = new_ctx \<lparr>rq_method = meth, rq_path = path, rq_headers = Map.empty, rq_clientIP = [],
     rq_params = Map.empty, rq_query = Map.empty, rq_contentLength = 0\<rparr>"

definition getHeader :: "ctx \<Rightarrow> string \<Rightarrow> string" where
  "getHeader c n = (case rq_headers (cx_req c) n of None \<Rightarrow> [] | Some v \<Rightarrow> v)"

definition getQuery :: "ctx \<Rightarrow> string \<Rightarrow> string" where
  "getQuery c n = (case rq_query (cx_req c) n of None \<Rightarrow> [] | Some v \<Rightarrow> v)"

definition getParam :: "ctx \<Rightarrow> string \<Rightarrow> string" where
  "getParam c n = (case rq_params (cx_req c) n of None \<Rightarrow> [] | Some v \<Rightarrow> v)"

definition cset :: "string \<Rightarrow> gval \<Rightarrow> ctx \<Rightarrow> ctx" where
  "cset k v c = c\<lparr>cx_keys := (cx_keys c)(k \<mapsto> v)\<rparr>"

definition set_header :: "string \<Rightarrow> string \<Rightarrow> ctx \<Rightarrow> ctx" where
  "set_header k v c = c\<lparr>cx_headers := (cx_headers c)(k \<mapsto> v)\<rparr>"

text \<open>\<open>s, _ := v.(string)\<close> of a stored value: the empty string when absent or of another type.\<close>

definition get_string :: "ctx \<Rightarrow> string \<Rightarrow> string" where
  "get_string c k =
     (case cx_keys c k of None \<Rightarrow> []
      | Some v \<Rightarrow> (case as_string v of None \<Rightarrow> [] | Some s \<Rightarrow> s))"

definition reply :: "int \<Rightarrow> json \<Rightarrow> ctx \<Rightarrow> ctx" where
  "reply st body c = c\<lparr>cx_status := st, cx_body := Some body\<rparr>"

definition envelope :: "json \<Rightarrow> json \<Rightarrow> json" where
  "envelope data err = JObj [(''data'', data), (''error'', err)]"

definition success :: "json \<Rightarrow> ctx \<Rightarrow> ctx" where
  "success data c = reply 200 (envelope data JNull) c"

definition fail :: "int \<Rightarrow> string \<Rightarrow> ctx \<Rightarrow> ctx" where
  "fail st msg c = reply st (envelope JNull (JStr msg)) c"

text \<open>\<open>failInternal\<close> logs the cause and sends only the public message.\<close>

definition failInternal :: "int \<Rightarrow> string \<Rightarrow> string \<Rightarrow> ctx \<Rightarrow> ctx" where
  "failInternal st publicMsg err c = reply st (envelope JNull (JStr publicMsg)) c"

definition abort :: "ctx \<Rightarrow> ctx" where
  "abort c = c\<lparr>cx_aborted := True\<rparr>"

definition abort_fail :: "int \<Rightarrow> string \<Rightarrow> ctx \<Rightarrow> ctx" where
  "abort_fail st msg c = abort (fail st msg c)"

text \<open>
  A panic inside a handler reaches \<open>gin.Recovery\<close>, which answers 500 without a body. It unwinds
  the middleware in between, so what they do after \<open>c.Next()\<close> is left out; \<open>cx_panicked\<close> tells them.
\<close>

definition recovered :: "ctx \<Rightarrow> ctx" where
  "recovered c = abort (c\<lparr>cx_status := 500, cx_panicked := True\<rparr>)"

text \<open>
  Identifiers are UUIDs, and three pieces of code outside the repository read them: \<open>uuid.Parse\<close>
  (\<open>uu_Parse\<close>, whether it accepts a text), the \<open>uuid\<close> tag of the validator (\<open>uu_Tag\<close>) and
  PostgreSQL, which converts the text a statement is given to a UUID (\<open>uu_pg\<close>: the identifier in the
  form the tables show it in, or \<open>None\<close> when it refuses the text). \<open>uuidParam\<close> hands on the text as
  it came; \<open>uuid_arg\<close> is what a statement that can fail with \<open>err\<close> makes of it.
\<close>

record uuid_lib =
  uu_Parse :: "string \<Rightarrow> bool"
  uu_Tag :: "string \<Rightarrow> bool"
  uu_pg :: "string \<Rightarrow> string option"

definition invalid_uuid :: string where
  "invalid_uuid = ''pq: invalid input syntax for type uuid''"

definition uuid_arg :: "uuid_lib \<Rightarrow> string option \<Rightarrow> string \<Rightarrow> string + string" where
  "uuid_arg U err raw =
     (case err of Some e \<Rightarrow> Inl e
      | None \<Rightarrow> (case uu_pg U raw of None \<Rightarrow> Inl invalid_uuid | Some i \<Rightarrow> Inr i))"

text \<open>A filter on an identifier is part of the statement when its query parameter is not empty.\<close>

definition uuid_filter :: "uuid_lib \<Rightarrow> string option \<Rightarrow> string \<Rightarrow> string + string" where
  "uuid_filter U err raw =
     (if raw = [] then (case err of Some e \<Rightarrow> Inl e | None \<Rightarrow> Inr []) else uuid_arg U err raw)"

definition uuidParam :: "uuid_lib \<Rightarrow> string \<Rightarrow> ctx \<Rightarrow> ctx + string" where
  "uuidParam U name c =
     (if uu_Parse U (getParam c name) then Inr (getParam c name)
      else Inl (fail 400 (''Invalid '' @ name @ '': must be a UUID'') c))"

text \<open>Texts that are read as they stand, for the examples.\<close>

definition plain_uuids :: uuid_lib where
  "plain_uuids = \<lparr>uu_Parse = (\<lambda>_. True), uu_Tag = (\<lambda>_. True), uu_pg = Some\<rparr>"

lemma plain_uuids_simps [simp]:
  "uuidParam plain_uuids name c = Inr (getParam c name)" "uuid_arg plain_uuids None raw = Inr raw"
  "uu_pg plain_uuids raw = Some raw" "uu_Tag plain_uuids raw" "uu_Parse plain_uuids raw"
  by (simp_all add: plain_uuids_def uuidParam_def uuid_arg_def)

text \<open>An optional text column: blank input is stored as NULL.\<close>

definition nullableString :: "string \<Rightarrow> string option" where
  "nullableString s = (let t = trimSpace s in if t = [] then None else Some t)"

section \<open>Binding tags\<close>

text \<open>The number of code points of a UTF-8 string: the bytes that are no continuation bytes.\<close>

definition runes :: "string \<Rightarrow> nat" where
  "runes s = length (filter (\<lambda>c. \<not> (128 \<le> (of_char c :: nat) \<and> (of_char c :: nat) < 192)) s)"

definition len_between :: "nat \<Rightarrow> nat \<Rightarrow> string \<Rightarrow> bool" where
  "len_between lo hi s \<longleftrightarrow> s \<noteq> [] \<and> lo \<le> runes s \<and> runes s \<le> hi"

section \<open>Frame lemmas\<close>

lemma reply_simps [simp]:
  "cx_status (reply st b c) = st" "cx_body (reply st b c) = Some b" "cx_req (reply st b c) = cx_req c"
  "cx_keys (reply st b c) = cx_keys c" "cx_aborted (reply st b c) = cx_aborted c"
  "cx_headers (reply st b c) = cx_headers c"
  "cx_panicked (reply st b c) = cx_panicked c"
  by (simp_all add: reply_def)

lemma fail_simps [simp]:
  "cx_status (fail st m c) = st" "cx_req (fail st m c) = cx_req c" "cx_keys (fail st m c) = cx_keys c"
  "cx_aborted (fail st m c) = cx_aborted c" "cx_headers (fail st m c) = cx_headers c"
  "cx_body (fail st m c) = Some (envelope JNull (JStr m))"
  "cx_panicked (fail st m c) = cx_panicked c"
  by (simp_all add: fail_def)

lemma success_simps [simp]:
  "cx_status (success d c) = 200" "cx_req (success d c) = cx_req c" "cx_keys (success d c) = cx_keys c"
  "cx_aborted (success d c) = cx_aborted c" "cx_headers (success d c) = cx_headers c"
  "cx_body (success d c) = Some (envelope d JNull)"
  "cx_panicked (success d c) = cx_panicked c"
  by (simp_all add: success_def)

lemma abort_simps [simp]:
  "cx_status (abort c) = cx_status c" "cx_req (abort c) = cx_req c" "cx_keys (abort c) = cx_keys c"
  "cx_aborted (abort c)" "cx_body (abort c) = cx_body c" "cx_headers (abort c) = cx_headers c"
  "cx_panicked (abort c) = cx_panicked c"
  by (simp_all add: abort_def)

lemma abort_fail_simps [simp]:
  "cx_status (abort_fail st m c) = st" "cx_req (abort_fail st m c) = cx_req c"
  "cx_keys (abort_fail st m c) = cx_keys c" "cx_aborted (abort_fail st m c)"
  "cx_panicked (abort_fail st m c) = cx_panicked c"
  by (simp_all add: abort_fail_def)

lemma recovered_simps [simp]:
  "cx_status (recovered c) = 500" "cx_aborted (recovered c)" "cx_req (recovered c) = cx_req c"
  "cx_panicked (recovered c)"
  by (simp_all add: recovered_def)

lemma cset_simps [simp]:
  "cx_keys (cset k v c) = (cx_keys c)(k \<mapsto> v)" "cx_req (cset k v c) = cx_req c"
  "cx_status (cset k v c) = cx_status c" "cx_aborted (cset k v c) = cx_aborted c"
  "cx_body (cset k v c) = cx_body c" "cx_headers (cset k v c) = cx_headers c"
  "cx_panicked (cset k v c) = cx_panicked c"
  by (simp_all add: cset_def)

lemma set_header_simps [simp]:
  "cx_headers (set_header k v c) = (cx_headers c)(k \<mapsto> v)" "cx_req (set_header k v c) = cx_req c"
  "cx_status (set_header k v c) = cx_status c" "cx_aborted (set_header k v c) = cx_aborted c"
  "cx_body (set_header k v c) = cx_body c" "cx_keys (set_header k v c) = cx_keys c"
  "cx_panicked (set_header k v c) = cx_panicked c"
  by (simp_all add: set_header_def)

lemma getHeader_frame [simp]:
  "getHeader (cset k v c) n = getHeader c n" "getHeader (set_header k x c) n = getHeader c n"
  by (simp_all add: getHeader_def)

section \<open>Handlers and middleware\<close>

type_synonym 'w handler = "ctx \<Rightarrow> 'w \<Rightarrow> ctx \<times> 'w"
type_synonym 'w middleware = "'w handler \<Rightarrow> 'w handler"

text \<open>A route is a list of middleware and a final handler.\<close>

definition chain :: "'w middleware list \<Rightarrow> 'w handler \<Rightarrow> 'w handler" where
  "chain ms h = foldr (\<lambda>m k. m k) ms h"

lemma chain_simps [simp]: "chain [] h = h" "chain (m # ms) h = m (chain ms h)"
  by (simp_all add: chain_def)

lemma chain_append: "chain (ms @ ns) h = chain ms (chain ns h)"
  by (simp add: chain_def)

end
