(* ===== verification/Encoding.thy ===== *)
theory Encoding
  imports Go_Prelude
begin

text \<open>
  The two encodings of byte strings the backend prints tokens with: \<open>encoding/hex\<close> in lower
  case, and \<open>base64.RawURLEncoding\<close> with the decoder as the Go library has it (line breaks
  are skipped, unused bits of the last digit are ignored, padding is an error).
\<close>

section \<open>Hexadecimal\<close>

definition hex_digit :: "nat \<Rightarrow> char" where
  "hex_digit n = (if n < 10 then char_of (48 + n) else char_of (87 + n))"

fun hex_encode :: "string \<Rightarrow> string" where
  "hex_encode [] = []"
| "hex_encode (c # s) = (let n = of_char c in hex_digit (n div 16) # hex_digit (n mod 16) # hex_encode s)"

lemma hex_digit_inj: "m < 16 \<Longrightarrow> n < 16 \<Longrightarrow> hex_digit m = hex_digit n \<longleftrightarrow> m = n"
proof -
  assume mn: "m < 16" "n < 16"
  have inj: "char_of a = (char_of b :: char) \<longleftrightarrow> a = b" if "a < 256" "b < 256" for a b :: nat
    using that by (metis mod_less of_char_of)
  show ?thesis using mn by (auto simp: hex_digit_def inj)
qed

lemma length_hex_encode [simp]: "length (hex_encode s) = 2 * length s"
  by (induction s) (auto simp: Let_def)

lemma hex_encode_inj: "hex_encode s = hex_encode t \<longleftrightarrow> s = t"
proof (induction s arbitrary: t)
  case Nil
  then show ?case by (cases t) (auto simp: Let_def)
next
  case (Cons c s)
  have "c = d" if "(of_char c :: nat) div 16 = of_char d div 16" "(of_char c :: nat) mod 16 = of_char d mod 16" for d
    using that by (metis div_mult_mod_eq char_of_char)
  moreover have "(of_char d :: nat) div 16 < 16" for d :: char
    using of_char_less_256 [of d] by (simp add: div_less_iff_less_mult)
  ultimately show ?case using Cons by (cases t) (auto simp: Let_def hex_digit_inj)
qed

lemma hex_encode_eq_Nil [simp]: "hex_encode s = [] \<longleftrightarrow> s = []"
  by (cases s) (auto simp: Let_def)

section \<open>Base 64\<close>

definition b64_char :: "nat \<Rightarrow> char" where
  "b64_char i =
     (if i < 26 then char_of (65 + i) else if i < 52 then char_of (71 + i)
      else if i < 62 then char_of (i - 4) else if i = 62 then CHR ''-'' else CHR ''_'')"

definition b64_val :: "char \<Rightarrow> nat option" where
  "b64_val c =
     (let n = of_char c in
      if 65 \<le> n \<and> n \<le> 90 then Some (n - 65) else if 97 \<le> n \<and> n \<le> 122 then Some (n - 71)
      else if 48 \<le> n \<and> n \<le> 57 then Some (n + 4)
      else if c = CHR ''-'' then Some 62 else if c = CHR ''_'' then Some 63 else None)"

fun b64_groups :: "nat list \<Rightarrow> nat list" where
  "b64_groups [] = []"
| "b64_groups [a] = [a div 4, a mod 4 * 16]"
| "b64_groups [a, b] = [a div 4, a mod 4 * 16 + b div 16, b mod 16 * 4]"
| "b64_groups (a # b # c # r) =
     a div 4 # (a mod 4 * 16 + b div 16) # (b mod 16 * 4 + c div 64) # (c mod 64) # b64_groups r"

definition b64_encode :: "string \<Rightarrow> string" where
  "b64_encode s = map b64_char (b64_groups (map of_char s))"

fun b64_bytes :: "nat list \<Rightarrow> nat list option" where
  "b64_bytes [] = Some []"
| "b64_bytes [w] = None"
| "b64_bytes [w, x] = Some [w * 4 + x div 16]"
| "b64_bytes [w, x, y] = Some [w * 4 + x div 16, x mod 16 * 16 + y div 4]"
| "b64_bytes (w # x # y # z # r) =
     map_option (\<lambda>t. (w * 4 + x div 16) # (x mod 16 * 16 + y div 4) # (y mod 4 * 64 + z) # t) (b64_bytes r)"

fun b64_vals :: "string \<Rightarrow> nat list option" where
  "b64_vals [] = Some []"
| "b64_vals (c # s) =
     (if c = char_of (10 :: nat) \<or> c = char_of (13 :: nat) then b64_vals s
      else case b64_val c of None \<Rightarrow> None | Some v \<Rightarrow> map_option (Cons v) (b64_vals s))"

definition b64_decode :: "string \<Rightarrow> string option" where
  "b64_decode s =
     (case b64_vals s of None \<Rightarrow> None | Some vs \<Rightarrow> map_option (map char_of) (b64_bytes vs))"

lemma b64_char_code [simp]:
  "i < 64 \<Longrightarrow> b64_val (b64_char i) = Some i"
  "i < 64 \<Longrightarrow> b64_char i \<noteq> char_of (10 :: nat)"
  "i < 64 \<Longrightarrow> b64_char i \<noteq> char_of (13 :: nat)"
  "i < 64 \<Longrightarrow> b64_char i \<noteq> CHR ''.''"
proof -
  assume i: "i < 64"
  have of_c: "of_char (b64_char i) =
     (if i < 26 then 65 + i else if i < 52 then 71 + i else if i < 62 then i - 4 else if i = 62 then 45 else 95)"
    using i by (simp add: b64_char_def)
  have "b64_char 62 = CHR ''-''" "b64_char 63 = CHR ''_''" by (simp_all add: b64_char_def)
  moreover have "i \<noteq> 62 \<Longrightarrow> i \<noteq> 63 \<Longrightarrow> i < 62" using i by simp
  ultimately show "b64_val (b64_char i) = Some i"
    by (cases "i = 62"; cases "i = 63") (auto simp: b64_val_def Let_def of_c)
  have ne: "b64_char i \<noteq> c" if "(of_char (b64_char i) :: nat) \<noteq> of_char c" for c using that by auto
  show "b64_char i \<noteq> char_of (10 :: nat)" by (rule ne) (auto simp: of_c)
  show "b64_char i \<noteq> char_of (13 :: nat)" by (rule ne) (auto simp: of_c)
  show "b64_char i \<noteq> CHR ''.''" by (rule ne) (auto simp: of_c)
qed

lemma b64_vals_chars: "\<forall>v \<in> set vs. v < 64 \<Longrightarrow> b64_vals (map b64_char vs) = Some vs"
  by (induction vs) auto

lemma b64_groups_range: "\<forall>b \<in> set bs. b < 256 \<Longrightarrow> \<forall>v \<in> set (b64_groups bs). v < 64"
proof (induction bs rule: b64_groups.induct)
  case (4 a b c r)
  then have "a div 4 < 64" "b div 16 < 16" "c div 64 < 4" by (auto simp: div_less_iff_less_mult)
  moreover have "a mod 4 * 16 + y < 64" if "y < 16" for y :: nat
    using that mod_less_divisor [of 4 a] by linarith
  moreover have "b mod 16 * 4 + y < 64" if "y < 4" for y :: nat
    using that mod_less_divisor [of 16 b] by linarith
  ultimately show ?case using 4 by simp
next
  case (3 a b)
  then have "a div 4 < 64" "b div 16 < 16" by (auto simp: div_less_iff_less_mult)
  moreover have "a mod 4 * 16 + y < 64" if "y < 16" for y :: nat
    using that mod_less_divisor [of 4 a] by linarith
  moreover have "b mod 16 * 4 < 64" using mod_less_divisor [of 16 b] by linarith
  ultimately show ?case by simp
next
  case (2 a)
  moreover have "a mod 4 * 16 < 64" using mod_less_divisor [of 4 a] by linarith
  ultimately show ?case by (simp add: div_less_iff_less_mult)
qed auto

lemma b64_group_arith:
  "x < (n :: nat) \<Longrightarrow> (k * n + x) div n = k" "x < n \<Longrightarrow> (k * n + x) mod n = x"
  by simp_all

lemma b64_bytes_groups: "\<forall>b \<in> set bs. b < 256 \<Longrightarrow> b64_bytes (b64_groups bs) = Some bs"
proof (induction bs rule: b64_groups.induct)
  case (4 a b c r)
  then have "b div 16 < 16" "c div 64 < 4" by (auto simp: div_less_iff_less_mult)
  with 4 show ?case by (simp add: b64_group_arith)
next
  case (3 a b)
  then have "b div 16 < 16" by (auto simp: div_less_iff_less_mult)
  with 3 show ?case by (simp add: b64_group_arith)
qed auto

text \<open>Decoding gives back what was encoded.\<close>

lemma b64_decode_encode [simp]: "b64_decode (b64_encode s) = Some s"
proof -
  have r: "\<forall>b \<in> set (map of_char s). b < (256 :: nat)" by simp
  show ?thesis
    by (simp add: b64_decode_def b64_encode_def b64_vals_chars [OF b64_groups_range [OF r]]
        b64_bytes_groups [OF r] comp_def)
qed

lemma b64_encode_inj: "b64_encode s = b64_encode t \<longleftrightarrow> s = t"
  by (metis b64_decode_encode option.inject)

text \<open>An encoded string has no dot, which separates the parts of a token.\<close>

lemma b64_encode_no_dot [simp]: "CHR ''.'' \<notin> set (b64_encode s)"
proof
  assume "CHR ''.'' \<in> set (b64_encode s)"
  then obtain i where "i \<in> set (b64_groups (map of_char s))" "b64_char i = CHR ''.''"
    by (auto simp: b64_encode_def)
  moreover have "i < 64" using b64_groups_range [of "map of_char s"] calculation(1) by simp
  ultimately show False using b64_char_code(4) by simp
qed

lemma b64_encode_eq_Nil [simp]: "b64_encode s = [] \<longleftrightarrow> s = []"
  by (metis b64_encode_inj b64_encode_def b64_groups.simps(1) list.simps(8))

text \<open>Nor has a string of hexadecimal digits.\<close>

lemma hex_encode_no_dot [simp]: "CHR ''.'' \<notin> set (hex_encode s)"
proof (induction s)
  case (Cons c s)
  have ne: "hex_digit n \<noteq> CHR ''.''" if "n < 16" for n
  proof
    assume "hex_digit n = CHR ''.''"
    then have "(of_char (hex_digit n) :: nat) = 46" by simp
    then show False using that by (auto simp: hex_digit_def split: if_splits)
  qed
  have "(of_char c :: nat) div 16 < 16"
    using of_char_less_256 [of c] by (simp add: div_less_iff_less_mult)
  with Cons ne [of "of_char c div 16"] ne [of "of_char c mod 16"] show ?case by (simp add: Let_def)
qed simp

end
