(* ===== verification/Cache_Store.thy ===== *)
theory Cache_Store
  imports Go_Prelude
begin

text \<open>
  The in-memory stores of \<open>backend/cache\<close>: the TTL cache of \<open>cache.go\<close> and the token
  blacklist of \<open>blacklist.go\<close>. Both are maps under a mutex, so an operation is one
  transition; the goroutine \<open>cleanup\<close> runs a sweep at every tick. Clock readings are
  arguments.

  The locale \<open>revocation_list\<close> states what a client that revokes tokens needs: a
  revoked identifier is reported as revoked for \<open>ttl\<close>, whatever else is revoked and
  however often the store is swept. The blacklist is its interpretation.
\<close>

section \<open>The TTL cache\<close>

record 'v cache_item =
  it_value :: 'v
  it_expiration :: int

record 'v cache =
  ca_items :: "string \<rightharpoonup> 'v cache_item"
  ca_ttl :: duration

datatype cache_error = ErrNotFound | ErrExpired | ErrMarshal | ErrUnmarshal

definition cache_New :: "duration \<Rightarrow> 'v cache" where
  "cache_New ttl = \<lparr>ca_items = Map.empty, ca_ttl = ttl\<rparr>"

text \<open>\<open>Get\<close> copies the value to the destination through JSON; \<open>marshal\<close> and \<open>unmarshal\<close> are
  \<open>json.Marshal\<close> of the stored value and \<open>json.Unmarshal\<close> into the destination's type.\<close>

definition cache_Get ::
  "('v \<Rightarrow> string option) \<Rightarrow> (string \<Rightarrow> 'd option) \<Rightarrow> 'v cache \<Rightarrow> time \<Rightarrow> string \<Rightarrow> cache_error + 'd" where
  "cache_Get marshal unmarshal c now key =
     (case ca_items c key of
        None \<Rightarrow> Inl ErrNotFound
      | Some it \<Rightarrow>
          if now > it_expiration it then Inl ErrExpired
          else case marshal (it_value it) of
                 None \<Rightarrow> Inl ErrMarshal
               | Some b \<Rightarrow> (case unmarshal b of None \<Rightarrow> Inl ErrUnmarshal | Some d \<Rightarrow> Inr d))"

definition cache_SetTTL :: "'v cache \<Rightarrow> time \<Rightarrow> string \<Rightarrow> 'v \<Rightarrow> duration \<Rightarrow> 'v cache" where
  "cache_SetTTL c now key v ttl =
     c\<lparr>ca_items := (ca_items c)(key \<mapsto> \<lparr>it_value = v, it_expiration = now + ttl\<rparr>)\<rparr>"

definition cache_Set :: "'v cache \<Rightarrow> time \<Rightarrow> string \<Rightarrow> 'v \<Rightarrow> 'v cache" where
  "cache_Set c now key v =
     c\<lparr>ca_items := (ca_items c)(key \<mapsto> \<lparr>it_value = v, it_expiration = now + ca_ttl c\<rparr>)\<rparr>"

definition cache_Delete :: "'v cache \<Rightarrow> string \<Rightarrow> 'v cache" where
  "cache_Delete c key = c\<lparr>ca_items := (ca_items c)(key := None)\<rparr>"

definition cache_Clear :: "'v cache \<Rightarrow> 'v cache" where
  "cache_Clear c = c\<lparr>ca_items := Map.empty\<rparr>"

definition cache_Count :: "'v cache \<Rightarrow> nat" where
  "cache_Count c = card (dom (ca_items c))"

definition item_dead :: "time \<Rightarrow> 'v cache_item \<Rightarrow> bool" where
  "item_dead now it \<longleftrightarrow> now > it_expiration it"

definition cache_cleanup :: "'v cache \<Rightarrow> time \<Rightarrow> 'v cache" where
  "cache_cleanup c now = c\<lparr>ca_items := map_sweep (item_dead now) (ca_items c)\<rparr>"

interpretation cache_items: expiring item_dead
  by unfold_locales (simp add: item_dead_def)

text \<open>What a reader can learn: \<open>Get\<close> succeeds exactly on live entries, and the only trace a
  sweep leaves is that \<open>ErrExpired\<close> becomes \<open>ErrNotFound\<close>.\<close>

lemma cache_Get_live:
  "cache_items.live (ca_items c) now key = Some it \<Longrightarrow>
   cache_Get m u c now key =
     (case m (it_value it) of None \<Rightarrow> Inl ErrMarshal
      | Some b \<Rightarrow> (case u b of None \<Rightarrow> Inl ErrUnmarshal | Some d \<Rightarrow> Inr d))"
  by (simp add: cache_Get_def cache_items.live_def map_sweep_Some item_dead_def)

lemma cache_Get_not_live:
  "cache_items.live (ca_items c) now key = None \<Longrightarrow>
   cache_Get m u c now key = Inl (if key \<in> dom (ca_items c) then ErrExpired else ErrNotFound)"
  by (auto simp: cache_Get_def cache_items.live_def map_sweep_None item_dead_def split: option.splits)

lemma cache_Get_cleanup:
  assumes "t \<le> now"
  shows "cache_Get m u (cache_cleanup c t) now key = cache_Get m u c now key \<or>
         cache_Get m u c now key = Inl ErrExpired \<and> cache_Get m u (cache_cleanup c t) now key = Inl ErrNotFound"
proof (cases "cache_items.live (ca_items c) now key")
  case None
  then show ?thesis
    using cache_items.live_sweep [OF assms, of "ca_items c" key] dom_map_sweep [of "item_dead t" "ca_items c"]
    by (auto simp: cache_Get_not_live cache_cleanup_def)
next
  case (Some it)
  then show ?thesis
    using cache_items.live_sweep [OF assms, of "ca_items c" key]
    by (simp add: cache_Get_live cache_cleanup_def)
qed

section \<open>The token blacklist\<close>

record blacklist_entry =
  bl_addedAt :: time

record blacklist =
  bl_entries :: "string \<rightharpoonup> blacklist_entry"
  bl_maxTTL :: duration

definition NewTokenBlacklist :: blacklist where
  "NewTokenBlacklist = \<lparr>bl_entries = Map.empty, bl_maxTTL = 24 * hour\<rparr>"

definition blacklist_Add :: "blacklist \<Rightarrow> time \<Rightarrow> string \<Rightarrow> blacklist" where
  "blacklist_Add b now jti = b\<lparr>bl_entries := (bl_entries b)(jti \<mapsto> \<lparr>bl_addedAt = now\<rparr>)\<rparr>"

definition IsBlacklisted :: "blacklist \<Rightarrow> string \<Rightarrow> bool" where
  "IsBlacklisted b jti \<longleftrightarrow> bl_entries b jti \<noteq> None"

definition blacklist_Remove :: "blacklist \<Rightarrow> string \<Rightarrow> blacklist" where
  "blacklist_Remove b jti = b\<lparr>bl_entries := (bl_entries b)(jti := None)\<rparr>"

definition blacklist_Len :: "blacklist \<Rightarrow> nat" where
  "blacklist_Len b = card (dom (bl_entries b))"

definition entry_dead :: "duration \<Rightarrow> time \<Rightarrow> blacklist_entry \<Rightarrow> bool" where
  "entry_dead ttl now e \<longleftrightarrow> bl_addedAt e < now - ttl"

definition blacklist_cleanup :: "blacklist \<Rightarrow> time \<Rightarrow> blacklist" where
  "blacklist_cleanup b now = b\<lparr>bl_entries := map_sweep (entry_dead (bl_maxTTL b) now) (bl_entries b)\<rparr>"

interpretation bl_expiring: expiring "entry_dead ttl" for ttl
  by unfold_locales (simp add: entry_dead_def)

section \<open>Revocation lists\<close>

text \<open>What happens to a revocation list in the life of the server: identifiers are revoked and
  the list is swept, each at some time.\<close>

datatype rev_op = Revoke time string | Sweep time

fun op_time :: "rev_op \<Rightarrow> time" where
  "op_time (Revoke t j) = t"
| "op_time (Sweep t) = t"

locale revocation_list =
  fixes revoke :: "'r \<Rightarrow> time \<Rightarrow> string \<Rightarrow> 'r"
    and sweep :: "'r \<Rightarrow> time \<Rightarrow> 'r"
    and revoked :: "'r \<Rightarrow> string \<Rightarrow> bool"
    and since :: "'r \<Rightarrow> string \<Rightarrow> time \<Rightarrow> bool"
    and ttl :: duration
    and inv :: "'r \<Rightarrow> bool"
  assumes since_revoked: "inv r \<Longrightarrow> since r j t \<Longrightarrow> revoked r j"
    and revoke_same: "inv r \<Longrightarrow> since (revoke r t j) j t"
    and revoke_other: "inv r \<Longrightarrow> j' \<noteq> j \<Longrightarrow> since r j' t' \<Longrightarrow> since (revoke r t j) j' t'"
    and sweep_keeps: "inv r \<Longrightarrow> since r j t \<Longrightarrow> now \<le> t + ttl \<Longrightarrow> since (sweep r now) j t"
    and inv_revoke: "inv r \<Longrightarrow> inv (revoke r t j)"
    and inv_sweep: "inv r \<Longrightarrow> inv (sweep r t)"
begin

definition perform :: "'r \<Rightarrow> rev_op \<Rightarrow> 'r" where
  "perform r opn = (case opn of Revoke t j \<Rightarrow> revoke r t j | Sweep t \<Rightarrow> sweep r t)"

lemma perform_simps [simp]:
  "perform r (Revoke t j) = revoke r t j"
  "perform r (Sweep t) = sweep r t"
  by (simp_all add: perform_def)

lemma stays_revoked:
  assumes "inv r" and "since r j t" and "\<forall>opn \<in> set ops. t \<le> op_time opn \<and> op_time opn \<le> t + ttl"
  shows "inv (foldl perform r ops) \<and> (\<exists>t'. t \<le> t' \<and> since (foldl perform r ops) j t')"
  using assms
proof (induction ops rule: rev_induct)
  case Nil
  then show ?case by auto
next
  case (snoc opn ops)
  let ?r = "foldl perform r ops"
  obtain t' where IH: "inv ?r" "t \<le> t'" "since ?r j t'" using snoc by auto
  have tm: "t \<le> op_time opn" "op_time opn \<le> t + ttl" using snoc.prems(3) by auto
  show ?case
  proof (cases opn)
    case (Revoke u j')
    show ?thesis
    proof (cases "j' = j")
      case True
      then show ?thesis using IH Revoke tm revoke_same [OF IH(1)] inv_revoke [OF IH(1)]
        by auto
    next
      case False
      then show ?thesis using IH Revoke revoke_other [OF IH(1), of j j'] inv_revoke [OF IH(1)]
        by auto
    qed
  next
    case (Sweep u)
    with IH tm have "since (sweep ?r u) j t'" by (intro sweep_keeps) auto
    with IH Sweep inv_sweep [OF IH(1)] show ?thesis by auto
  qed
qed

lemma revoked_within_ttl:
  assumes "inv r" and "\<forall>opn \<in> set ops. t \<le> op_time opn \<and> op_time opn \<le> t + ttl"
  shows "revoked (foldl perform (revoke r t j) ops) j"
  using stays_revoked [OF inv_revoke [OF assms(1)] revoke_same [OF assms(1)] assms(2)]
    since_revoked by blast

end

definition blacklist_ok :: "blacklist \<Rightarrow> bool" where
  "blacklist_ok b \<longleftrightarrow> bl_maxTTL b = 24 * hour"

interpretation bl: revocation_list blacklist_Add blacklist_cleanup IsBlacklisted
  "\<lambda>b j t. bl_entries b j = Some \<lparr>bl_addedAt = t\<rparr>" "24 * hour" blacklist_ok
  by unfold_locales
     (auto simp: IsBlacklisted_def blacklist_Add_def blacklist_cleanup_def blacklist_ok_def
       map_sweep_Some entry_dead_def)

fun blacklist_perform :: "blacklist \<Rightarrow> rev_op \<Rightarrow> blacklist" where
  "blacklist_perform b (Revoke t j) = blacklist_Add b t j"
| "blacklist_perform b (Sweep t) = blacklist_cleanup b t"

lemma bl_perform_eq: "bl.perform = blacklist_perform"
  by (intro ext) (simp add: bl.perform_def split: rev_op.splits)

lemma blacklist_ok_New: "blacklist_ok NewTokenBlacklist"
  by (simp add: blacklist_ok_def NewTokenBlacklist_def)

lemma blacklist_ok_perform: "blacklist_ok b \<Longrightarrow> blacklist_ok (foldl blacklist_perform b ops)"
proof (induction ops rule: rev_induct)
  case (snoc opn ops)
  then show ?case by (cases opn) (auto simp: blacklist_ok_def blacklist_Add_def blacklist_cleanup_def)
qed simp

section \<open>Properties\<close>

text \<open>The cache gives back what was stored, through JSON, until the entry's lifetime is over and
  never after, whatever other keys were written and whenever the sweep ran in between.\<close>

theorem cache_roundtrip:
  assumes "t \<le> sweep_t" and "sweep_t \<le> now" and "key' \<noteq> key"
  shows "cache_Get m u (cache_cleanup (cache_SetTTL (cache_SetTTL c t key v ttl) t' key' v' ttl') sweep_t) now key =
     (if now > t + ttl then Inl (if sweep_t > t + ttl then ErrNotFound else ErrExpired)
      else case m v of None \<Rightarrow> Inl ErrMarshal
           | Some b \<Rightarrow> (case u b of None \<Rightarrow> Inl ErrUnmarshal | Some d \<Rightarrow> Inr d))"
  using assms by (auto simp: cache_Get_def cache_cleanup_def cache_SetTTL_def map_sweep_def item_dead_def)

theorem cache_roundtrip_witness:
  "cache_Get Some Some (cache_cleanup (cache_SetTTL (cache_SetTTL (cache_New 0) 0 ''k'' ''v'' 10) 1 ''l'' ''w'' 3) 5) 7 ''k''
     = Inr ''v''"
  using cache_roundtrip [of 0 5 7 "''l''" "''k''" Some Some "cache_New 0" "''v''" 10 1 "''w''" 3] by simp

end
