(* ===== verification/Token.thy ===== *)
theory Token
  imports Gin_Context Encoding Cache_Store
begin

text \<open>
  The signed access tokens of \<open>backend/auth/tokens.go\<close>.

  The cryptographic and serialisation functions of the Go library are the fields of
  \<open>crypto_lib\<close>: SHA-256, RSA signing and verification, the PEM and x509 parsers, and
  \<open>json.Marshal\<close> and \<open>json.Unmarshal\<close> at type \<open>Claims\<close>. What a theorem relies on of them is a
  hypothesis of the theorem: a signature made with a key verifies under it
  (\<open>sign_verifies\<close>), claims survive the trip through JSON (\<open>claims_json\<close>), nobody else can sign
  (\<open>unforgeable\<close>). The last one is the usual idealisation of a secure signature scheme: of RSA it holds
  only for the messages and signatures that can be found with feasible effort, and so does what
  rests on it. The base64 coding and the splitting of tokens are modelled.
\<close>

section \<open>Keys and claims\<close>

record claims =
  cl_Sub :: string
  cl_Name :: string
  cl_Role :: string
  cl_JTI :: string
  cl_TokenType :: string
  cl_IAT :: int
  cl_Exp :: int
  cl_MustChangePassword :: bool

abbreviation AccessToken :: string where "AccessToken \<equiv> ''access''"

definition AccessTokenTTL :: duration where "AccessTokenTTL = 15 * minute"
definition RefreshTokenTTL :: duration where "RefreshTokenTTL = 7 * 24 * hour"

text \<open>What \<open>x509.ParsePKCS8PrivateKey\<close> returns: an RSA key, or a key of another Go type.\<close>

datatype 'sk pkcs8_key = RSAKey 'sk | OtherKey string

record ('sk, 'pk) crypto_lib =
  sha256 :: "string \<Rightarrow> string"
  rsa_sign :: "'sk \<Rightarrow> string \<Rightarrow> string option"
  rsa_verify :: "'pk \<Rightarrow> string \<Rightarrow> string \<Rightarrow> bool"
  publicOf :: "'sk \<Rightarrow> 'pk"
  json_marshal :: "claims \<Rightarrow> string option"
  json_unmarshal :: "string \<Rightarrow> claims option"
  pem_decode :: "string \<Rightarrow> (string \<times> string) option"
  parsePKCS1 :: "string \<Rightarrow> string + 'sk"
  parsePKCS8 :: "string \<Rightarrow> string + 'sk pkcs8_key"
  marshalPKIX :: "'pk \<Rightarrow> string option"
  pem_encode :: "string \<Rightarrow> string \<Rightarrow> string"

record ('sk, 'pk) key_pair =
  kp_PrivateKey :: "'sk option"
  kp_PublicKey :: "'pk option"

record ('sk, 'pk) key_state =
  ks_globalKeyPair :: "('sk, 'pk) key_pair option"
  ks_keyIsEphemeral :: bool

datatype token_error =
  NoPEMBlock | PKCS1Failed string | PKCS8Failed string | PKCS8NotRSA string | PEMNotRSA string
| KeyEncrypted | PEMUnsupported string | KeyGenFailed | PKIXFailed
| NotInitialized | NilKeyPair | MarshalFailed | SignFailed
| InvalidFormat | BadSignatureEncoding | BadSignature | BadPayloadEncoding | BadClaims
| MissingSubject | MissingJTI | MissingTokenType | TokenExpired | NotAccessToken | TokenRevoked

definition parseRSAPrivateKeyPEM :: "('sk, 'pk) crypto_lib \<Rightarrow> string \<Rightarrow> token_error + 'sk" where
  "parseRSAPrivateKeyPEM L pem =
     (case pem_decode L pem of
        None \<Rightarrow> Inl NoPEMBlock
      | Some (ty, bytes) \<Rightarrow>
          if ty = ''RSA PRIVATE KEY'' then
            (case parsePKCS1 L bytes of Inl e \<Rightarrow> Inl (PKCS1Failed e) | Inr priv \<Rightarrow> Inr priv)
          else if ty = ''PRIVATE KEY'' then
            (case parsePKCS8 L bytes of
               Inl e \<Rightarrow> Inl (PKCS8Failed e)
             | Inr (OtherKey goType) \<Rightarrow> Inl (PKCS8NotRSA goType)
             | Inr (RSAKey priv) \<Rightarrow> Inr priv)
          else if ty = ''EC PRIVATE KEY'' \<or> ty = ''DSA PRIVATE KEY'' then Inl (PEMNotRSA ty)
          else if ty = ''ENCRYPTED PRIVATE KEY'' then Inl KeyEncrypted
          else Inl (PEMUnsupported ty))"

definition UsingEphemeralKey :: "('sk, 'pk) key_state \<Rightarrow> bool" where
  "UsingEphemeralKey ks = ks_keyIsEphemeral ks"

text \<open>\<open>gen\<close> is what \<open>rsa.GenerateKey\<close> gives, when it is called.\<close>

definition LoadOrGenerateKeys ::
  "('sk, 'pk) crypto_lib \<Rightarrow> 'sk option \<Rightarrow> string \<Rightarrow> ('sk, 'pk) key_state \<Rightarrow> token_error option \<times> ('sk, 'pk) key_state" where
  "LoadOrGenerateKeys L gen pem ks =
     (let pair = (\<lambda>priv. \<lparr>kp_PrivateKey = Some priv, kp_PublicKey = Some (publicOf L priv)\<rparr>) in
      if pem \<noteq> [] then
        (case parseRSAPrivateKeyPEM L pem of
           Inl e \<Rightarrow> (Some e, ks)
         | Inr priv \<Rightarrow> (None, \<lparr>ks_globalKeyPair = Some (pair priv), ks_keyIsEphemeral = False\<rparr>))
      else
        (case gen of
           None \<Rightarrow> (Some KeyGenFailed, ks)
         | Some priv \<Rightarrow> (None, \<lparr>ks_globalKeyPair = Some (pair priv), ks_keyIsEphemeral = True\<rparr>)))"

text \<open>\<open>marshalPKIX\<close> is called on the stored pointer, which is nil in no state the code builds.\<close>

definition GetPublicKeyPEM :: "('sk, 'pk) crypto_lib \<Rightarrow> ('sk, 'pk) key_state \<Rightarrow> token_error + string" where
  "GetPublicKeyPEM L ks =
     (case ks_globalKeyPair ks of
        None \<Rightarrow> Inl NotInitialized
      | Some kp \<Rightarrow>
          (case Option.bind (kp_PublicKey kp) (marshalPKIX L) of
             None \<Rightarrow> Inl PKIXFailed
           | Some bytes \<Rightarrow> Inr (pem_encode L ''PUBLIC KEY'' bytes)))"

section \<open>Signing and verifying\<close>

definition jwt_header :: string where
  "jwt_header = ''{\"alg\":\"RS256\",\"typ\":\"JWT\",\"kid\":\"seagles-v1\"}''"

definition signing_input :: "string \<Rightarrow> string" where
  "signing_input payload = b64_encode jwt_header @ ''.'' @ b64_encode payload"

definition signRS256 :: "('sk, 'pk) crypto_lib \<Rightarrow> ('sk, 'pk) key_state \<Rightarrow> claims \<Rightarrow> token_error + string" where
  "signRS256 L ks cl =
     (case ks_globalKeyPair ks of
        None \<Rightarrow> Inl NilKeyPair
      | Some kp \<Rightarrow>
          (case kp_PrivateKey kp of
             None \<Rightarrow> Inl NotInitialized
           | Some priv \<Rightarrow>
               (case json_marshal L cl of
                  None \<Rightarrow> Inl MarshalFailed
                | Some payload \<Rightarrow>
                    (let hashed = sha256 L (signing_input payload) in
                     case rsa_sign L priv hashed of
                       None \<Rightarrow> Inl SignFailed
                     | Some sig \<Rightarrow> Inr (signing_input payload @ ''.'' @ b64_encode sig)))))"

definition check_claims :: "time \<Rightarrow> claims \<Rightarrow> token_error + claims" where
  "check_claims now cl =
     (if cl_Sub cl = [] then Inl MissingSubject
      else if cl_JTI cl = [] then Inl MissingJTI
      else if cl_TokenType cl = [] then Inl MissingTokenType
      else if now > unix_time (cl_Exp cl) then Inl TokenExpired
      else Inr cl)"

definition verifyRS256 ::
  "('sk, 'pk) crypto_lib \<Rightarrow> ('sk, 'pk) key_state \<Rightarrow> time \<Rightarrow> string \<Rightarrow> token_error + claims" where
  "verifyRS256 L ks now tokenStr =
     (case ks_globalKeyPair ks of
        None \<Rightarrow> Inl NilKeyPair
      | Some kp \<Rightarrow>
          (case kp_PublicKey kp of
             None \<Rightarrow> Inl NotInitialized
           | Some pub \<Rightarrow>
               (case splitN 3 CHR ''.'' tokenStr of
                  [h, p, s] \<Rightarrow>
                    (let hashed = sha256 L (h @ ''.'' @ p) in
                     case b64_decode s of
                       None \<Rightarrow> Inl BadSignatureEncoding
                     | Some sig \<Rightarrow>
                         if \<not> rsa_verify L pub hashed sig then Inl BadSignature
                         else case b64_decode p of
                                None \<Rightarrow> Inl BadPayloadEncoding
                              | Some payload \<Rightarrow>
                                  (case json_unmarshal L payload of
                                     None \<Rightarrow> Inl BadClaims
                                   | Some cl \<Rightarrow> check_claims now cl))
                | _ \<Rightarrow> Inl InvalidFormat)))"

text \<open>16 random bytes in hexadecimal.\<close>

definition generateTokenID :: "string \<Rightarrow> string" where
  "generateTokenID rnd = hex_encode rnd"

definition access_claims :: "user \<Rightarrow> string \<Rightarrow> time \<Rightarrow> claims" where
  "access_claims u rnd now =
     \<lparr>cl_Sub = u_ID u, cl_Name = u_Username u, cl_Role = u_Role u, cl_JTI = generateTokenID rnd,
      cl_TokenType = AccessToken, cl_IAT = to_unix now, cl_Exp = to_unix (now + AccessTokenTTL),
      cl_MustChangePassword = u_MustChangePassword u\<rparr>"

definition GenerateAccessToken ::
  "('sk, 'pk) crypto_lib \<Rightarrow> ('sk, 'pk) key_state \<Rightarrow> string \<Rightarrow> time \<Rightarrow> user \<Rightarrow> token_error + (string \<times> claims)" where
  "GenerateAccessToken L ks rnd now u =
     (let cl = access_claims u rnd now in
      case signRS256 L ks cl of Inl e \<Rightarrow> Inl e | Inr token \<Rightarrow> Inr (token, cl))"

definition claims_user :: "claims \<Rightarrow> user" where
  "claims_user cl = \<lparr>u_ID = cl_Sub cl, u_Username = cl_Name cl, u_Email = [], u_Role = cl_Role cl,
     u_TokenID = cl_JTI cl, u_MustChangePassword = cl_MustChangePassword cl\<rparr>"

definition ValidateAccessToken ::
  "('sk, 'pk) crypto_lib \<Rightarrow> ('sk, 'pk) key_state \<Rightarrow> blacklist \<Rightarrow> time \<Rightarrow> string \<Rightarrow> token_error + user" where
  "ValidateAccessToken L ks bl now tokenStr =
     (case verifyRS256 L ks now tokenStr of
        Inl e \<Rightarrow> Inl e
      | Inr cl \<Rightarrow>
          if cl_TokenType cl \<noteq> AccessToken then Inl NotAccessToken
          else if IsBlacklisted bl (cl_JTI cl) then Inl TokenRevoked
          else Inr (claims_user cl))"

section \<open>Lemmas\<close>

text \<open>The key pair is in place, and its two halves belong together.\<close>

definition keys_ready :: "('sk, 'pk) crypto_lib \<Rightarrow> ('sk, 'pk) key_state \<Rightarrow> 'sk \<Rightarrow> bool" where
  "keys_ready L ks sk \<longleftrightarrow>
     ks_globalKeyPair ks = Some \<lparr>kp_PrivateKey = Some sk, kp_PublicKey = Some (publicOf L sk)\<rparr>"

definition sign_verifies :: "('sk, 'pk) crypto_lib \<Rightarrow> 'sk \<Rightarrow> bool" where
  "sign_verifies L sk \<longleftrightarrow> (\<forall>h s. rsa_sign L sk h = Some s \<longrightarrow> rsa_verify L (publicOf L sk) h s)"

definition claims_json :: "('sk, 'pk) crypto_lib \<Rightarrow> claims \<Rightarrow> bool" where
  "claims_json L cl \<longleftrightarrow> (\<forall>p. json_marshal L cl = Some p \<longrightarrow> json_unmarshal L p = Some cl)"

text \<open>Every message a signature verifies for is the signing input of one of the issued claims.\<close>

definition unforgeable :: "('sk, 'pk) crypto_lib \<Rightarrow> 'sk \<Rightarrow> claims set \<Rightarrow> bool" where
  "unforgeable L sk issued \<longleftrightarrow>
     (\<forall>m s. rsa_verify L (publicOf L sk) (sha256 L m) s \<longrightarrow>
        (\<exists>cl \<in> issued. \<exists>p. json_marshal L cl = Some p \<and> m = signing_input p))"

lemma LoadOrGenerateKeys_ready:
  "LoadOrGenerateKeys L gen pem ks = (None, ks') \<Longrightarrow> \<exists>sk. keys_ready L ks' sk"
  by (auto simp: LoadOrGenerateKeys_def keys_ready_def Let_def split: if_splits sum.splits option.splits)

lemma split_token: "splitN 3 CHR ''.'' (signing_input p @ ''.'' @ b64_encode s) =
    [b64_encode jwt_header, b64_encode p, b64_encode s]"
  by (simp add: splitN_3_eq signing_input_def)

lemma signRS256_Inr:
  assumes "keys_ready L ks sk"
  shows "signRS256 L ks cl = Inr tok \<longleftrightarrow>
    (\<exists>p s. json_marshal L cl = Some p \<and> rsa_sign L sk (sha256 L (signing_input p)) = Some s \<and>
           tok = signing_input p @ ''.'' @ b64_encode s)"
  using assms by (auto simp: signRS256_def keys_ready_def Let_def split: option.splits)

lemma verify_signed:
  assumes "keys_ready L ks sk" "sign_verifies L sk" "claims_json L cl" "signRS256 L ks cl = Inr tok"
  shows "verifyRS256 L ks now tok = check_claims now cl"
proof -
  obtain p s where ps: "json_marshal L cl = Some p" "rsa_sign L sk (sha256 L (signing_input p)) = Some s"
    "tok = signing_input p @ ''.'' @ b64_encode s"
    using assms(4) signRS256_Inr [OF assms(1)] by blast
  have "rsa_verify L (publicOf L sk) (sha256 L (b64_encode jwt_header @ ''.'' @ b64_encode p)) s"
    using ps(2) assms(2) by (simp add: sign_verifies_def signing_input_def)
  moreover have "json_unmarshal L p = Some cl" using assms(3) ps(1) by (simp add: claims_json_def)
  ultimately show ?thesis
    using assms(1) by (simp add: verifyRS256_def keys_ready_def ps(3) split_token del: append_Cons)
qed

lemma verifyRS256_Inr:
  assumes "verifyRS256 L ks now tok = Inr cl"
  obtains pub h p s sig payload where "tok = h @ ''.'' @ p @ ''.'' @ s" "CHR ''.'' \<notin> set h" "CHR ''.'' \<notin> set p"
    "b64_decode s = Some sig" "rsa_verify L pub (sha256 L (h @ ''.'' @ p)) sig"
    "b64_decode p = Some payload" "json_unmarshal L payload = Some cl" "check_claims now cl = Inr cl"
    "Option.bind (ks_globalKeyPair ks) kp_PublicKey = Some pub"
proof -
  obtain kp pub where kp: "ks_globalKeyPair ks = Some kp" "kp_PublicKey kp = Some pub"
    using assms by (auto simp: verifyRS256_def split: option.splits)
  obtain h p s where sp: "splitN 3 CHR ''.'' tok = [h, p, s]"
    using assms kp by (auto simp: verifyRS256_def split: list.splits)
  then have t: "tok = h @ ''.'' @ p @ ''.'' @ s" "CHR ''.'' \<notin> set h" "CHR ''.'' \<notin> set p"
    by (auto simp: splitN_3_eq)
  obtain sig payload where "b64_decode s = Some sig" "rsa_verify L pub (sha256 L (h @ ''.'' @ p)) sig"
    "b64_decode p = Some payload" "json_unmarshal L payload = Some cl" "check_claims now cl = Inr cl"
    using assms kp sp
    by (auto simp: verifyRS256_def Let_def check_claims_def split: option.splits if_splits)
  with that t kp show ?thesis by auto
qed

lemma verify_issued:
  assumes "keys_ready L ks sk" "unforgeable L sk issued" "\<forall>cl \<in> issued. claims_json L cl"
    and "verifyRS256 L ks now tok = Inr cl"
  shows "cl \<in> issued \<and> check_claims now cl = Inr cl"
proof -
  obtain pub h p s sig payload where v: "CHR ''.'' \<notin> set h" "CHR ''.'' \<notin> set p"
    "rsa_verify L pub (sha256 L (h @ ''.'' @ p)) sig"
    "b64_decode p = Some payload" "json_unmarshal L payload = Some cl" "check_claims now cl = Inr cl"
    "Option.bind (ks_globalKeyPair ks) kp_PublicKey = Some pub"
    using verifyRS256_Inr [OF assms(4)] by metis
  have "pub = publicOf L sk" using v(7) assms(1) by (simp add: keys_ready_def)
  then obtain cl' q where iss: "cl' \<in> issued" "json_marshal L cl' = Some q" "h @ ''.'' @ p = signing_input q"
    using assms(2) v(3) unfolding unforgeable_def by blast
  then have "p = b64_encode q"
    using sep_unique [OF v(1) b64_encode_no_dot] by (simp add: signing_input_def)
  then have "payload = q" using v(4) by simp
  with iss assms(3) v(5,6) show ?thesis by (auto simp: claims_json_def)
qed

lemma access_claims_sel [simp]:
  "cl_Sub (access_claims u r t) = u_ID u" "cl_JTI (access_claims u r t) = hex_encode r"
  "cl_TokenType (access_claims u r t) = AccessToken" "cl_Exp (access_claims u r t) = to_unix (t + AccessTokenTTL)"
  by (simp_all add: access_claims_def generateTokenID_def)

lemma claims_user_access [simp]:
  "claims_user (access_claims u r t) = u\<lparr>u_Email := [], u_TokenID := hex_encode r\<rparr>"
  by (simp add: claims_user_def access_claims_def generateTokenID_def)

subsection \<open>A concrete library\<close>

text \<open>A library whose key signs by identity and whose JSON knows one set of claims.\<close>

definition toy_user :: user where
  "toy_user = \<lparr>u_ID = ''7'', u_Username = ''ada'', u_Email = ''ada@x'', u_Role = ''operator'',
               u_TokenID = [], u_MustChangePassword = False\<rparr>"

definition toy_claims :: claims where
  "toy_claims = access_claims toy_user ''r'' 0"

definition toy_lib :: "(unit, unit) crypto_lib" where
  "toy_lib = \<lparr>sha256 = id, rsa_sign = (\<lambda>_ h. if h = signing_input ''c'' then Some h else None), rsa_verify = (\<lambda>_ h s. h = signing_input ''c'' \<and> s = h),
     publicOf = id, json_marshal = (\<lambda>c. if c = toy_claims then Some ''c'' else None),
     json_unmarshal = (\<lambda>s. if s = ''c'' then Some toy_claims else None), pem_decode = (\<lambda>_. None),
     parsePKCS1 = (\<lambda>_. Inl []), parsePKCS8 = (\<lambda>_. Inl []), marshalPKIX = (\<lambda>_. None), pem_encode = (\<lambda>_ _. [])\<rparr>"

definition toy_keys :: "(unit, unit) key_state" where
  "toy_keys = \<lparr>ks_globalKeyPair = Some \<lparr>kp_PrivateKey = Some (), kp_PublicKey = Some ()\<rparr>, ks_keyIsEphemeral = True\<rparr>"

definition toy_token :: string where
  "toy_token = signing_input ''c'' @ ''.'' @ b64_encode (signing_input ''c'')"

lemma toy_ok:
  "keys_ready toy_lib toy_keys ()" "sign_verifies toy_lib ()" "claims_json toy_lib (access_claims toy_user ''r'' 0)"
  "unforgeable toy_lib () {access_claims toy_user ''r'' 0}"
  "GenerateAccessToken toy_lib toy_keys ''r'' 0 toy_user = Inr (toy_token, toy_claims)"
  by (auto simp: keys_ready_def sign_verifies_def claims_json_def unforgeable_def toy_lib_def toy_keys_def
      toy_claims_def GenerateAccessToken_def signRS256_def toy_token_def Let_def)

lemma toy_verify: "verifyRS256 toy_lib toy_keys (10 * minute) toy_token = Inr (access_claims toy_user ''r'' 0)"
proof -
  have "signRS256 toy_lib toy_keys (access_claims toy_user ''r'' 0) = Inr toy_token"
    using toy_ok(5) by (simp add: GenerateAccessToken_def Let_def split: sum.splits)
  from verify_signed [OF toy_ok(1-3) this] show ?thesis
    by (simp add: check_claims_def toy_user_def unix_time_def to_unix_def AccessTokenTTL_def)
qed

section \<open>Properties\<close>

text \<open>C23: A token issued to a user at time \<open>t\<close> is accepted until the second in which its 15 minutes
  end, unless its identifier was revoked, and then stands for that user with the same name, role
  and password flag; afterwards it is refused as expired.\<close>

theorem access_token_roundtrip:
  assumes "keys_ready L ks sk" "sign_verifies L sk" "claims_json L (access_claims u rnd t)"
    and "GenerateAccessToken L ks rnd t u = Inr (tok, cl)" and "u_ID u \<noteq> []" and "rnd \<noteq> []"
  shows "ValidateAccessToken L ks bl now tok =
    (if now > unix_time (to_unix (t + AccessTokenTTL)) then Inl TokenExpired
     else if IsBlacklisted bl (generateTokenID rnd) then Inl TokenRevoked
     else Inr (u\<lparr>u_Email := [], u_TokenID := generateTokenID rnd\<rparr>))"
proof -
  have "signRS256 L ks (access_claims u rnd t) = Inr tok"
    using assms(4) by (simp add: GenerateAccessToken_def Let_def split: sum.splits)
  from verify_signed [OF assms(1-3) this, of now] show ?thesis
    using assms(5,6) by (simp add: ValidateAccessToken_def check_claims_def generateTokenID_def)
qed

theorem access_token_roundtrip_witness:
  "ValidateAccessToken toy_lib toy_keys NewTokenBlacklist (10 * minute) toy_token =
     Inr (toy_user\<lparr>u_Email := [], u_TokenID := generateTokenID ''r''\<rparr>)"
  by (subst access_token_roundtrip [OF toy_ok(1-3,5)])
     (simp_all add: toy_user_def unix_time_def to_unix_def AccessTokenTTL_def IsBlacklisted_def NewTokenBlacklist_def)

text \<open>C3: No token can be made up or altered: whatever string is presented, if it is accepted then
  the user it stands for, role and flags included, is one the server issued a token for at
  most 15 minutes before, and that token's identifier is not revoked.\<close>

theorem accepted_token_was_issued:
  assumes "keys_ready L ks sk" "unforgeable L sk ((\<lambda>(u, rnd, t). access_claims u rnd t) ` issued)"
    and "\<forall>(u, rnd, t) \<in> issued. claims_json L (access_claims u rnd t)"
    and "ValidateAccessToken L ks bl now tok = Inr v"
  shows "\<exists>(u, rnd, t) \<in> issued. v = u\<lparr>u_Email := [], u_TokenID := generateTokenID rnd\<rparr> \<and>
           now \<le> t + AccessTokenTTL \<and> \<not> IsBlacklisted bl (generateTokenID rnd)"
proof -
  obtain cl where ver: "verifyRS256 L ks now tok = Inr cl" and v: "v = claims_user cl"
    "\<not> IsBlacklisted bl (cl_JTI cl)"
    using assms(4) by (auto simp: ValidateAccessToken_def split: sum.splits if_splits)
  have "\<forall>cl \<in> (\<lambda>(u, rnd, t). access_claims u rnd t) ` issued. claims_json L cl"
    using assms(3) by auto
  from verify_issued [OF assms(1,2) this ver] obtain u rnd t where
    i: "(u, rnd, t) \<in> issued" "cl = access_claims u rnd t" "check_claims now cl = Inr cl" by auto
  have "now \<le> unix_time (to_unix (t + AccessTokenTTL))"
    using i(2,3) by (auto simp: check_claims_def split: if_splits)
  then have "now \<le> t + AccessTokenTTL" using unix_time_le [of "t + AccessTokenTTL"] by simp
  with i v show ?thesis by (intro bexI [of _ "(u, rnd, t)"]) (auto simp: generateTokenID_def)
qed

theorem accepted_token_was_issued_witness:
  "\<exists>(u, rnd, t) \<in> {(toy_user, ''r'', 0)}.
     toy_user\<lparr>u_Email := [], u_TokenID := generateTokenID ''r''\<rparr> = u\<lparr>u_Email := [], u_TokenID := generateTokenID rnd\<rparr> \<and>
     10 * minute \<le> t + AccessTokenTTL \<and> \<not> IsBlacklisted NewTokenBlacklist (generateTokenID rnd)"
proof (rule accepted_token_was_issued [OF toy_ok(1)])
  show "unforgeable toy_lib () ((\<lambda>(u, rnd, t). access_claims u rnd t) ` {(toy_user, ''r'', 0)})"
    using toy_ok(4) by simp
  show "\<forall>(u, rnd, t) \<in> {(toy_user, ''r'', 0)}. claims_json toy_lib (access_claims u rnd t)"
    using toy_ok(3) by simp
  show "ValidateAccessToken toy_lib toy_keys NewTokenBlacklist (10 * minute) toy_token =
     Inr (toy_user\<lparr>u_Email := [], u_TokenID := generateTokenID ''r''\<rparr>)"
    using toy_verify
    by (simp add: ValidateAccessToken_def IsBlacklisted_def NewTokenBlacklist_def generateTokenID_def)
qed

text \<open>C22: Once an access token is put on the blacklist, as logging out does, it is never accepted
  again: the entry outlives the token, whatever other tokens are revoked and however often the
  blacklist is swept.\<close>

theorem revoked_token_stays_revoked:
  assumes "keys_ready L ks sk" "sign_verifies L sk" "claims_json L (access_claims u rnd t)"
    and "GenerateAccessToken L ks rnd t u = Inr (tok, cl)"
    and "blacklist_ok bl" "t \<le> t1" "\<forall>opn \<in> set ops. t1 \<le> op_time opn \<and> op_time opn \<le> t2"
  shows "\<not> is_ok (ValidateAccessToken L ks (foldl blacklist_perform (blacklist_Add bl t1 (cl_JTI cl)) ops) t2 tok)"
proof -
  have cl: "cl = access_claims u rnd t" and "signRS256 L ks (access_claims u rnd t) = Inr tok"
    using assms(4) by (auto simp: GenerateAccessToken_def Let_def split: sum.splits)
  note ver = verify_signed [OF assms(1-3) this(2), of t2]
  let ?b = "foldl blacklist_perform (blacklist_Add bl t1 (cl_JTI cl)) ops"
  show ?thesis
  proof (cases "t2 \<le> t1 + 24 * hour")
    case True
    then have "\<forall>opn \<in> set ops. t1 \<le> op_time opn \<and> op_time opn \<le> t1 + 24 * hour"
      using assms(7) by auto
    then have "IsBlacklisted ?b (cl_JTI cl)"
      using bl.revoked_within_ttl [OF assms(5)] by (simp add: bl_perform_eq)
    then show ?thesis
      using ver cl by (auto simp: ValidateAccessToken_def check_claims_def split: sum.splits)
  next
    case False
    then have "t2 > unix_time (to_unix (t + AccessTokenTTL))"
      using unix_time_le [of "t + AccessTokenTTL"] assms(6) by (simp add: AccessTokenTTL_def)
    then show ?thesis using ver by (auto simp: ValidateAccessToken_def check_claims_def)
  qed
qed

theorem revoked_token_stays_revoked_witness:
  "\<not> is_ok (ValidateAccessToken toy_lib toy_keys
     (foldl blacklist_perform (blacklist_Add NewTokenBlacklist minute (cl_JTI toy_claims))
        [Revoke (2 * minute) ''x'', Sweep (3 * minute)]) (4 * minute) toy_token)"
  by (rule revoked_token_stays_revoked [OF toy_ok(1-3,5) blacklist_ok_New]) simp_all

end
