(* ===== verification/Rbac.thy ===== *)
theory Rbac
  imports Token
begin

text \<open>
  Authentication and authorisation of requests, from \<open>backend/auth/auth.go\<close>: the middleware that
  turns a bearer token into a user, the role hierarchy and its guards, the permission table, the
  guard that is meant to force a password change, and the two handlers that report on the caller.

  \<open>server\<close> is the part of the process's state that package \<open>auth\<close> uses: the key pair, the
  blacklist, and the tables \<open>users\<close> and \<open>refresh_tokens\<close>.
\<close>

section \<open>State\<close>

record user_row =
  ur_id :: string
  ur_username :: string
  ur_email :: string
  ur_password_hash :: string
  ur_role :: string
  ur_is_active :: bool
  ur_must_change_password :: bool
  ur_last_login :: "time option"
  ur_created_at :: time
  ur_updated_at :: time

record refresh_row =
  rt_id :: string
  rt_user_id :: string
  rt_token_hash :: string
  rt_expires_at :: time
  rt_revoked :: bool
  rt_created_at :: time

record ('sk, 'pk) server =
  sv_keys :: "('sk, 'pk) key_state"
  sv_blacklist :: blacklist
  sv_users :: "user_row list"
  sv_refresh :: "refresh_row list"

section \<open>The bearer token of a request\<close>

definition AuthMiddleware ::
  "('sk, 'pk) crypto_lib \<Rightarrow> time \<Rightarrow> (('sk, 'pk) server) middleware" where
  "AuthMiddleware L now next c w =
     (let authHeader = getHeader c ''Authorization'' in
      if authHeader = [] then (abort (fail 401 ''Authorization header required'' c), w)
      else case splitN 2 CHR '' '' authHeader of
             [scheme, token] \<Rightarrow>
               if toLower scheme \<noteq> ''bearer'' then (abort (fail 401 ''Invalid authorization format'' c), w)
               else (case ValidateAccessToken L (sv_keys w) (sv_blacklist w) now token of
                       Inl NilKeyPair \<Rightarrow> (recovered c, w)
                     | Inl _ \<Rightarrow> (abort (fail 401 ''Invalid or expired token'' c), w)
                     | Inr u \<Rightarrow>
                         next (cset ''token_id'' (GString (u_TokenID u))
                                (cset ''user_role'' (GString (u_Role u))
                                  (cset ''username'' (GString (u_Username u))
                                    (cset ''user_id'' (GString (u_ID u))
                                      (cset ''user'' (GUserPtr u) c))))) w)
           | _ \<Rightarrow> (abort (fail 401 ''Invalid authorization format'' c), w))"

section \<open>Roles\<close>

definition RoleHierarchy :: "string \<rightharpoonup> nat" where
  "RoleHierarchy = [''viewer'' \<mapsto> 0, ''auditor'' \<mapsto> 1, ''operator'' \<mapsto> 2, ''admin'' \<mapsto> 3]"

definition min_level :: "string \<Rightarrow> nat" where
  "min_level minRole = (case RoleHierarchy minRole of Some l \<Rightarrow> l | None \<Rightarrow> the (RoleHierarchy ''viewer''))"

definition RequireRole :: "string \<Rightarrow> 'w middleware" where
  "RequireRole minRole next c w =
     (case cx_keys c ''user_role'' of
        None \<Rightarrow> (abort (fail 403 ''Access denied'' c), w)
      | Some v \<Rightarrow>
          (case as_string v of
             None \<Rightarrow> (recovered c, w)
           | Some role \<Rightarrow>
               (case RoleHierarchy role of
                  None \<Rightarrow> (abort (fail 403 ''Insufficient permissions'' c), w)
                | Some userLevel \<Rightarrow>
                    if userLevel < min_level minRole
                    then (abort (fail 403 ''Insufficient permissions'' c), w)
                    else next c w)))"

definition AdminOnly :: "'w middleware" where
  "AdminOnly = RequireRole ''admin''"

section \<open>Permissions\<close>

definition RolePermissions :: "string \<rightharpoonup> string list" where
  "RolePermissions =
    [''viewer'' \<mapsto>
       [''devices:list'', ''devices:view'', ''scans:list'', ''scans:view'',
        ''vulnerabilities:list'', ''vulnerabilities:view'', ''alerts:list'', ''alerts:view'',
        ''firmware:list'', ''firmware:view'', ''stats:view'', ''kev:view'',
        ''safelists:list'', ''safelists:view'', ''webhooks:list'', ''webhooks:view'',
        ''users:list'', ''users:view'', ''scan-profiles:list'', ''scan-scopes:list''],
     ''auditor'' \<mapsto>
       [''devices:list'', ''devices:view'', ''scans:list'', ''scans:view'',
        ''vulnerabilities:list'', ''vulnerabilities:view'', ''alerts:list'', ''alerts:list_all'',
        ''firmware:list'', ''firmware:view'', ''stats:view'', ''kev:view'',
        ''safelists:list'', ''webhooks:list'', ''users:list'',
        ''scan-profiles:list'', ''scan-scopes:list'', ''audit:view''],
     ''operator'' \<mapsto>
       [''devices:list'', ''devices:view'', ''devices:scan'', ''devices:delete'',
        ''scans:list'', ''scans:view'', ''scans:create'',
        ''vulnerabilities:list'', ''vulnerabilities:view'', ''vulnerabilities:resolve'',
        ''alerts:list'', ''alerts:ack'', ''alerts:dismiss'',
        ''firmware:list'', ''firmware:view'', ''firmware:upload'', ''firmware:analyze'',
        ''stats:view'', ''kev:view'',
        ''safelists:list'', ''safelists:view'', ''safelists:create'', ''safelists:delete'',
        ''webhooks:list'', ''webhooks:view'', ''webhooks:create'', ''webhooks:delete'', ''webhooks:test'',
        ''users:list'', ''users:view'',
        ''scan-profiles:list'', ''scan-scopes:list'', ''scan-scopes:create'', ''scan-scopes:delete'',
        ''audit:view''],
     ''admin'' \<mapsto>
       [''devices:*'', ''scans:*'', ''vulnerabilities:*'', ''alerts:*'', ''firmware:*'', ''stats:*'',
        ''kev:*'', ''safelists:*'', ''webhooks:*'', ''users:*'', ''scan-profiles:*'', ''scan-scopes:*'',
        ''audit:*'', ''admin:*'']]"

fun permits :: "string list \<Rightarrow> string \<Rightarrow> bool" where
  "permits [] permission = False"
| "permits (p # ps) permission =
     (if p = permission then True
      else if hasSuffix p '':*'' \<and> hasPrefix permission (trimSuffix p '':*'' @ '':'') then True
      else permits ps permission)"

definition HasPermission :: "string \<Rightarrow> string \<Rightarrow> bool" where
  "HasPermission role permission =
     (case RolePermissions role of None \<Rightarrow> False | Some perms \<Rightarrow> permits perms permission)"

definition RequirePermission :: "string \<Rightarrow> 'w middleware" where
  "RequirePermission permission next c w =
     (case cx_keys c ''user_role'' of
        None \<Rightarrow> (abort (fail 403 ''Access denied'' c), w)
      | Some v \<Rightarrow>
          (case as_string v of
             None \<Rightarrow> (recovered c, w)
           | Some role \<Rightarrow>
               if \<not> HasPermission role permission
               then (abort (fail 403 ''Insufficient permissions'' c), w)
               else next c w))"

section \<open>Password rotation and the caller's own data\<close>

definition rotation_allowed :: "string \<Rightarrow> bool" where
  "rotation_allowed path \<longleftrightarrow>
     path \<in> {''/api/v1/auth/change-password'', ''/api/v1/auth/me'', ''/api/v1/auth/logout'',
             ''/api/v1/auth/permissions''}"

definition RequirePasswordChange :: "'w middleware" where
  "RequirePasswordChange next c w =
     (case cx_keys c ''user'' of
        None \<Rightarrow> next c w
      | Some v \<Rightarrow>
          (case as_User v of
             None \<Rightarrow> next c w
           | Some u \<Rightarrow>
               if \<not> u_MustChangePassword u then next c w
               else if rotation_allowed (rq_path (cx_req c)) then next c w
               else (abort_fail 403 ''Password change required before using this endpoint'' c, w)))"

definition PermissionsHandler :: "'w handler" where
  "PermissionsHandler c w =
     (case cx_keys c ''user_role'' of
        None \<Rightarrow> (fail 403 ''No role assigned'' c, w)
      | Some v \<Rightarrow>
          (case as_string v of
             None \<Rightarrow> (fail 500 ''Invalid role type'' c, w)
           | Some roleStr \<Rightarrow>
               (let permissions = (case RolePermissions roleStr of None \<Rightarrow> [] | Some ps \<Rightarrow> ps);
                    level = (case RoleHierarchy roleStr of None \<Rightarrow> 0 | Some l \<Rightarrow> int l)
                in (success (JObj [(''role'', JStr roleStr), (''permissions'', JArr (map JStr permissions)),
                                   (''level'', JNum level)]) c, w))))"

definition user_json :: "user \<Rightarrow> json" where
  "user_json u = JObj [(''id'', JStr (u_ID u)), (''username'', JStr (u_Username u)), (''email'', JStr (u_Email u)),
     (''role'', JStr (u_Role u)), (''must_change_password'', JBool (u_MustChangePassword u))]"

definition gval_json :: "gval \<Rightarrow> json" where
  "gval_json v = (case v of GString s \<Rightarrow> JStr s | GUser u \<Rightarrow> user_json u | GUserPtr u \<Rightarrow> user_json u)"

definition MeHandler :: "'w handler" where
  "MeHandler c w =
     (case cx_keys c ''user'' of
        None \<Rightarrow> (fail 401 ''Not authenticated'' c, w)
      | Some v \<Rightarrow> (success (gval_json v) c, w))"

section \<open>Lemmas\<close>

text \<open>The context a request has once its token was accepted.\<close>

definition authenticated :: "user \<Rightarrow> ctx \<Rightarrow> ctx" where
  "authenticated u c = cset ''token_id'' (GString (u_TokenID u))
     (cset ''user_role'' (GString (u_Role u)) (cset ''username'' (GString (u_Username u))
       (cset ''user_id'' (GString (u_ID u)) (cset ''user'' (GUserPtr u) c))))"

lemma authenticated_simps [simp]:
  "cx_keys (authenticated u c) ''user_role'' = Some (GString (u_Role u))"
  "cx_keys (authenticated u c) ''user_id'' = Some (GString (u_ID u))"
  "cx_keys (authenticated u c) ''username'' = Some (GString (u_Username u))"
  "cx_keys (authenticated u c) ''user'' = Some (GUserPtr u)"
  "cx_req (authenticated u c) = cx_req c" "cx_status (authenticated u c) = cx_status c"
  by (simp_all add: authenticated_def)

text \<open>The bearer token in the header of a request, if it has the right form.\<close>

definition bearer :: "ctx \<Rightarrow> string option" where
  "bearer c = (case splitN 2 CHR '' '' (getHeader c ''Authorization'') of
     [scheme, token] \<Rightarrow> if toLower scheme = ''bearer'' then Some token else None | _ \<Rightarrow> None)"

lemma AuthMiddleware_cases:
  "AuthMiddleware L now next c w =
     (case bearer c of
        None \<Rightarrow> (abort (fail 401 (if getHeader c ''Authorization'' = [] then ''Authorization header required''
                                  else ''Invalid authorization format'') c), w)
      | Some token \<Rightarrow>
          (case ValidateAccessToken L (sv_keys w) (sv_blacklist w) now token of
             Inr u \<Rightarrow> next (authenticated u c) w
           | Inl e \<Rightarrow> (if e = NilKeyPair then recovered c else abort (fail 401 ''Invalid or expired token'' c), w)))"
proof (cases "getHeader c ''Authorization'' = []")
  case True
  have "splitN 2 CHR '' '' [] = [[]]" by (simp add: splitN_2)
  with True show ?thesis by (simp add: AuthMiddleware_def bearer_def Let_def)
next
  case False
  then show ?thesis
    by (simp add: AuthMiddleware_def bearer_def Let_def authenticated_def split: list.splits sum.splits token_error.splits)
qed

lemma RequireRole_string:
  assumes "cx_keys c ''user_role'' = Some (GString role)"
  shows "RequireRole minRole next c w =
    (if (\<exists>l. RoleHierarchy role = Some l \<and> min_level minRole \<le> l) then next c w
     else (abort (fail 403 ''Insufficient permissions'' c), w))"
  using assms by (auto simp: RequireRole_def split: option.splits)

lemma admin_level: "(\<exists>l. RoleHierarchy role = Some l \<and> min_level ''admin'' \<le> l) \<longleftrightarrow> role = ''admin''"
  by (auto simp: RoleHierarchy_def min_level_def)

lemma permits_iff:
  "permits ps q \<longleftrightarrow> q \<in> set ps \<or> (\<exists>r. r @ '':*'' \<in> set ps \<and> hasPrefix q (r @ '':''))"
proof (induction ps)
  case (Cons p ps)
  have "hasSuffix p '':*'' \<and> hasPrefix q (trimSuffix p '':*'' @ '':'') \<longleftrightarrow>
        (\<exists>r. r @ '':*'' = p \<and> hasPrefix q (r @ '':''))"
    by (auto simp: hasSuffix_iff trimSuffix_def)
  then show ?case using Cons by auto
qed simp

lemma RoleHierarchy_dom: "dom RoleHierarchy = {''viewer'', ''auditor'', ''operator'', ''admin''}"
  by (auto simp: RoleHierarchy_def)

lemma RolePermissions_dom: "dom RolePermissions = dom RoleHierarchy"
  by (auto simp: RoleHierarchy_def RolePermissions_def)

definition no_wildcard :: "string list \<Rightarrow> bool" where
  "no_wildcard ps \<longleftrightarrow> list_all (\<lambda>p. last p \<noteq> CHR ''*'') ps"

lemma permits_no_wildcard: "no_wildcard ps \<Longrightarrow> permits ps q \<longleftrightarrow> q \<in> set ps"
  unfolding permits_iff no_wildcard_def list_all_iff by fastforce

lemma lower_roles_no_wildcard:
  "role \<noteq> ''admin'' \<Longrightarrow> RolePermissions role = Some ps \<Longrightarrow> no_wildcard ps"
  by (auto simp: RolePermissions_def no_wildcard_def split: if_splits)

text \<open>The user a request acts for, when the user's role is at least \<open>minRole\<close>.\<close>

definition granted :: "('sk, 'pk) crypto_lib \<Rightarrow> time \<Rightarrow> string \<Rightarrow> ctx \<Rightarrow> ('sk, 'pk) server \<Rightarrow> user option" where
  "granted L now minRole c w =
     (case bearer c of None \<Rightarrow> None
      | Some token \<Rightarrow>
          (case ValidateAccessToken L (sv_keys w) (sv_blacklist w) now token of
             Inl _ \<Rightarrow> None
           | Inr u \<Rightarrow> (case RoleHierarchy (u_Role u) of None \<Rightarrow> None
                      | Some l \<Rightarrow> if min_level minRole \<le> l then Some u else None)))"

section \<open>Properties\<close>

text \<open>The administrator holds every permission that any role holds.\<close>

theorem admin_has_all_permissions:
  assumes "HasPermission role p"
  shows "HasPermission ''admin'' p"
proof (cases "role = ''admin''")
  case False
  obtain ps where ps: "RolePermissions role = Some ps" "p \<in> set ps"
    using assms permits_no_wildcard [OF lower_roles_no_wildcard [OF False]]
    by (auto simp: HasPermission_def split: option.splits)
  have "list_all (permits (the (RolePermissions ''admin''))) ps"
    using ps(1) False
    by (auto simp: RolePermissions_def hasSuffix_def trimSuffix_def hasPrefix_def split: if_splits)
  then have "permits (the (RolePermissions ''admin'')) p" using ps(2) by (simp only: list_all_iff)
  moreover obtain qs where "RolePermissions ''admin'' = Some qs" by (simp add: RolePermissions_def)
  ultimately show ?thesis by (simp only: HasPermission_def option.simps option.sel)
qed (use assms in simp)

theorem admin_has_all_permissions_witness: "HasPermission ''admin'' ''alerts:ack''"
  by (rule admin_has_all_permissions [of "''operator''"]) (simp add: HasPermission_def RolePermissions_def hasSuffix_def)

text \<open>The permission table does not follow the role hierarchy: a viewer, the lowest role, may
  view single alerts, and an operator, two levels above, may not.\<close>

theorem permissions_not_monotone:
  "HasPermission ''viewer'' ''alerts:view'' \<and> \<not> HasPermission ''operator'' ''alerts:view'' \<and>
   the (RoleHierarchy ''viewer'') < the (RoleHierarchy ''operator'')"
  by (simp add: HasPermission_def RolePermissions_def RoleHierarchy_def hasSuffix_def)

text \<open>The guard that should refuse an account with a pending password change never refuses
  anything when it runs behind the authentication middleware, as it does in the router: that
  middleware stores a pointer to the user, and the guard looks for a user value.\<close>

theorem password_change_never_enforced:
  "AuthMiddleware L now (RequirePasswordChange next) c w = AuthMiddleware L now next c w"
  by (simp add: AuthMiddleware_cases RequirePasswordChange_def split: option.split sum.split)

text \<open>Behind the authentication middleware, a handler guarded by a role runs exactly when the
  request carries an accepted bearer token whose role is at least the required one; any other
  request is answered with 401, 403 or 500, aborted, and changes nothing.\<close>

theorem role_guard:
  "case granted L now minRole c w of
     Some u \<Rightarrow> AuthMiddleware L now (RequireRole minRole next) c w = next (authenticated u c) w
   | None \<Rightarrow> (case AuthMiddleware L now (RequireRole minRole next) c w of
               (c', w') \<Rightarrow> w' = w \<and> cx_aborted c' \<and> cx_status c' \<in> {401, 403, 500})"
  by (auto simp: granted_def AuthMiddleware_cases RequireRole_string split: option.split sum.split)

end
