(* ===== verification/Session.thy ===== *)
theory Session
  imports Rbac
begin

text \<open>
  Accounts and sessions: the handlers of \<open>backend/auth/auth.go\<close> and
  \<open>backend/api/sessions.go\<close> over the tables \<open>users\<close> and \<open>refresh_tokens\<close>.

  Each SQL statement is a function on the tables, with the constraints of the schema
  (\<open>db/migrations\<close>): user names, e-mail addresses and token hashes are unique, and a refresh
  token belongs to an existing user. Every statement can also fail: \<open>ev_dberr n\<close> is the error
  of the \<open>n\<close>-th statement a handler runs, if it fails. The clock readings, random bytes,
  generated identifiers and salts a handler uses are fields of \<open>env\<close> too. The body of a request
  is given as decoded (\<open>None\<close> when it is not JSON of the right type); the \<open>binding\<close> tags of the
  request types are checked as the validator documents them, and bcrypt and the e-mail check
  are parameters.
\<close>

section \<open>Environment\<close>

record env =
  ev_clock :: "nat \<Rightarrow> time"
  ev_dbnow :: time
  ev_rnd :: "nat \<Rightarrow> string"
  ev_uuid :: string
  ev_salt :: string
  ev_dberr :: "nat \<Rightarrow> string option"

record bcrypt =
  bc_generate :: "string \<Rightarrow> string \<Rightarrow> string option"
  bc_compare :: "string \<Rightarrow> string \<Rightarrow> bool"

definition HashPassword :: "bcrypt \<Rightarrow> string \<Rightarrow> string \<Rightarrow> string option" where
  "HashPassword bc salt password = bc_generate bc salt password"

definition CheckPassword :: "bcrypt \<Rightarrow> string \<Rightarrow> string \<Rightarrow> bool" where
  "CheckPassword bc password hash = bc_compare bc hash password"

section \<open>Requests and their binding tags\<close>

record login_request =
  lr_Username :: string
  lr_Password :: string

record register_request =
  rr_Username :: string
  rr_Email :: string
  rr_Password :: string
  rr_Role :: string

record change_password_request =
  cp_CurrentPassword :: string
  cp_NewPassword :: string

definition alphanum :: "string \<Rightarrow> bool" where
  "alphanum s \<longleftrightarrow> s \<noteq> [] \<and> list_all (\<lambda>c. let n = (of_char c :: nat) in
     (48 \<le> n \<and> n \<le> 57) \<or> (65 \<le> n \<and> n \<le> 90) \<or> (97 \<le> n \<and> n \<le> 122)) s"

definition valid_login :: "login_request \<Rightarrow> bool" where
  "valid_login r \<longleftrightarrow> len_between 1 100 (lr_Username r) \<and> len_between 8 128 (lr_Password r)"

definition valid_register :: "(string \<Rightarrow> bool) \<Rightarrow> register_request \<Rightarrow> bool" where
  "valid_register email r \<longleftrightarrow>
     len_between 3 50 (rr_Username r) \<and> alphanum (rr_Username r) \<and>
     rr_Email r \<noteq> [] \<and> email (rr_Email r) \<and> runes (rr_Email r) \<le> 255 \<and>
     len_between 8 128 (rr_Password r) \<and>
     rr_Role r \<in> {[], ''admin'', ''viewer'', ''operator'', ''auditor''}"

definition valid_change :: "change_password_request \<Rightarrow> bool" where
  "valid_change r \<longleftrightarrow> len_between 8 128 (cp_CurrentPassword r) \<and> len_between 8 128 (cp_NewPassword r)"

section \<open>Statements\<close>

definition token_hash :: "('sk, 'pk) crypto_lib \<Rightarrow> string \<Rightarrow> string" where
  "token_hash L tokenID = hex_encode (sha256 L tokenID)"

definition unique_violation :: string where
  "unique_violation = ''pq: duplicate key value violates unique constraint''"

definition fk_violation :: string where
  "fk_violation = ''pq: insert or update on table violates foreign key constraint''"

text \<open>\<open>INSERT INTO refresh_tokens\<close>.\<close>

definition storeRefreshToken ::
  "('sk, 'pk) crypto_lib \<Rightarrow> string option \<Rightarrow> string \<Rightarrow> time \<Rightarrow> string \<Rightarrow> string \<Rightarrow> time \<Rightarrow>
   ('sk, 'pk) server \<Rightarrow> string option \<times> ('sk, 'pk) server" where
  "storeRefreshToken L err uuid dbnow userID tokenID expiresAt w =
     (let h = token_hash L tokenID in
      case err of
        Some e \<Rightarrow> (Some e, w)
      | None \<Rightarrow>
          if list_ex (\<lambda>r. rt_token_hash r = h) (sv_refresh w) then (Some unique_violation, w)
          else if \<not> list_ex (\<lambda>u. ur_id u = userID) (sv_users w) then (Some fk_violation, w)
          else (None, w\<lparr>sv_refresh := sv_refresh w @
                 [\<lparr>rt_id = uuid, rt_user_id = userID, rt_token_hash = h, rt_expires_at = expiresAt,
                   rt_revoked = False, rt_created_at = dbnow\<rparr>]\<rparr>))"

datatype refresh_error = BadRefreshFormat | InvalidRefresh | RefreshQueryFailed string

text \<open>The row of the join that the query of \<open>validateRefreshToken\<close> selects.\<close>

definition live_refresh :: "time \<Rightarrow> string \<Rightarrow> user_row list \<Rightarrow> refresh_row \<Rightarrow> user_row option" where
  "live_refresh dbnow h users r =
     (if rt_token_hash r = h \<and> \<not> rt_revoked r \<and> rt_expires_at r > dbnow
      then find (\<lambda>u. ur_id u = rt_user_id r \<and> ur_is_active u) users else None)"

definition validateRefreshToken ::
  "('sk, 'pk) crypto_lib \<Rightarrow> string option \<Rightarrow> time \<Rightarrow> string \<Rightarrow> ('sk, 'pk) server \<Rightarrow> refresh_error + user" where
  "validateRefreshToken L err dbnow refreshToken w =
     (case splitN 2 CHR ''.'' refreshToken of
        [tokenID, _] \<Rightarrow>
          (case err of
             Some e \<Rightarrow> Inl (RefreshQueryFailed e)
           | None \<Rightarrow>
               (case List.map_filter (live_refresh dbnow (token_hash L tokenID) (sv_users w)) (sv_refresh w) of
                  [] \<Rightarrow> Inl InvalidRefresh
                | u # _ \<Rightarrow> Inr \<lparr>u_ID = ur_id u, u_Username = ur_username u, u_Email = ur_email u,
                               u_Role = ur_role u, u_TokenID = [], u_MustChangePassword = False\<rparr>))
      | _ \<Rightarrow> Inl BadRefreshFormat)"

text \<open>\<open>UPDATE refresh_tokens SET revoked = TRUE WHERE ...\<close>.\<close>

definition revoke_row :: "(refresh_row \<Rightarrow> bool) \<Rightarrow> refresh_row \<Rightarrow> refresh_row" where
  "revoke_row P r = (if P r then r\<lparr>rt_revoked := True\<rparr> else r)"

definition revoke_where :: "(refresh_row \<Rightarrow> bool) \<Rightarrow> ('sk, 'pk) server \<Rightarrow> ('sk, 'pk) server" where
  "revoke_where P w = w\<lparr>sv_refresh := map (revoke_row P) (sv_refresh w)\<rparr>"

definition revokeAllRefreshTokens ::
  "string option \<Rightarrow> string \<Rightarrow> ('sk, 'pk) server \<Rightarrow> string option \<times> ('sk, 'pk) server" where
  "revokeAllRefreshTokens err userID w =
     (case err of Some e \<Rightarrow> (Some e, w)
      | None \<Rightarrow> (None, revoke_where (\<lambda>r. rt_user_id r = userID \<and> \<not> rt_revoked r) w))"

definition revokeRefreshTokenByValue ::
  "('sk, 'pk) crypto_lib \<Rightarrow> string option \<Rightarrow> string \<Rightarrow> ('sk, 'pk) server \<Rightarrow> string option \<times> ('sk, 'pk) server" where
  "revokeRefreshTokenByValue L err refreshToken w =
     (case splitN 2 CHR ''.'' refreshToken of
        [tokenID, _] \<Rightarrow>
          (case err of Some e \<Rightarrow> (Some e, w)
           | None \<Rightarrow> (None, revoke_where (\<lambda>r. rt_token_hash r = token_hash L tokenID \<and> \<not> rt_revoked r) w))
      | _ \<Rightarrow> (Some ''invalid refresh token format'', w))"

section \<open>Handlers\<close>

text \<open>\<open>int64(d.Seconds())\<close>: whole seconds, towards zero.\<close>

definition whole_seconds :: "duration \<Rightarrow> int" where
  "whole_seconds d = (if d < 0 then - ((- d) div second) else d div second)"

definition row_user :: "user_row \<Rightarrow> user" where
  "row_user r = \<lparr>u_ID = ur_id r, u_Username = ur_username r, u_Email = ur_email r, u_Role = ur_role r,
                u_TokenID = [], u_MustChangePassword = ur_must_change_password r\<rparr>"

definition set_last_login :: "time \<Rightarrow> string \<Rightarrow> ('sk, 'pk) server \<Rightarrow> ('sk, 'pk) server" where
  "set_last_login t uid w =
     w\<lparr>sv_users := map (\<lambda>r. if ur_id r = uid then r\<lparr>ur_last_login := Some t\<rparr> else r) (sv_users w)\<rparr>"

text \<open>Signing panics when no key pair is loaded, and the recovery middleware answers 500.\<close>

definition token_failure :: "token_error \<Rightarrow> ctx \<Rightarrow> ctx" where
  "token_failure e c = (if e = NilKeyPair then recovered c else fail 500 ''Failed to generate token'' c)"

definition LoginHandler ::
  "('sk, 'pk) crypto_lib \<Rightarrow> bcrypt \<Rightarrow> env \<Rightarrow> login_request option \<Rightarrow> (('sk, 'pk) server) handler" where
  "LoginHandler L bc ev body c w =
     (case body of None \<Rightarrow> (fail 400 ''Invalid request format'' c, w)
      | Some req \<Rightarrow>
        if \<not> valid_login req then (fail 400 ''Invalid request format'' c, w)
        else if ev_dberr ev 0 \<noteq> None then (fail 500 ''Authentication failed'' c, w)
        else case find (\<lambda>r. ur_username r = lr_Username req \<and> ur_is_active r) (sv_users w) of
          None \<Rightarrow> (fail 401 ''Invalid credentials'' c, w)
        | Some row \<Rightarrow>
          if \<not> CheckPassword bc (lr_Password req) (ur_password_hash row)
          then (fail 401 ''Invalid credentials'' c, w)
          else
            (let u = row_user row;
                 w1 = (if ev_dberr ev 1 = None then set_last_login (ev_dbnow ev) (u_ID u) w else w)
             in case GenerateAccessToken L (sv_keys w1) (ev_rnd ev 0) (ev_clock ev 0) u of
                  Inl e \<Rightarrow> (token_failure e c, w1)
                | Inr (token, cl) \<Rightarrow>
                    (let refreshTokenID = generateTokenID (ev_rnd ev 1);
                         refreshExpiry = ev_clock ev 1 + RefreshTokenTTL
                     in case storeRefreshToken L (ev_dberr ev 2) (ev_uuid ev) (ev_dbnow ev) (u_ID u) refreshTokenID refreshExpiry w1 of
                          (Some e, w2) \<Rightarrow> (fail 500 ''Failed to generate refresh token'' c, w2)
                        | (None, w2) \<Rightarrow>
                            (success (JObj
                               [(''token'', JStr token),
                                (''expires_in'', JNum (whole_seconds (time_sub (unix_time (cl_Exp cl)) (ev_clock ev 2)))),
                                (''refresh_token'', JStr (refreshTokenID @ ''.'' @ u_ID u)),
                                (''user'', user_json u)]) c, w2))))"

definition register_role :: "string \<Rightarrow> string" where
  "register_role r = (if r \<in> {''admin'', ''operator'', ''auditor''} then r else ''viewer'')"

text \<open>\<open>INSERT INTO users ... RETURNING id\<close>.\<close>

definition insert_user ::
  "string option \<Rightarrow> string \<Rightarrow> time \<Rightarrow> string \<Rightarrow> string \<Rightarrow> string \<Rightarrow> string \<Rightarrow> ('sk, 'pk) server \<Rightarrow>
   (string + string) \<times> ('sk, 'pk) server" where
  "insert_user err uuid dbnow username email hash role w =
     (case err of
        Some e \<Rightarrow> (Inl e, w)
      | None \<Rightarrow>
          if list_ex (\<lambda>u. ur_username u = username \<or> ur_email u = email) (sv_users w)
          then (Inl unique_violation, w)
          else (Inr uuid, w\<lparr>sv_users := sv_users w @
                 [\<lparr>ur_id = uuid, ur_username = username, ur_email = email, ur_password_hash = hash,
                   ur_role = role, ur_is_active = True, ur_must_change_password = False,
                   ur_last_login = None, ur_created_at = dbnow, ur_updated_at = dbnow\<rparr>]\<rparr>))"

definition RegisterHandler ::
  "bcrypt \<Rightarrow> (string \<Rightarrow> bool) \<Rightarrow> env \<Rightarrow> register_request option \<Rightarrow> (('sk, 'pk) server) handler" where
  "RegisterHandler bc email ev body c w =
     (case body of None \<Rightarrow> (fail 400 ''Invalid request'' c, w)
      | Some req \<Rightarrow>
        if \<not> valid_register email req then (fail 400 ''Invalid request'' c, w)
        else
          (let role = register_role (rr_Role req) in
           case HashPassword bc (ev_salt ev) (rr_Password req) of
             None \<Rightarrow> (fail 500 ''Failed to hash password'' c, w)
           | Some hash \<Rightarrow>
               (case insert_user (ev_dberr ev 0) (ev_uuid ev) (ev_dbnow ev) (rr_Username req) (rr_Email req) hash role w of
                  (Inl e, w1) \<Rightarrow>
                    if contains e ''unique'' \<or> contains e ''duplicate''
                    then (fail 409 ''Username or email already exists'' c, w1)
                    else (fail 500 ''Failed to create user'' c, w1)
                | (Inr userID, w1) \<Rightarrow>
                    (reply 201 (envelope (JObj [(''id'', JStr userID), (''username'', JStr (rr_Username req)),
                                               (''role'', JStr role)]) JNull) c, w1))))"

definition RefreshTokenHandler ::
  "('sk, 'pk) crypto_lib \<Rightarrow> env \<Rightarrow> string option \<Rightarrow> (('sk, 'pk) server) handler" where
  "RefreshTokenHandler L ev body c w =
     (case body of None \<Rightarrow> (fail 400 ''Invalid request'' c, w)
      | Some refreshToken \<Rightarrow>
        if refreshToken = [] then (fail 400 ''Invalid request'' c, w)
        else case validateRefreshToken L (ev_dberr ev 0) (ev_dbnow ev) refreshToken w of
          Inl e \<Rightarrow> (fail 401 ''Invalid or expired refresh token'' c, w)
        | Inr u \<Rightarrow>
          (case GenerateAccessToken L (sv_keys w) (ev_rnd ev 0) (ev_clock ev 0) u of
             Inl e \<Rightarrow> (token_failure e c, w)
           | Inr (token, cl) \<Rightarrow>
               (let refreshTokenID = generateTokenID (ev_rnd ev 1);
                    refreshExpiry = ev_clock ev 1 + RefreshTokenTTL
                in case storeRefreshToken L (ev_dberr ev 1) (ev_uuid ev) (ev_dbnow ev) (u_ID u) refreshTokenID refreshExpiry w of
                     (Some e, w1) \<Rightarrow> (fail 500 ''Failed to generate refresh token'' c, w1)
                   | (None, w1) \<Rightarrow>
                       (let w2 = snd (revokeRefreshTokenByValue L (ev_dberr ev 2) refreshToken w1)
                        in (success (JObj
                              [(''token'', JStr token),
                               (''expires_in'', JNum (whole_seconds (time_sub (unix_time (cl_Exp cl)) (ev_clock ev 2)))),
                               (''refresh_token'', JStr (refreshTokenID @ ''.'' @ u_ID u))]) c, w2)))))"

text \<open>\<open>now\<close> is read when the token is verified, \<open>now'\<close> when it is put on the blacklist.\<close>

definition LogoutHandler ::
  "('sk, 'pk) crypto_lib \<Rightarrow> env \<Rightarrow> (('sk, 'pk) server) handler" where
  "LogoutHandler L ev c w =
     (let authHeader = getHeader c ''Authorization'' in
      if authHeader = [] then (fail 401 ''Authorization header required'' c, w)
      else case splitN 2 CHR '' '' authHeader of
        [scheme, token] \<Rightarrow>
          if toLower scheme \<noteq> ''bearer'' then (fail 401 ''Invalid authorization format'' c, w)
          else if ks_globalKeyPair (sv_keys w) = None then (recovered c, w)
          else
            (let w1 = (case verifyRS256 L (sv_keys w) (ev_clock ev 0) token of
                         Inl _ \<Rightarrow> w
                       | Inr cl \<Rightarrow> w\<lparr>sv_blacklist := blacklist_Add (sv_blacklist w) (ev_clock ev 1) (cl_JTI cl)\<rparr>);
                 userID = get_string c ''user_id'';
                 w2 = (if userID \<noteq> [] then snd (revokeAllRefreshTokens (ev_dberr ev 0) userID w1) else w1)
             in (success (JStr ''Logged out successfully'') c, w2))
      | _ \<Rightarrow> (fail 401 ''Invalid authorization format'' c, w))"

text \<open>\<open>UPDATE users SET password_hash = ..., must_change_password = FALSE\<close>.\<close>

definition set_password :: "time \<Rightarrow> string \<Rightarrow> string \<Rightarrow> ('sk, 'pk) server \<Rightarrow> ('sk, 'pk) server" where
  "set_password t uid hash w =
     w\<lparr>sv_users := map (\<lambda>r. if ur_id r = uid
        then r\<lparr>ur_password_hash := hash, ur_must_change_password := False, ur_updated_at := t\<rparr> else r) (sv_users w)\<rparr>"

definition ChangePasswordHandler ::
  "bcrypt \<Rightarrow> env \<Rightarrow> change_password_request option \<Rightarrow> (('sk, 'pk) server) handler" where
  "ChangePasswordHandler bc ev body c w =
     (case cx_keys c ''user_id'' of
        None \<Rightarrow> (fail 401 ''Not authenticated'' c, w)
      | Some v \<Rightarrow>
        (case as_string v of
           None \<Rightarrow> (fail 500 ''Invalid user identity'' c, w)
         | Some userID \<Rightarrow>
           (case body of None \<Rightarrow> (fail 400 ''Invalid request'' c, w)
            | Some req \<Rightarrow>
              if \<not> valid_change req then (fail 400 ''Invalid request'' c, w)
              else if ev_dberr ev 0 \<noteq> None then (fail 500 ''Failed to verify current password'' c, w)
              else case find (\<lambda>r. ur_id r = userID) (sv_users w) of
                None \<Rightarrow> (fail 500 ''Failed to verify current password'' c, w)
              | Some row \<Rightarrow>
                if \<not> CheckPassword bc (cp_CurrentPassword req) (ur_password_hash row)
                then (fail 403 ''Current password is incorrect'' c, w)
                else case HashPassword bc (ev_salt ev) (cp_NewPassword req) of
                  None \<Rightarrow> (fail 500 ''Failed to hash new password'' c, w)
                | Some newHash \<Rightarrow>
                  if ev_dberr ev 1 \<noteq> None then (fail 500 ''Failed to update password'' c, w)
                  else
                    (let w1 = set_password (ev_dbnow ev) userID newHash w;
                         w2 = snd (revokeAllRefreshTokens (ev_dberr ev 2) userID w1)
                     in (success (JStr ''Password changed successfully. All sessions have been invalidated.'') c, w2)))))"

section \<open>Administration\<close>

text \<open>
  The lists are in the order of the queries. A time in a response is its number of nanoseconds.
  The statement numbers are 0 for the query and 1 for an error while its rows are read.
\<close>

definition user_info_json :: "user_row \<Rightarrow> json" where
  "user_info_json r = JObj [(''id'', JStr (ur_id r)), (''username'', JStr (ur_username r)),
     (''email'', JStr (ur_email r)), (''role'', JStr (ur_role r)), (''is_active'', JBool (ur_is_active r)),
     (''last_login'', case ur_last_login r of None \<Rightarrow> JNull | Some t \<Rightarrow> JNum t), (''created_at'', JNum (ur_created_at r))]"

definition ListUsersHandler :: "env \<Rightarrow> (('sk, 'pk) server) handler" where
  "ListUsersHandler ev c w =
     (if ev_dberr ev 0 \<noteq> None then (fail 500 ''Failed to query users'' c, w)
      else if ev_dberr ev 1 \<noteq> None then (fail 500 ''Failed to list users'' c, w)
      else (success (JArr (map user_info_json (sort_key (\<lambda>r. - ur_created_at r) (sv_users w)))) c, w))"

definition session_json :: "user_row list \<Rightarrow> refresh_row \<Rightarrow> json option" where
  "session_json users r =
     (case find (\<lambda>u. ur_id u = rt_user_id r) users of
        None \<Rightarrow> None
      | Some u \<Rightarrow> Some (JObj [(''id'', JStr (rt_id r)), (''user_id'', JStr (rt_user_id r)),
          (''username'', JStr (ur_username u)), (''created_at'', JNum (rt_created_at r)),
          (''expires_at'', JNum (rt_expires_at r)), (''is_revoked'', JBool (rt_revoked r)), (''is_current'', JBool False)]))"

definition list_sessions :: "uuid_lib \<Rightarrow> env \<Rightarrow> string \<Rightarrow> (('sk, 'pk) server) handler" where
  "list_sessions U ev queryUserID c w =
     (case uuid_arg U (ev_dberr ev 0) queryUserID of Inl _ \<Rightarrow> (fail 500 ''Failed to list sessions'' c, w)
      | Inr uid \<Rightarrow>
      if ev_dberr ev 1 \<noteq> None then (fail 500 ''Failed to iterate sessions: '' c, w)
      else (success (JArr (take 100 (List.map_filter (session_json (sv_users w))
              (sort_key (\<lambda>r. - rt_created_at r) (filter (\<lambda>r. rt_user_id r = uid) (sv_refresh w)))))) c, w))"

definition ListSessionsHandler :: "uuid_lib \<Rightarrow> env \<Rightarrow> (('sk, 'pk) server) handler" where
  "ListSessionsHandler U ev c w =
     (case cx_keys c ''user_id'' of
        None \<Rightarrow> (fail 401 ''User not authenticated'' c, w)
      | Some v \<Rightarrow>
          (let adminMode = (get_string c ''user_role'' = ''admin'' \<and> getQuery c ''user_id'' \<noteq> []) in
           if adminMode then list_sessions U ev (getQuery c ''user_id'') c w
           else case as_string v of
                  Some uid \<Rightarrow> list_sessions U ev uid c w
                | None \<Rightarrow> (fail 401 ''User not authenticated'' c, w)))"

definition RevokeSessionHandler :: "uuid_lib \<Rightarrow> env \<Rightarrow> (('sk, 'pk) server) handler" where
  "RevokeSessionHandler U ev c w =
     (case uuidParam U ''id'' c of
        Inl c' \<Rightarrow> (c', w)
      | Inr raw \<Rightarrow>
          (case uuid_arg U (ev_dberr ev 0) raw of
             Inl _ \<Rightarrow> (fail 500 ''Failed to revoke session'' c, w)
           | Inr sessionID \<Rightarrow>
               (let w1 = revoke_where (\<lambda>r. rt_id r = sessionID) w in
                if \<not> list_ex (\<lambda>r. rt_id r = sessionID) (sv_refresh w)
                then (fail 404 ''Session not found'' c, w1)
                else (success (JObj [(''message'', JStr ''Session revoked successfully'')]) c, w1))))"

section \<open>Invariants\<close>

definition accounts_ok :: "('sk, 'pk) server \<Rightarrow> bool" where
  "accounts_ok w \<longleftrightarrow>
     distinct (map ur_id (sv_users w)) \<and> distinct (map ur_username (sv_users w)) \<and>
     distinct (map ur_email (sv_users w)) \<and> distinct (map rt_token_hash (sv_refresh w)) \<and>
     (\<forall>r \<in> set (sv_refresh w). \<exists>u \<in> set (sv_users w). ur_id u = rt_user_id r) \<and>
     (\<forall>u \<in> set (sv_users w). ur_role u \<in> dom RoleHierarchy)"

text \<open>Sessions only come to an end: rows stay, and a revoked one stays revoked.\<close>

definition sessions_le :: "('sk, 'pk) server \<Rightarrow> ('sk, 'pk) server \<Rightarrow> bool" where
  "sessions_le w w' \<longleftrightarrow>
     (\<forall>r \<in> set (sv_refresh w). \<exists>r' \<in> set (sv_refresh w').
        rt_token_hash r' = rt_token_hash r \<and> rt_user_id r' = rt_user_id r \<and> rt_expires_at r' = rt_expires_at r \<and>
        (rt_revoked r \<longrightarrow> rt_revoked r'))"

lemma sessions_le_refl [simp]: "sessions_le w w"
  by (auto simp: sessions_le_def)

lemma sessions_le_trans: "sessions_le v w \<Longrightarrow> sessions_le w x \<Longrightarrow> sessions_le v x"
  unfolding sessions_le_def by (metis (no_types, opaque_lifting))

text \<open>The tables are all that these two look at.\<close>

lemma accounts_ok_cong:
  "sv_users w' = sv_users w \<Longrightarrow> sv_refresh w' = sv_refresh w \<Longrightarrow> accounts_ok w' = accounts_ok w"
  by (simp add: accounts_ok_def)

lemma accounts_ok_users:
  assumes "\<And>r. ur_id (f r) = ur_id r \<and> ur_username (f r) = ur_username r \<and> ur_email (f r) = ur_email r \<and> ur_role (f r) = ur_role r"
  shows "accounts_ok (w\<lparr>sv_users := map f (sv_users w)\<rparr>) = accounts_ok w"
  using assms by (simp add: accounts_ok_def comp_def)

lemma revoke_row_simps [simp]:
  "rt_id (revoke_row P r) = rt_id r" "rt_user_id (revoke_row P r) = rt_user_id r"
  "rt_token_hash (revoke_row P r) = rt_token_hash r" "rt_expires_at (revoke_row P r) = rt_expires_at r"
  "rt_revoked (revoke_row P r) \<longleftrightarrow> rt_revoked r \<or> P r"
  by (simp_all add: revoke_row_def)

lemma accounts_ok_revoke [simp]: "accounts_ok (revoke_where P w) = accounts_ok w"
  by (simp add: accounts_ok_def revoke_where_def comp_def)

lemma sessions_le_revoke [simp]: "sessions_le w (revoke_where P w)"
  by (auto simp: sessions_le_def revoke_where_def)

lemma sessions_le_users [simp]: "sessions_le w (w\<lparr>sv_users := us\<rparr>)" "sessions_le w (w\<lparr>sv_blacklist := b\<rparr>)"
  by (auto simp: sessions_le_def)

lemma revoke_where_frame [simp]:
  "sv_users (revoke_where P w) = sv_users w" "sv_keys (revoke_where P w) = sv_keys w"
  "sv_blacklist (revoke_where P w) = sv_blacklist w"
  by (simp_all add: revoke_where_def)

lemma set_last_login_ok [simp]:
  "accounts_ok (set_last_login t u w) = accounts_ok w" "sessions_le w (set_last_login t u w)"
  by (simp_all add: set_last_login_def accounts_ok_users)

lemma set_password_ok [simp]:
  "accounts_ok (set_password t u h w) = accounts_ok w" "sessions_le w (set_password t u h w)"
  by (simp_all add: set_password_def accounts_ok_users)

lemma storeRefreshToken_ok:
  assumes "accounts_ok w"
  shows "accounts_ok (snd (storeRefreshToken L err uuid dbnow uid tid e w))"
    and "sessions_le w (snd (storeRefreshToken L err uuid dbnow uid tid e w))"
  using assms
  by (auto simp: storeRefreshToken_def accounts_ok_def sessions_le_def Let_def list_ex_iff split: option.splits)

lemma revoke_by_value_ok:
  "accounts_ok (snd (revokeRefreshTokenByValue L err tok w)) = accounts_ok w"
  "sessions_le w (snd (revokeRefreshTokenByValue L err tok w))"
  by (auto simp: revokeRefreshTokenByValue_def split: list.splits option.splits)

lemma revoke_all_ok:
  "accounts_ok (snd (revokeAllRefreshTokens err uid w)) = accounts_ok w"
  "sessions_le w (snd (revokeAllRefreshTokens err uid w))"
  by (auto simp: revokeAllRefreshTokens_def split: option.splits)

lemma insert_user_ok:
  assumes "accounts_ok w" and "uuid \<notin> ur_id ` set (sv_users w)" and "role \<in> dom RoleHierarchy"
  shows "accounts_ok (snd (insert_user err uuid dbnow name email h role w))"
  using assms by (auto simp: insert_user_def accounts_ok_def list_ex_iff split: option.splits)

lemma insert_user_le: "sessions_le w (snd (insert_user err uuid dbnow name email h role w))"
  by (auto simp: insert_user_def split: option.splits)

lemma register_role_dom: "register_role r \<in> dom RoleHierarchy"
  by (auto simp: register_role_def RoleHierarchy_def)

definition keeps :: "('sk, 'pk) server \<Rightarrow> ('sk, 'pk) server \<Rightarrow> bool" where
  "keeps w w' \<longleftrightarrow> accounts_ok w' \<and> sessions_le w w' \<and> sv_keys w' = sv_keys w"

lemma keeps_refl: "accounts_ok w \<Longrightarrow> keeps w w"
  by (simp add: keeps_def)

lemma keeps_trans: "keeps v w \<Longrightarrow> keeps w x \<Longrightarrow> keeps v x"
  by (auto simp: keeps_def intro: sessions_le_trans)

lemma store_keys [simp]: "sv_keys (snd (storeRefreshToken L err uuid dbnow uid tid e w)) = sv_keys w"
  by (simp add: storeRefreshToken_def Let_def split: option.split)

lemma store_keeps:
  "storeRefreshToken L err uuid dbnow uid tid e w = (x, w') \<Longrightarrow> accounts_ok w \<Longrightarrow> keeps w w'"
  using storeRefreshToken_ok [of w L err uuid dbnow uid tid e] store_keys [of L err uuid dbnow uid tid e w]
  by (simp add: keeps_def)

lemma revoke_by_value_keeps: "accounts_ok w \<Longrightarrow> keeps w (snd (revokeRefreshTokenByValue L err tok w))"
  by (auto simp: keeps_def revoke_by_value_ok revokeRefreshTokenByValue_def split: list.splits option.splits)

lemma revoke_all_keeps: "accounts_ok w \<Longrightarrow> keeps w (snd (revokeAllRefreshTokens err uid w))"
  by (auto simp: keeps_def revoke_all_ok revokeAllRefreshTokens_def split: option.splits)

lemma set_last_login_keeps: "accounts_ok w \<Longrightarrow> keeps w (set_last_login t u w)"
  by (simp add: keeps_def) (simp add: set_last_login_def)

lemma set_password_keeps: "accounts_ok w \<Longrightarrow> keeps w (set_password t u h w)"
  by (simp add: keeps_def) (simp add: set_password_def)

lemma revoke_where_keeps: "accounts_ok w \<Longrightarrow> keeps w (revoke_where P w)"
  by (simp add: keeps_def)

lemma blacklist_keeps: "accounts_ok w \<Longrightarrow> keeps w (w\<lparr>sv_blacklist := b\<rparr>)"
  using accounts_ok_cong [of "w\<lparr>sv_blacklist := b\<rparr>" w] by (simp add: keeps_def)

lemmas keeps_intros = keeps_refl set_last_login_keeps set_password_keeps revoke_where_keeps
  revoke_all_keeps revoke_by_value_keeps blacklist_keeps

lemma keepsD: "keeps w w' \<Longrightarrow> accounts_ok w'"
  by (simp add: keeps_def)

lemma Login_keeps:
  assumes "accounts_ok w"
  shows "keeps w (snd (LoginHandler L bc ev body c w))"
proof -
  define w1 where "w1 u = (if ev_dberr ev 1 = None then set_last_login (ev_dbnow ev) u w else w)" for u
  have w1: "keeps w (w1 u)" for u
    using assms by (simp add: w1_def keeps_refl set_last_login_keeps)
  have "keeps w w2" if "storeRefreshToken L err uuid t uid tid e (w1 u) = (x, w2)" for err uuid t uid tid e u x w2
    using keeps_trans [OF w1 store_keeps [OF that keepsD [OF w1]]] .
  then show ?thesis
    unfolding LoginHandler_def w1_def [symmetric] Let_def
    by (auto simp: keeps_refl [OF assms] w1 split: option.split prod.split sum.split)
qed

lemma Refresh_keeps: "accounts_ok w \<Longrightarrow> keeps w (snd (RefreshTokenHandler L ev body c w))"
  by (auto simp: RefreshTokenHandler_def Let_def keeps_refl split: option.split prod.split sum.split
      intro: keeps_trans [OF _ revoke_by_value_keeps [OF keepsD]] dest!: store_keeps)

lemma Logout_keeps: "accounts_ok w \<Longrightarrow> keeps w (snd (LogoutHandler L ev c w))"
  by (auto simp: LogoutHandler_def Let_def split: option.split list.split sum.split
      intro!: keeps_intros keeps_trans [OF blacklist_keeps revoke_all_keeps [OF keepsD [OF blacklist_keeps]]])

lemma ChangePassword_keeps: "accounts_ok w \<Longrightarrow> keeps w (snd (ChangePasswordHandler bc ev body c w))"
  by (auto simp: ChangePasswordHandler_def Let_def split: option.split
      intro!: keeps_refl keeps_trans [OF set_password_keeps revoke_all_keeps [OF keepsD [OF set_password_keeps]]])

lemma RevokeSession_keeps: "accounts_ok w \<Longrightarrow> keeps w (snd (RevokeSessionHandler U ev c w))"
  by (auto simp: RevokeSessionHandler_def Let_def split: sum.split intro: keeps_refl revoke_where_keeps)

lemma Register_keeps:
  assumes "accounts_ok w" "ev_uuid ev \<notin> ur_id ` set (sv_users w)"
  shows "keeps w (snd (RegisterHandler bc email ev body c w))"
proof -
  have ins: "keeps w w'" if "insert_user err (ev_uuid ev) t name e h (register_role role) w = (x, w')"
    for err t name e h role x w'
    using that insert_user_ok [OF assms(1,2) register_role_dom [of role], of err t name e h]
      insert_user_le [of w err "ev_uuid ev" t name e h "register_role role"]
    by (auto simp: keeps_def insert_user_def split: option.splits if_splits)
  show ?thesis
    using assms(1)
    by (auto simp: RegisterHandler_def Let_def keeps_refl split: option.split prod.split sum.split dest!: ins)
qed

section \<open>Runs\<close>

datatype auth_event =
  ELogin env "login_request option" ctx | ERegister env "register_request option" ctx
| ERefresh env "string option" ctx | ELogout env ctx
| EChangePassword env "change_password_request option" ctx | ERevokeSession env ctx | ESweep time

fun auth_next ::
  "('sk, 'pk) crypto_lib \<Rightarrow> bcrypt \<Rightarrow> (string \<Rightarrow> bool) \<Rightarrow> uuid_lib \<Rightarrow> auth_event \<Rightarrow>
   ('sk, 'pk) server \<Rightarrow> ('sk, 'pk) server" where
  "auth_next L bc email U (ELogin ev b c) w = snd (LoginHandler L bc ev b c w)"
| "auth_next L bc email U (ERegister ev b c) w = snd (RegisterHandler bc email ev b c w)"
| "auth_next L bc email U (ERefresh ev b c) w = snd (RefreshTokenHandler L ev b c w)"
| "auth_next L bc email U (ELogout ev c) w = snd (LogoutHandler L ev c w)"
| "auth_next L bc email U (EChangePassword ev b c) w = snd (ChangePasswordHandler bc ev b c w)"
| "auth_next L bc email U (ERevokeSession ev c) w = snd (RevokeSessionHandler U ev c w)"
| "auth_next L bc email U (ESweep t) w = w\<lparr>sv_blacklist := blacklist_cleanup (sv_blacklist w) t\<rparr>"

text \<open>An identifier the database generates for a new user is new.\<close>

fun fresh_uuid :: "auth_event \<Rightarrow> ('sk, 'pk) server \<Rightarrow> bool" where
  "fresh_uuid (ERegister ev b c) w \<longleftrightarrow> ev_uuid ev \<notin> ur_id ` set (sv_users w)"
| "fresh_uuid _ w \<longleftrightarrow> True"

lemma auth_next_keeps:
  "accounts_ok w \<Longrightarrow> fresh_uuid e w \<Longrightarrow> keeps w (auth_next L bc email U e w)"
  by (cases e) (simp_all add: Login_keeps Register_keeps Refresh_keeps Logout_keeps ChangePassword_keeps
      RevokeSession_keeps blacklist_keeps)

interpretation auth: growing_system "auth_next L bc email U" fresh_uuid accounts_ok sessions_le
  for L :: "('sk, 'pk) crypto_lib" and bc email U
  by unfold_locales (auto dest: auth_next_keeps simp: keeps_def intro: sessions_le_trans)

primrec auth_run ::
  "('sk, 'pk) crypto_lib \<Rightarrow> bcrypt \<Rightarrow> (string \<Rightarrow> bool) \<Rightarrow> uuid_lib \<Rightarrow> auth_event list \<Rightarrow>
   ('sk, 'pk) server \<Rightarrow> ('sk, 'pk) server" where
  "auth_run L bc email U [] w = w"
| "auth_run L bc email U (e # es) w = auth_run L bc email U es (auth_next L bc email U e w)"

primrec fresh_run ::
  "('sk, 'pk) crypto_lib \<Rightarrow> bcrypt \<Rightarrow> (string \<Rightarrow> bool) \<Rightarrow> uuid_lib \<Rightarrow> auth_event list \<Rightarrow>
   ('sk, 'pk) server \<Rightarrow> bool" where
  "fresh_run L bc email U [] w = True"
| "fresh_run L bc email U (e # es) w \<longleftrightarrow>
     fresh_uuid e w \<and> fresh_run L bc email U es (auth_next L bc email U e w)"

lemma auth_run_eq: "auth.run L bc email U es w = auth_run L bc email U es w"
  by (induction es arbitrary: w) simp_all

lemma fresh_run_eq: "auth.pre_run L bc email U es w = fresh_run L bc email U es w"
  by (induction es arbitrary: w) simp_all

lemmas auth_run_ok = auth.run_inv [unfolded auth_run_eq fresh_run_eq]
lemmas auth_run_le = auth.run_le [unfolded auth_run_eq fresh_run_eq]

lemma split_refresh: "splitN 2 CHR ''.'' (generateTokenID rnd @ ''.'' @ x) = [generateTokenID rnd, x]"
  by (simp add: splitN_2_eq generateTokenID_def)

definition hash_revoked :: "string \<Rightarrow> ('sk, 'pk) server \<Rightarrow> bool" where
  "hash_revoked h w \<longleftrightarrow> (\<exists>r \<in> set (sv_refresh w). rt_token_hash r = h \<and> rt_revoked r)"

lemma hash_revoked_mono: "hash_revoked h w \<Longrightarrow> sessions_le w w' \<Longrightarrow> hash_revoked h w'"
  unfolding hash_revoked_def sessions_le_def by metis

lemma revoked_no_row:
  assumes "accounts_ok w" "hash_revoked h w"
  shows "List.map_filter (live_refresh t h (sv_users w)) (sv_refresh w) = []"
proof -
  have "live_refresh t h (sv_users w) r = None" if "r \<in> set (sv_refresh w)" for r
  proof -
    obtain r' where r': "r' \<in> set (sv_refresh w)" "rt_token_hash r' = h" "rt_revoked r'"
      using assms(2) by (auto simp: hash_revoked_def)
    have "r = r'" if "rt_token_hash r = h"
      using assms(1) r' that \<open>r \<in> set (sv_refresh w)\<close>
      by (metis (mono_tags, lifting) accounts_ok_def distinct_map inj_on_def)
    with r' show ?thesis by (auto simp: live_refresh_def)
  qed
  then show ?thesis by (auto simp: List.map_filter_def filter_empty_conv)
qed

text \<open>A revoked session does not come back, whatever happens afterwards.\<close>

lemma revoked_refused:
  assumes "accounts_ok w" "hash_revoked (token_hash L tid) w" "fresh_run L bc email U es w"
    and "splitN 2 CHR ''.'' tok = [tid, x]"
  shows "\<not> is_ok (validateRefreshToken L err t tok (auth_run L bc email U es w))"
proof -
  let ?w = "auth_run L bc email U es w"
  have "accounts_ok ?w" using assms(1,3) by (rule auth_run_ok)
  moreover have "hash_revoked (token_hash L tid) ?w"
    using assms(2) auth_run_le [OF assms(1,3)] by (rule hash_revoked_mono)
  ultimately show ?thesis
    by (simp add: validateRefreshToken_def assms(4) revoked_no_row split: option.split)
qed

lemma validate_okE:
  assumes "validateRefreshToken L err t tok w = Inr u"
  obtains tid x r row where "splitN 2 CHR ''.'' tok = [tid, x]" "err = None"
    "r \<in> set (sv_refresh w)" "rt_token_hash r = token_hash L tid" "\<not> rt_revoked r" "t < rt_expires_at r"
    "row \<in> set (sv_users w)" "ur_id row = rt_user_id r" "ur_is_active row" "u = (row_user row)\<lparr>u_MustChangePassword := False\<rparr>"
proof -
  obtain tid x where sp: "splitN 2 CHR ''.'' tok = [tid, x]" and e: "err = None"
    using assms by (auto simp: validateRefreshToken_def split: list.splits option.splits)
  obtain row rest where mf: "List.map_filter (live_refresh t (token_hash L tid) (sv_users w)) (sv_refresh w) = row # rest"
    and u: "u = (row_user row)\<lparr>u_MustChangePassword := False\<rparr>"
    using assms sp e by (auto simp: validateRefreshToken_def row_user_def split: list.splits)
  have "row \<in> set (List.map_filter (live_refresh t (token_hash L tid) (sv_users w)) (sv_refresh w))"
    using mf by simp
  then obtain r where r: "r \<in> set (sv_refresh w)" "live_refresh t (token_hash L tid) (sv_users w) r = Some row"
    by (auto simp: List.map_filter_def)
  have "rt_token_hash r = token_hash L tid \<and> \<not> rt_revoked r \<and> t < rt_expires_at r"
    and f: "find (\<lambda>u. ur_id u = rt_user_id r \<and> ur_is_active u) (sv_users w) = Some row"
    using r(2) by (auto simp: live_refresh_def split: if_splits)
  moreover have "row \<in> set (sv_users w) \<and> ur_id row = rt_user_id r \<and> ur_is_active row"
    using find_SomeD [OF f] by simp
  ultimately show ?thesis using that sp e r u by blast
qed

text \<open>A live session of an active user is accepted.\<close>

lemma validate_live:
  assumes "accounts_ok w" "splitN 2 CHR ''.'' tok = [tid, x]" "r \<in> set (sv_refresh w)"
    "rt_token_hash r = token_hash L tid" "\<not> rt_revoked r" "t < rt_expires_at r"
    "row \<in> set (sv_users w)" "ur_id row = rt_user_id r" "ur_is_active row"
  shows "validateRefreshToken L None t tok w = Inr ((row_user row)\<lparr>u_MustChangePassword := False\<rparr>)"
proof -
  have uniq: "row' = row" if "row' \<in> set (sv_users w)" "ur_id row' = rt_user_id r" for row'
    using assms(1,7,8) that by (metis (mono_tags, lifting) accounts_ok_def distinct_map inj_on_def)
  have uniqr: "r' = r" if "r' \<in> set (sv_refresh w)" "rt_token_hash r' = token_hash L tid" for r'
    using assms(1,3,4) that by (metis (mono_tags, lifting) accounts_ok_def distinct_map inj_on_def)
  have f: "find (\<lambda>u. ur_id u = rt_user_id r \<and> ur_is_active u) (sv_users w) = Some row"
    by (rule find_unique) (use assms(7-9) uniq in blast)+
  have live: "live_refresh t (token_hash L tid) (sv_users w) r = Some row"
    using assms(4-6) f by (simp add: live_refresh_def)
  let ?m = "List.map_filter (live_refresh t (token_hash L tid) (sv_users w)) (sv_refresh w)"
  have "row \<in> set ?m" using assms(3) live by (force simp: List.map_filter_def)
  moreover have "y = row" if y: "y \<in> set ?m" for y
  proof -
    obtain r' where "r' \<in> set (sv_refresh w)" "live_refresh t (token_hash L tid) (sv_users w) r' = Some y"
      using y by (auto simp: List.map_filter_def)
    moreover from this have "r' = r" by (intro uniqr) (auto simp: live_refresh_def split: if_splits)
    ultimately show "y = row" using live by simp
  qed
  ultimately obtain rest where "?m = row # rest" by (cases ?m) auto
  then show ?thesis by (simp add: validateRefreshToken_def assms(2) row_user_def)
qed

lemma success_status: "cx_status (fst (x, w)) = cx_status x"
  by simp

lemma RefreshToken_200:
  assumes "RefreshTokenHandler L ev (Some tok) c w = (c', w')" "cx_status c' = 200" "accounts_ok w"
  obtains u access cl w1 where "validateRefreshToken L (ev_dberr ev 0) (ev_dbnow ev) tok w = Inr u"
    "GenerateAccessToken L (sv_keys w) (ev_rnd ev 0) (ev_clock ev 0) u = Inr (access, cl)"
    "storeRefreshToken L (ev_dberr ev 1) (ev_uuid ev) (ev_dbnow ev) (u_ID u) (generateTokenID (ev_rnd ev 1))
       (ev_clock ev 1 + RefreshTokenTTL) w = (None, w1)"
    "w' = snd (revokeRefreshTokenByValue L (ev_dberr ev 2) tok w1)"
  using assms
  by (auto simp: RefreshTokenHandler_def token_failure_def Let_def split: sum.splits prod.splits option.splits if_splits)

lemma store_NoneD:
  assumes "storeRefreshToken L err uuid t uid tid e w = (None, w1)"
  shows "err = None" "sv_users w1 = sv_users w" "token_hash L tid \<notin> rt_token_hash ` set (sv_refresh w)"
    "sv_refresh w1 = sv_refresh w @ [\<lparr>rt_id = uuid, rt_user_id = uid, rt_token_hash = token_hash L tid,
       rt_expires_at = e, rt_revoked = False, rt_created_at = t\<rparr>]"
  using assms by (auto simp: storeRefreshToken_def Let_def list_ex_iff split: option.splits if_splits)

text \<open>The account that a name and a password select.\<close>

definition login_row :: "bcrypt \<Rightarrow> ('sk, 'pk) server \<Rightarrow> string \<Rightarrow> string \<Rightarrow> user_row option" where
  "login_row bc w name pw =
     (case find (\<lambda>r. ur_username r = name \<and> ur_is_active r) (sv_users w) of
        None \<Rightarrow> None
      | Some row \<Rightarrow> if CheckPassword bc pw (ur_password_hash row) then Some row else None)"

lemma login_row_iff:
  assumes "accounts_ok w"
  shows "login_row bc w name pw = Some row \<longleftrightarrow>
    row \<in> set (sv_users w) \<and> ur_username row = name \<and> ur_is_active row \<and> CheckPassword bc pw (ur_password_hash row)"
proof
  assume "login_row bc w name pw = Some row"
  then show "row \<in> set (sv_users w) \<and> ur_username row = name \<and> ur_is_active row \<and> CheckPassword bc pw (ur_password_hash row)"
    by (auto simp: login_row_def dest: find_SomeD split: option.splits if_splits)
next
  assume r: "row \<in> set (sv_users w) \<and> ur_username row = name \<and> ur_is_active row \<and> CheckPassword bc pw (ur_password_hash row)"
  then have "find (\<lambda>r. ur_username r = name \<and> ur_is_active r) (sv_users w) = Some row"
    using assms by (intro find_unique) (auto simp: accounts_ok_def distinct_map inj_on_def)
  with r show "login_row bc w name pw = Some row" by (simp add: login_row_def)
qed

lemma LoginHandler_refused:
  assumes "valid_login req" "ev_dberr ev 0 = None" "login_row bc w (lr_Username req) (lr_Password req) = None"
  shows "LoginHandler L bc ev (Some req) c w = (fail 401 ''Invalid credentials'' c, w)"
  using assms by (auto simp: login_row_def LoginHandler_def split: option.splits if_splits)

definition login_json :: "string \<Rightarrow> int \<Rightarrow> string \<Rightarrow> user \<Rightarrow> json" where
  "login_json access secs refresh u = JObj [(''token'', JStr access), (''expires_in'', JNum secs),
     (''refresh_token'', JStr refresh), (''user'', user_json u)]"

lemma LoginHandler_accepted:
  assumes "accounts_ok w" "valid_login req" "\<And>n. ev_dberr ev n = None"
    and g: "GenerateAccessToken L (sv_keys w) (ev_rnd ev 0) (ev_clock ev 0) (row_user row) = Inr (access, cl)"
    and "token_hash L (generateTokenID (ev_rnd ev 1)) \<notin> rt_token_hash ` set (sv_refresh w)"
    and lr: "login_row bc w (lr_Username req) (lr_Password req) = Some row"
  shows "fst (LoginHandler L bc ev (Some req) c w) = success (login_json access
           (whole_seconds (time_sub (unix_time (cl_Exp cl)) (ev_clock ev 2))) (generateTokenID (ev_rnd ev 1) @ ''.'' @ ur_id row) (row_user row)) c"
    and "t < ev_clock ev 1 + RefreshTokenTTL \<Longrightarrow>
         validateRefreshToken L None t (generateTokenID (ev_rnd ev 1) @ ''.'' @ ur_id row) (snd (LoginHandler L bc ev (Some req) c w))
           = Inr ((row_user row)\<lparr>u_MustChangePassword := False\<rparr>)"
proof -
  have f: "find (\<lambda>r. ur_username r = lr_Username req \<and> ur_is_active r) (sv_users w) = Some row"
    and p: "CheckPassword bc (lr_Password req) (ur_password_hash row)"
    using lr by (auto simp: login_row_def split: option.splits if_splits)
  note row = find_SomeD [OF f]
  define w1 where "w1 = set_last_login (ev_dbnow ev) (ur_id row) w"
  have w1: "sv_keys w1 = sv_keys w" "sv_refresh w1 = sv_refresh w" "accounts_ok w1"
    using assms(1) by (simp_all add: w1_def) (simp_all add: set_last_login_def)
  let ?f = "\<lambda>r. if ur_id r = ur_id row then r\<lparr>ur_last_login := Some (ev_dbnow ev)\<rparr> else r"
  have mem: "?f row \<in> set (sv_users w1)" using row by (auto simp: w1_def set_last_login_def)
  let ?new = "\<lparr>rt_id = ev_uuid ev, rt_user_id = ur_id row, rt_token_hash = token_hash L (generateTokenID (ev_rnd ev 1)),
       rt_expires_at = ev_clock ev 1 + RefreshTokenTTL, rt_revoked = False, rt_created_at = ev_dbnow ev\<rparr>"
  let ?w = "w1\<lparr>sv_refresh := sv_refresh w1 @ [?new]\<rparr>"
  have st: "storeRefreshToken L None (ev_uuid ev) (ev_dbnow ev) (ur_id row) (generateTokenID (ev_rnd ev 1))
       (ev_clock ev 1 + RefreshTokenTTL) w1 = (None, ?w)"
    using assms(5) mem by (auto simp: storeRefreshToken_def Let_def list_ex_iff w1(2) rev_image_eqI)
  have u: "u_ID (row_user row) = ur_id row" by (simp add: row_user_def)
  have res: "LoginHandler L bc ev (Some req) c w = (success (login_json access
      (whole_seconds (time_sub (unix_time (cl_Exp cl)) (ev_clock ev 2))) (generateTokenID (ev_rnd ev 1) @ ''.'' @ ur_id row) (row_user row)) c, ?w)"
    by (auto simp: LoginHandler_def login_json_def assms(2,3) f p u w1_def [symmetric] w1(1) g st Let_def simp del: One_nat_def)
  then show "fst (LoginHandler L bc ev (Some req) c w) = success (login_json access
      (whole_seconds (time_sub (unix_time (cl_Exp cl)) (ev_clock ev 2))) (generateTokenID (ev_rnd ev 1) @ ''.'' @ ur_id row) (row_user row)) c"
    by simp
  have "accounts_ok ?w" using store_keeps [OF st w1(3)] by (simp add: keepsD)
  then have "validateRefreshToken L None t (generateTokenID (ev_rnd ev 1) @ ''.'' @ ur_id row) ?w
      = Inr ((row_user (?f row))\<lparr>u_MustChangePassword := False\<rparr>)" if "t < ev_clock ev 1 + RefreshTokenTTL"
    by (rule validate_live [OF _ split_refresh, where r = ?new]) (use mem row that in auto)
  then show "t < ev_clock ev 1 + RefreshTokenTTL \<Longrightarrow>
         validateRefreshToken L None t (generateTokenID (ev_rnd ev 1) @ ''.'' @ ur_id row) (snd (LoginHandler L bc ev (Some req) c w))
           = Inr ((row_user row)\<lparr>u_MustChangePassword := False\<rparr>)"
    unfolding res by (simp add: row_user_def)
qed

text \<open>A token that was refused when it was checked is refused later too, and a token that is put on the
  blacklist when it is checked is not accepted any more.\<close>

lemma verifyRS256_earlier:
  assumes "verifyRS256 L ks t' tok = Inr cl" "t \<le> t'"
  shows "verifyRS256 L ks t tok = Inr cl"
  using assms by (auto simp: verifyRS256_def check_claims_def Let_def split: option.splits list.splits if_splits)

lemma Logout_200:
  assumes "bearer c = Some access" "ks_globalKeyPair (sv_keys w) \<noteq> None"
  shows "LogoutHandler L ev c w =
    (let w1 = (case verifyRS256 L (sv_keys w) (ev_clock ev 0) access of
                 Inl _ \<Rightarrow> w
               | Inr cl \<Rightarrow> w\<lparr>sv_blacklist := blacklist_Add (sv_blacklist w) (ev_clock ev 1) (cl_JTI cl)\<rparr>);
         userID = get_string c ''user_id''
     in (success (JStr ''Logged out successfully'') c,
         if userID \<noteq> [] then snd (revokeAllRefreshTokens (ev_dberr ev 0) userID w1) else w1))"
proof -
  have "getHeader c ''Authorization'' \<noteq> []"
    using assms(1) by (auto simp: bearer_def splitN_2 split: list.splits if_splits)
  then show ?thesis
    using assms by (auto simp: bearer_def LogoutHandler_def Let_def split: list.splits if_splits)
qed

lemma logged_out_token_refused:
  assumes "bearer c = Some access" "LogoutHandler L ev c w = (c', w')" "ks_globalKeyPair (sv_keys w) \<noteq> None" "ev_clock ev 0 \<le> t"
  shows "\<not> is_ok (ValidateAccessToken L (sv_keys w') (sv_blacklist w') t access)"
proof -
  let ?v = "verifyRS256 L (sv_keys w) (ev_clock ev 0) access"
  have w': "sv_keys w' = sv_keys w"
    "sv_blacklist w' = (case ?v of Inl _ \<Rightarrow> sv_blacklist w | Inr cl \<Rightarrow> blacklist_Add (sv_blacklist w) (ev_clock ev 1) (cl_JTI cl))"
    using assms(2) unfolding Logout_200 [OF assms(1,3)]
    by (auto simp: Let_def revokeAllRefreshTokens_def split: option.splits sum.splits if_splits)
  show ?thesis
  proof (cases "verifyRS256 L (sv_keys w) t access")
    case (Inl e)
    then show ?thesis by (simp add: ValidateAccessToken_def w'(1))
  next
    case (Inr cl)
    then have "?v = Inr cl" using assms(4) by (rule verifyRS256_earlier)
    then show ?thesis using Inr by (simp add: ValidateAccessToken_def w' IsBlacklisted_def blacklist_Add_def)
  qed
qed

subsection \<open>A concrete server\<close>

definition demo_lib :: "(unit, unit) crypto_lib" where
  "demo_lib = \<lparr>sha256 = id, rsa_sign = (\<lambda>_ h. Some h), rsa_verify = (\<lambda>_ h s. h = s), publicOf = id,
     json_marshal = (\<lambda>_. Some ''c''), json_unmarshal = (\<lambda>_. None), pem_decode = (\<lambda>_. None),
     parsePKCS1 = (\<lambda>_. Inl []), parsePKCS8 = (\<lambda>_. Inl []), marshalPKIX = (\<lambda>_. None), pem_encode = (\<lambda>_ _. [])\<rparr>"

definition demo_bcrypt :: bcrypt where
  "demo_bcrypt = \<lparr>bc_generate = (\<lambda>salt p. Some p), bc_compare = (\<lambda>h p. h = p)\<rparr>"

definition demo_row :: user_row where
  "demo_row = \<lparr>ur_id = ''u1'', ur_username = ''ada'', ur_email = ''a@x'', ur_password_hash = ''changeme'',
     ur_role = ''admin'', ur_is_active = True, ur_must_change_password = True, ur_last_login = None,
     ur_created_at = 0, ur_updated_at = 0\<rparr>"

definition demo_session :: refresh_row where
  "demo_session = \<lparr>rt_id = ''s1'', rt_user_id = ''u1'', rt_token_hash = token_hash demo_lib (generateTokenID ''a''),
     rt_expires_at = hour, rt_revoked = False, rt_created_at = 0\<rparr>"

definition demo_server :: "(unit, unit) server" where
  "demo_server = \<lparr>sv_keys = toy_keys, sv_blacklist = NewTokenBlacklist, sv_users = [demo_row], sv_refresh = [demo_session]\<rparr>"

definition demo_env :: env where
  "demo_env = \<lparr>ev_clock = (\<lambda>_. minute), ev_dbnow = minute, ev_rnd = (\<lambda>n. if n = 0 then ''b'' else ''c''), ev_uuid = ''s2'',
     ev_salt = [], ev_dberr = (\<lambda>_. None)\<rparr>"

definition demo_token :: string where
  "demo_token = generateTokenID ''a'' @ ''.'' @ ''u1''"

definition demo_ctx :: ctx where
  "demo_ctx = cset ''user_id'' (GString ''u1'') (new_ctx \<lparr>rq_method = ''POST'', rq_path = ''/api/v1/auth/logout'',
     rq_headers = [''Authorization'' \<mapsto> ''Bearer t''], rq_clientIP = [], rq_params = Map.empty, rq_query = Map.empty,
     rq_contentLength = 0\<rparr>)"

lemma demo_ok: "accounts_ok demo_server"
  by (simp add: accounts_ok_def demo_server_def demo_row_def demo_session_def RoleHierarchy_def)

lemma demo_hash_neq: "token_hash demo_lib (generateTokenID ''a'') \<noteq> token_hash demo_lib (generateTokenID ''c'')"
  by (simp add: token_hash_def demo_lib_def generateTokenID_def hex_encode_inj del: hex_encode.simps)

lemma demo_validate:
  "validateRefreshToken demo_lib None minute demo_token demo_server = Inr ((row_user demo_row)\<lparr>u_MustChangePassword := False\<rparr>)"
  by (rule validate_live [OF demo_ok, where tid = "generateTokenID ''a''" and x = "''u1''" and r = demo_session])
     (simp_all add: demo_token_def split_refresh [of _ "''u1''", simplified] demo_server_def demo_session_def demo_row_def)

lemma demo_generate:
  "GenerateAccessToken demo_lib toy_keys r t u =
     Inr (signing_input ''c'' @ ''.'' @ b64_encode (signing_input ''c''), access_claims u r t)"
  by (simp add: demo_lib_def toy_keys_def GenerateAccessToken_def signRS256_def Let_def)

lemma demo_refresh_200: "cx_status (fst (RefreshTokenHandler demo_lib demo_env (Some demo_token) demo_ctx demo_server)) = 200"
  using demo_validate demo_hash_neq
  by (simp add: RefreshTokenHandler_def demo_env_def storeRefreshToken_def Let_def demo_server_def demo_session_def
      row_user_def demo_row_def demo_generate) (simp add: demo_token_def)

section \<open>Properties\<close>



text \<open>C5: Logging out is answered with 200 and ends the session: in the state it leaves, the access token
  it was sent with is refused at every later time (that its entry outlives it through the sweeps of the
  blacklist is a property of the tokens), and if the statement that revokes the refresh tokens succeeds, no refresh
  token the user holds is accepted again, whatever requests follow. If that statement fails the
  answer is still 200, and every refresh token of the user stays as it was.\<close>

theorem logout_ends_sessions:
  assumes "accounts_ok w" "cx_keys c ''user_id'' = Some (GString uid)" "uid \<noteq> []"
    and "bearer c = Some access" "ks_globalKeyPair (sv_keys w) \<noteq> None" "ev_clock ev 0 \<le> t"
    and "LogoutHandler L ev c w = (c', w')" and "fresh_run L bc email U es w'"
  shows "cx_status c' = 200 \<and>
    (\<exists>a. cx_status a = 401 \<and> (\<forall>next. AuthMiddleware L t next c w' = (a, w'))) \<and>
    (ev_dberr ev 0 = None \<longrightarrow>
      (\<forall>r \<in> set (sv_refresh w). \<forall>rnd x err t'. rt_user_id r = uid \<and> rt_token_hash r = token_hash L (generateTokenID rnd) \<longrightarrow>
         \<not> is_ok (validateRefreshToken L err t' (generateTokenID rnd @ ''.'' @ x) (auth_run L bc email U es w')))) \<and>
    (ev_dberr ev 0 \<noteq> None \<longrightarrow> sv_refresh w' = sv_refresh w)"
proof -
  have uid: "get_string c ''user_id'' = uid" using assms(2) by (simp add: get_string_def)
  obtain w1 where w': "w' = snd (revokeAllRefreshTokens (ev_dberr ev 0) uid w1)" "sv_refresh w1 = sv_refresh w"
    and c': "c' = success (JStr ''Logged out successfully'') c"
    using assms(7) uid assms(3) unfolding Logout_200 [OF assms(4,5)] by (auto simp: Let_def split: sum.splits)
  have ok: "accounts_ok w'" using Logout_keeps [OF assms(1), of L ev c] assms(7) by (simp add: keepsD)
  have keys: "sv_keys w' = sv_keys w" using Logout_keeps [OF assms(1), of L ev c] assms(7) by (simp add: keeps_def)
  obtain e where e: "ValidateAccessToken L (sv_keys w') (sv_blacklist w') t access = Inl e" "e \<noteq> NilKeyPair"
    using logged_out_token_refused [OF assms(4,7,5,6)] keys assms(5)
    by (cases "ValidateAccessToken L (sv_keys w') (sv_blacklist w') t access")
       (auto simp: ValidateAccessToken_def verifyRS256_def check_claims_def Let_def split: option.splits list.splits sum.splits if_splits)
  have "\<not> is_ok (validateRefreshToken L err t' (generateTokenID rnd @ ''.'' @ x) (auth_run L bc email U es w'))"
    if "ev_dberr ev 0 = None" "r \<in> set (sv_refresh w)" "rt_user_id r = uid" "rt_token_hash r = token_hash L (generateTokenID rnd)"
    for r rnd x err t'
  proof -
    have "hash_revoked (token_hash L (generateTokenID rnd)) w'"
      using that w' by (auto simp: hash_revoked_def revokeAllRefreshTokens_def revoke_where_def)
    then show ?thesis using revoked_refused [OF ok _ assms(8) split_refresh] by blast
  qed
  moreover have "sv_refresh w' = sv_refresh w" if "ev_dberr ev 0 \<noteq> None"
    using that w' by (auto simp: revokeAllRefreshTokens_def)
  moreover have "\<forall>next. AuthMiddleware L t next c w' = (abort (fail 401 ''Invalid or expired token'' c), w')"
    using e by (simp add: AuthMiddleware_cases assms(4))
  ultimately show ?thesis using c' by (auto simp: abort_def)
qed

theorem logout_ends_sessions_witness:
  "\<not> is_ok (validateRefreshToken demo_lib None (2 * minute) (generateTokenID ''a'' @ ''.'' @ ''u1'')
      (auth_run demo_lib demo_bcrypt (\<lambda>_. True) plain_uuids
        [ELogin demo_env (Some \<lparr>lr_Username = ''ada'', lr_Password = ''changeme''\<rparr>) demo_ctx]
        (snd (LogoutHandler demo_lib demo_env demo_ctx demo_server)))) \<and>
   sv_refresh (snd (LogoutHandler demo_lib (demo_env\<lparr>ev_dberr := (\<lambda>_. Some ''timeout'')\<rparr>) demo_ctx demo_server)) = [demo_session]"
proof -
  have b: "bearer demo_ctx = Some ''t''"
    by (simp add: bearer_def demo_ctx_def new_ctx_def getHeader_def splitN_2 toLower_def char_lower_def char_of_def bit_0)
  have k: "ks_globalKeyPair (sv_keys demo_server) \<noteq> None" by (simp add: demo_server_def toy_keys_def)
  have u: "cx_keys demo_ctx ''user_id'' = Some (GString ''u1'')" by (simp add: demo_ctx_def)
  note both = logout_ends_sessions [OF demo_ok u _ b k _ prod.collapse [symmetric], of demo_env minute demo_lib demo_bcrypt "\<lambda>_. True" plain_uuids]
    logout_ends_sessions [OF demo_ok u _ b k _ prod.collapse [symmetric], of "demo_env\<lparr>ev_dberr := (\<lambda>_. Some ''timeout'')\<rparr>" minute
      demo_lib demo_bcrypt "\<lambda>_. True" plain_uuids "[]"]
  show ?thesis
    using both(1) [of "[ELogin demo_env (Some \<lparr>lr_Username = ''ada'', lr_Password = ''changeme''\<rparr>) demo_ctx]"] both(2)
    by (simp add: demo_env_def) (simp add: demo_server_def demo_session_def)
qed

text \<open>C21: Changing the password takes effect: when the request is answered with 200 and no statement
  failed, the new hash is in place. From then on a login under the name of the account succeeds exactly
  when the account is active and the password given matches the new hash, so the new password logs
  an active account in, and the old one does unless it matches the new hash as well, which the handler
  does not exclude: a user may keep the password. The pending rotation is cleared, and every refresh
  token issued before is revoked. Logins are judged by \<open>LoginHandler\<close> with statements and signing that
  work.\<close>

theorem change_password_effective:
  assumes "accounts_ok w" "row \<in> set (sv_users w)" "cx_keys c ''user_id'' = Some (GString (ur_id row))"
    and "\<And>n. ev_dberr ev n = None" "ChangePasswordHandler bc ev (Some req) c w = (c', w')" "cx_status c' = 200"
    and "\<And>h. HashPassword bc (ev_salt ev) (cp_NewPassword req) = Some h \<Longrightarrow> CheckPassword bc (cp_NewPassword req) h"
    and "\<And>n. ev_dberr ev' n = None"
    and "\<And>u. is_ok (GenerateAccessToken L (sv_keys w) (ev_rnd ev' 0) (ev_clock ev' 0) u)"
    and "token_hash L (generateTokenID (ev_rnd ev' 1)) \<notin> rt_token_hash ` set (sv_refresh w)"
  shows "\<exists>h. HashPassword bc (ev_salt ev) (cp_NewPassword req) = Some h \<and> CheckPassword bc (cp_NewPassword req) h \<and>
    (\<forall>pw c2. valid_login \<lparr>lr_Username = ur_username row, lr_Password = pw\<rparr> \<longrightarrow>
       cx_status (fst (LoginHandler L bc ev' (Some \<lparr>lr_Username = ur_username row, lr_Password = pw\<rparr>) c2 w')) =
         (if ur_is_active row \<and> CheckPassword bc pw h then 200 else 401)) \<and>
    (\<forall>r \<in> set (sv_users w'). ur_id r = ur_id row \<longrightarrow> \<not> ur_must_change_password r) \<and>
    (\<forall>r \<in> set (sv_refresh w'). rt_user_id r = ur_id row \<longrightarrow> rt_revoked r)"
proof -
  have f: "find (\<lambda>r. ur_id r = ur_id row) (sv_users w) = Some row"
    using assms(1,2) by (intro find_unique) (auto simp: accounts_ok_def distinct_map inj_on_def)
  obtain h where h: "HashPassword bc (ev_salt ev) (cp_NewPassword req) = Some h"
    and w': "w' = revoke_where (\<lambda>r. rt_user_id r = ur_id row \<and> \<not> rt_revoked r) (set_password (ev_dbnow ev) (ur_id row) h w)"
    using assms(3-6) f
    by (auto simp: ChangePasswordHandler_def revokeAllRefreshTokens_def Let_def split: option.splits if_splits)
  have ok: "accounts_ok w'" using assms(1) by (simp add: w')
  have keys: "sv_keys w' = sv_keys w" and hashes: "rt_token_hash ` set (sv_refresh w') = rt_token_hash ` set (sv_refresh w)"
    by (auto simp: w' set_password_def revoke_where_def image_image)
  let ?row = "row\<lparr>ur_password_hash := h, ur_must_change_password := False, ur_updated_at := ev_dbnow ev\<rparr>"
  have users: "sv_users w' = map (\<lambda>r. if ur_id r = ur_id row
     then r\<lparr>ur_password_hash := h, ur_must_change_password := False, ur_updated_at := ev_dbnow ev\<rparr> else r) (sv_users w)"
    by (simp add: w' set_password_def)
  have uniq: "r' = ?row" if "r' \<in> set (sv_users w')" "ur_username r' = ur_username row" for r'
  proof -
    have "?row \<in> set (sv_users w')" unfolding users using assms(2) by (auto intro!: image_eqI [of _ _ row])
    with that ok show ?thesis by (auto simp: accounts_ok_def distinct_map inj_on_def)
  qed
  have "cx_status (fst (LoginHandler L bc ev' (Some \<lparr>lr_Username = ur_username row, lr_Password = pw\<rparr>) c2 w')) =
         (if ur_is_active row \<and> CheckPassword bc pw h then 200 else 401)"
    if v: "valid_login \<lparr>lr_Username = ur_username row, lr_Password = pw\<rparr>" for pw c2
  proof (cases "login_row bc w' (ur_username row) pw")
    case None
    have "?row \<in> set (sv_users w')" unfolding users using assms(2) by (auto intro!: image_eqI [of _ _ row])
    then have "\<not> (ur_is_active row \<and> CheckPassword bc pw h)"
      using None login_row_iff [OF ok, of bc "ur_username row" pw ?row] by auto
    then show ?thesis using LoginHandler_refused [OF v assms(8), of bc w' L c2] None by auto
  next
    case (Some r)
    then have sel: "r \<in> set (sv_users w')" "ur_username r = ur_username row" "ur_is_active r" "CheckPassword bc pw (ur_password_hash r)"
      by (auto simp: login_row_iff [OF ok])
    then have r: "ur_is_active row" "CheckPassword bc pw h" using uniq [OF sel(1,2)] by auto
    obtain access cl where g: "GenerateAccessToken L (sv_keys w') (ev_rnd ev' 0) (ev_clock ev' 0) (row_user r) = Inr (access, cl)"
      using assms(9) [of "row_user r"] unfolding keys by (metis is_okE surj_pair)
    have "token_hash L (generateTokenID (ev_rnd ev' 1)) \<notin> rt_token_hash ` set (sv_refresh w')"
      unfolding hashes by (rule assms(10))
    then show ?thesis
      using LoginHandler_accepted(1) [OF ok v assms(8) g] Some r by simp
  qed
  moreover have "\<forall>r \<in> set (sv_users w'). ur_id r = ur_id row \<longrightarrow> \<not> ur_must_change_password r" unfolding users by auto
  moreover have "\<forall>r \<in> set (sv_refresh w'). rt_user_id r = ur_id row \<longrightarrow> rt_revoked r" by (auto simp: w' revoke_where_def)
  ultimately show ?thesis using h assms(7) [OF h] by blast
qed

theorem change_password_effective_witness:
  "cx_status (fst (LoginHandler demo_lib demo_bcrypt demo_env (Some \<lparr>lr_Username = ''ada'', lr_Password = ''changeme''\<rparr>) demo_ctx
     (snd (ChangePasswordHandler demo_bcrypt demo_env
        (Some \<lparr>cp_CurrentPassword = ''changeme'', cp_NewPassword = ''s3cretpw''\<rparr>) demo_ctx demo_server)))) = 401 \<and>
   cx_status (fst (LoginHandler demo_lib demo_bcrypt demo_env (Some \<lparr>lr_Username = ''ada'', lr_Password = ''changeme''\<rparr>) demo_ctx
     (snd (ChangePasswordHandler demo_bcrypt demo_env
        (Some \<lparr>cp_CurrentPassword = ''changeme'', cp_NewPassword = ''changeme''\<rparr>) demo_ctx demo_server)))) = 200"
proof -
  let ?req = "\<lambda>new. \<lparr>cp_CurrentPassword = ''changeme'', cp_NewPassword = new\<rparr>"
  let ?r = "\<lambda>new. ChangePasswordHandler demo_bcrypt demo_env (Some (?req new)) demo_ctx demo_server"
  have s: "cx_status (fst (?r ''s3cretpw'')) = 200" "cx_status (fst (?r ''changeme'')) = 200"
    by (simp_all add: ChangePasswordHandler_def demo_ctx_def demo_env_def valid_change_def len_between_def runes_def
        demo_server_def demo_row_def CheckPassword_def HashPassword_def demo_bcrypt_def Let_def)
  have row: "demo_row \<in> set (sv_users demo_server)" "cx_keys demo_ctx ''user_id'' = Some (GString (ur_id demo_row))"
    by (simp_all add: demo_server_def demo_ctx_def demo_row_def)
  have "valid_login \<lparr>lr_Username = ''ada'', lr_Password = ''changeme''\<rparr>"
    by (simp add: valid_login_def len_between_def runes_def)
  then show ?thesis
    using change_password_effective [OF demo_ok row _ prod.collapse [symmetric] s(1), of demo_env demo_lib]
      change_password_effective [OF demo_ok row _ prod.collapse [symmetric] s(2), of demo_env demo_lib] demo_hash_neq
    by (simp add: demo_row_def HashPassword_def CheckPassword_def demo_bcrypt_def demo_env_def demo_server_def demo_generate
        demo_session_def)
qed

text \<open>C6: Logging in decides by the account alone: if no statement fails and signing works, a
  well-formed login request is answered with 200 when its name and password select an active
  account, and then the answer holds the access token signed for that account and a refresh token,
  and that refresh token is accepted for the account until its seven days are over. When no active
  account has that name and password the request is answered with 401 and nothing changes.\<close>

theorem login_decides:
  assumes "accounts_ok w" "valid_login req" "\<And>n. ev_dberr ev n = None"
    and "\<And>u. is_ok (GenerateAccessToken L (sv_keys w) (ev_rnd ev 0) (ev_clock ev 0) u)"
    and "token_hash L (generateTokenID (ev_rnd ev 1)) \<notin> rt_token_hash ` set (sv_refresh w)"
    and "LoginHandler L bc ev (Some req) c w = (c', w')"
  shows "if \<exists>row \<in> set (sv_users w). ur_username row = lr_Username req \<and> ur_is_active row \<and>
              CheckPassword bc (lr_Password req) (ur_password_hash row)
    then \<exists>row \<in> set (sv_users w). ur_username row = lr_Username req \<and> ur_is_active row \<and>
           CheckPassword bc (lr_Password req) (ur_password_hash row) \<and>
         (\<exists>access cl secs refresh.
            GenerateAccessToken L (sv_keys w) (ev_rnd ev 0) (ev_clock ev 0) (row_user row) = Inr (access, cl) \<and>
            cx_status c' = 200 \<and>
            cx_body c' = Some (JObj [(''data'', JObj [(''token'', JStr access), (''expires_in'', JNum secs),
                                (''refresh_token'', JStr refresh), (''user'', user_json (row_user row))]), (''error'', JNull)]) \<and>
            (\<forall>t < ev_clock ev 1 + 7 * 24 * hour.
               validateRefreshToken L None t refresh w' = Inr ((row_user row)\<lparr>u_MustChangePassword := False\<rparr>)))
    else cx_status c' = 401 \<and> w' = w"
proof (cases "login_row bc w (lr_Username req) (lr_Password req)")
  case None
  then have no: "\<not> (\<exists>row \<in> set (sv_users w). ur_username row = lr_Username req \<and> ur_is_active row \<and>
      CheckPassword bc (lr_Password req) (ur_password_hash row))"
    using login_row_iff [OF assms(1)] by (metis option.distinct(1))
  have "(c', w') = (fail 401 ''Invalid credentials'' c, w)"
    using LoginHandler_refused [OF assms(2,3) None] assms(6) by simp
  then show ?thesis unfolding if_not_P [OF no] by simp
next
  case (Some row)
  then have r: "row \<in> set (sv_users w)" "ur_username row = lr_Username req" "ur_is_active row"
    "CheckPassword bc (lr_Password req) (ur_password_hash row)"
    by (auto simp: login_row_iff [OF assms(1)])
  obtain access cl where g: "GenerateAccessToken L (sv_keys w) (ev_rnd ev 0) (ev_clock ev 0) (row_user row) = Inr (access, cl)"
    using assms(4) [of "row_user row"] by (metis is_okE surj_pair)
  note acc = LoginHandler_accepted [OF assms(1-3) g assms(5) Some]
  have "\<forall>t < ev_clock ev 1 + 7 * 24 * hour.
      validateRefreshToken L None t (generateTokenID (ev_rnd ev 1) @ ''.'' @ ur_id row) w' = Inr ((row_user row)\<lparr>u_MustChangePassword := False\<rparr>)"
    using acc(2) [of _ c] assms(6) by (simp add: RefreshTokenTTL_def)
  moreover have "cx_status c' = 200" "cx_body c' = Some (JObj [(''data'', login_json access
      (whole_seconds (time_sub (unix_time (cl_Exp cl)) (ev_clock ev 2))) (generateTokenID (ev_rnd ev 1) @ ''.'' @ ur_id row) (row_user row)), (''error'', JNull)])"
    using acc(1) [of c] assms(6) by (simp_all add: success_def reply_def envelope_def)
  ultimately show ?thesis using r g unfolding login_json_def by auto
qed

theorem login_decides_witness:
  "\<exists>access secs refresh. cx_body (fst (LoginHandler demo_lib demo_bcrypt demo_env
      (Some \<lparr>lr_Username = ''ada'', lr_Password = ''changeme''\<rparr>) demo_ctx demo_server)) =
    Some (JObj [(''data'', JObj [(''token'', JStr access), (''expires_in'', JNum secs),
       (''refresh_token'', JStr refresh), (''user'', user_json (row_user demo_row))]), (''error'', JNull)])"
proof -
  let ?req = "\<lparr>lr_Username = ''ada'', lr_Password = ''changeme''\<rparr>"
  have "valid_login ?req" by (simp add: valid_login_def len_between_def runes_def)
  then show ?thesis
    using login_decides [OF demo_ok, of ?req demo_env demo_lib demo_bcrypt demo_ctx, OF _ _ _ _ prod.collapse [symmetric]]
      demo_hash_neq
    by (auto simp: demo_env_def demo_server_def demo_generate demo_session_def demo_row_def CheckPassword_def demo_bcrypt_def)
qed

text \<open>C16: The tables of accounts and sessions stay well-formed through every sequence of logins, registrations, refreshes, logouts,
  password changes, revocations and sweeps: identifiers, names, e-mail addresses and token hashes are unique, every
  session belongs to an account and every role is one of the hierarchy. Sessions are never lost and a
  revoked one stays revoked.\<close>

theorem accounts_well_formed:
  assumes "accounts_ok w" "fresh_run L bc email U es w"
  shows "accounts_ok (auth_run L bc email U es w) \<and> sessions_le w (auth_run L bc email U es w)"
  using assms by (simp add: auth_run_ok auth_run_le)

theorem accounts_well_formed_witness:
  "accounts_ok (auth_run demo_lib demo_bcrypt (\<lambda>_. True) plain_uuids
      [ERegister demo_env (Some \<lparr>rr_Username = ''bob'', rr_Email = ''b@x'', rr_Password = ''changeme'', rr_Role = ''root''\<rparr>) demo_ctx,
       ERefresh demo_env (Some demo_token) demo_ctx] demo_server)"
  by (rule conjunct1 [OF accounts_well_formed [OF demo_ok]]) (simp add: demo_env_def demo_server_def demo_row_def)

end
