(* ===== verification/Rate_Limit.thy ===== *)
theory Rate_Limit
  imports Gin_Context
begin

text \<open>
  The fixed-window rate limiter of \<open>backend/middleware/ratelimit.go\<close>.

  A limiter keeps one visitor per key; \<open>Allow\<close> is one transition under the mutex, and
  \<open>cleanup\<close> is the sweep of its ticker. \<open>fw_step\<close> is the specification: the counter
  of a single client, with no map, no keys and no sweep. A run of the limiter, with requests
  of other clients and sweeps in between, decides on the requests of one client as \<open>fw_run\<close>
  does. The count of a visitor is a 64-bit integer in Go and is not wrapped here: it starts again with
  every window, and no window holds the 9223372036854775807 requests that would overflow it.
\<close>

section \<open>The limiter\<close>

record visitor =
  v_count :: int
  v_windowStart :: time

record rate_limit_rule =
  ru_Path :: string
  ru_Method :: string
  ru_Limit :: int
  ru_Window :: duration

record rate_limiter =
  rl_visitors :: "string \<rightharpoonup> visitor"
  rl_fallback :: rate_limit_rule
  rl_rules :: "rate_limit_rule list"

definition NewRateLimiter :: "int \<Rightarrow> duration \<Rightarrow> rate_limiter" where
  "NewRateLimiter defaultLimit window =
     \<lparr>rl_visitors = Map.empty,
      rl_fallback = \<lparr>ru_Path = [], ru_Method = [], ru_Limit = defaultLimit, ru_Window = window\<rparr>,
      rl_rules = []\<rparr>"

definition AddRule :: "rate_limiter \<Rightarrow> string \<Rightarrow> string \<Rightarrow> int \<Rightarrow> duration \<Rightarrow> rate_limiter" where
  "AddRule rl meth path limit window =
     rl\<lparr>rl_rules := rl_rules rl @
         [\<lparr>ru_Path = path, ru_Method = meth, ru_Limit = limit, ru_Window = window\<rparr>]\<rparr>"

definition matchPath :: "string \<Rightarrow> string \<Rightarrow> bool" where
  "matchPath pattern path \<longleftrightarrow>
     pattern = path \<or>
     (pattern \<noteq> [] \<and> last pattern = CHR ''*'' \<and>
      length path \<ge> length pattern - 1 \<and>
      take (length pattern - 1) path = take (length pattern - 1) pattern)"

fun getRule_in :: "rate_limit_rule list \<Rightarrow> rate_limit_rule \<Rightarrow> string \<Rightarrow> string \<Rightarrow> rate_limit_rule" where
  "getRule_in [] fb meth path = fb"
| "getRule_in (r # rs) fb meth path =
     (if ru_Method r = meth \<and> matchPath (ru_Path r) path then r else getRule_in rs fb meth path)"

definition getRule :: "rate_limiter \<Rightarrow> string \<Rightarrow> string \<Rightarrow> rate_limit_rule" where
  "getRule rl meth path = getRule_in (rl_rules rl) (rl_fallback rl) meth path"

definition rl_key :: "string \<Rightarrow> string \<Rightarrow> string" where
  "rl_key ip userID = (if userID \<noteq> [] then ''user:'' @ userID else ''ip:'' @ ip)"

definition Allow ::
  "rate_limiter \<Rightarrow> time \<Rightarrow> string \<Rightarrow> string \<Rightarrow> string \<Rightarrow> string \<Rightarrow> rate_limiter \<times> bool \<times> int \<times> int" where
  "Allow rl now ip userID meth path =
     (let key = rl_key ip userID; rule = getRule rl meth path;
          fresh = rl\<lparr>rl_visitors := (rl_visitors rl)(key \<mapsto> \<lparr>v_count = 1, v_windowStart = now\<rparr>)\<rparr>
      in case rl_visitors rl key of
           None \<Rightarrow> (fresh, True, ru_Limit rule - 1, ru_Limit rule)
         | Some v \<Rightarrow>
             if time_sub now (v_windowStart v) \<ge> ru_Window rule
             then (fresh, True, ru_Limit rule - 1, ru_Limit rule)
             else let n = v_count v + 1;
                      remaining = ru_Limit rule - n;
                      remaining' = (if remaining < 0 then 0 else remaining)
                  in (rl\<lparr>rl_visitors := (rl_visitors rl)(key \<mapsto> v\<lparr>v_count := n\<rparr>)\<rparr>,
                      n \<le> ru_Limit rule, remaining', ru_Limit rule))"

definition visitor_dead :: "duration \<Rightarrow> time \<Rightarrow> visitor \<Rightarrow> bool" where
  "visitor_dead w now v \<longleftrightarrow> time_sub now (v_windowStart v) > w"

definition rl_cleanup :: "rate_limiter \<Rightarrow> time \<Rightarrow> rate_limiter" where
  "rl_cleanup rl now =
     rl\<lparr>rl_visitors := map_sweep (visitor_dead (ru_Window (rl_fallback rl)) now) (rl_visitors rl)\<rparr>"

interpretation rl_expiring: expiring "visitor_dead w" for w
  by unfold_locales (auto simp: visitor_dead_def intro: less_le_trans time_sub_mono)

text \<open>
  The middleware, on a part \<open>'w\<close> of the server's state that holds a limiter. It reads the
  clock twice, in \<open>Allow\<close> and for the reset header.
\<close>

definition RateLimitMiddleware ::
  "('w \<Rightarrow> rate_limiter) \<Rightarrow> (rate_limiter \<Rightarrow> 'w \<Rightarrow> 'w) \<Rightarrow> time \<Rightarrow> time \<Rightarrow>
   'w middleware" where
  "RateLimitMiddleware get put now now' next c w =
     (let (rl, allowed, remaining, limit) =
            Allow (get w) now (rq_clientIP (cx_req c)) (get_string c ''user_id'')
              (rq_method (cx_req c)) (rq_path (cx_req c));
          c' = set_header ''X-RateLimit-Reset'' (itoa (to_unix (now' + 30 * second)))
                (set_header ''X-RateLimit-Remaining'' (itoa remaining)
                  (set_header ''X-RateLimit-Limit'' (itoa limit) c))
      in if \<not> allowed
         then (abort_fail 429 ''Rate limit exceeded. Try again later.'' c', put rl w)
         else next c' (put rl w))"

lemma matchPath_prefix: "matchPath (p @ ''*'') path \<longleftrightarrow> path = p @ ''*'' \<or> hasPrefix path p"
  by (auto simp: matchPath_def hasPrefix_def dest: arg_cong [where f = length])

lemma Allow_fallback:
  "rl_rules (fst (Allow rl now ip u m p)) = rl_rules rl"
  "rl_fallback (fst (Allow rl now ip u m p)) = rl_fallback rl"
  by (simp_all add: Allow_def Let_def split: option.split)

lemma Allow_other:
  "k \<noteq> rl_key ip u \<Longrightarrow> rl_visitors (fst (Allow rl now ip u m p)) k = rl_visitors rl k"
  by (simp add: Allow_def Let_def split: option.split)

section \<open>The counter of one client\<close>

fun fw_step :: "int \<Rightarrow> duration \<Rightarrow> (time \<times> int) option \<Rightarrow> time \<Rightarrow> (time \<times> int) option \<times> bool" where
  "fw_step L W None t = (Some (t, 1), True)"
| "fw_step L W (Some (s, n)) t =
     (if t - s \<ge> W then (Some (t, 1), True) else (Some (s, n + 1), n + 1 \<le> L))"

fun fw_run :: "int \<Rightarrow> duration \<Rightarrow> (time \<times> int) option \<Rightarrow> time list \<Rightarrow> bool list" where
  "fw_run L W st [] = []"
| "fw_run L W st (t # ts) = snd (fw_step L W st t) # fw_run L W (fst (fw_step L W st t)) ts"

text \<open>The number of requests let through among those made before \<open>b\<close>.\<close>

fun admitted :: "int \<Rightarrow> duration \<Rightarrow> time \<Rightarrow> (time \<times> int) option \<Rightarrow> time list \<Rightarrow> nat" where
  "admitted L W b st [] = 0"
| "admitted L W b st (t # ts) =
     (if t < b \<and> snd (fw_step L W st t) then 1 else 0) + admitted L W b (fst (fw_step L W st t)) ts"

lemma admitted_late: "\<forall>t \<in> set ts. b \<le> t \<Longrightarrow> admitted L W b st ts = 0"
  by (induction ts arbitrary: st) auto

text \<open>Within the window that is open, only what the limit leaves.\<close>

lemma admitted_one_window:
  assumes "sorted ts" and "b \<le> s + W"
  shows "int (admitted L W b (Some (s, n)) ts) \<le> max 0 (L - n)"
  using assms(1)
proof (induction ts arbitrary: n)
  case (Cons t ts)
  show ?case
  proof (cases "t - s \<ge> W")
    case True
    with assms(2) Cons.prems have "\<forall>u \<in> set (t # ts). b \<le> u" by auto
    then show ?thesis using admitted_late by fastforce
  next
    case False
    then show ?thesis using Cons.IH [of "n + 1"] Cons.prems by auto
  qed
qed simp

text \<open>Within twice the length of a window, at most one new window begins.\<close>

lemma admitted_two_windows:
  assumes "sorted ts" and "b \<le> s + 2 * W"
  shows "int (admitted L W b (Some (s, n)) ts) \<le> max 0 (L - n) + max 1 L"
  using assms(1)
proof (induction ts arbitrary: n)
  case (Cons t ts)
  show ?case
  proof (cases "t - s \<ge> W")
    case True
    have "int (admitted L W b (Some (t, 1)) ts) \<le> max 0 (L - 1)"
      using admitted_one_window [of ts b t W L 1] Cons.prems assms(2) True by simp
    then show ?thesis using True by auto
  next
    case False
    then show ?thesis using Cons.IH [of "n + 1"] Cons.prems by auto
  qed
qed simp

text \<open>A request is turned away only when the window already let its share through.\<close>

definition fw_inv :: "int \<Rightarrow> (time \<times> int) option \<Rightarrow> (time \<times> bool) list \<Rightarrow> bool" where
  "fw_inv L st hist =
     (case st of None \<Rightarrow> True
      | Some (s, n) \<Rightarrow> 1 \<le> n \<and>
          min n (max 1 L) \<le> int (length (filter (\<lambda>(t, b). b \<and> s \<le> t) hist)))"

lemma fw_inv_step:
  assumes "fw_inv L st hist" and "case st of None \<Rightarrow> True | Some (s, n) \<Rightarrow> s \<le> t"
  shows "fw_inv L (fst (fw_step L W st t)) (hist @ [(t, snd (fw_step L W st t))])"
  using assms by (cases st) (auto simp: fw_inv_def split: prod.splits if_splits)

lemma fw_run_denied:
  assumes "fw_inv L st hist" and "sorted ts" and "case st of None \<Rightarrow> True | Some (s, n) \<Rightarrow> \<forall>t \<in> set ts. s \<le> t"
    and "i < length ts" and "\<not> fw_run L W st ts ! i"
  shows "max 1 L \<le> int (length (filter (\<lambda>(t, b). b \<and> ts ! i - W < t)
                         (hist @ zip (take i ts) (take i (fw_run L W st ts)))))"
  using assms
proof (induction ts arbitrary: st hist i)
  case (Cons t ts)
  show ?case
  proof (cases i)
    case 0
    then obtain s n where st: "st = Some (s, n)" and W: "t - s < W" and n: "L < n + 1"
      using Cons.prems(5) by (cases st) (auto split: if_splits)
    have "length (filter (\<lambda>(t, b). b \<and> s \<le> t) hist) \<le> length (filter (\<lambda>(u, b). b \<and> t - W < u) hist)"
      using W by (induction hist) auto
    moreover have "max 1 L = min n (max 1 L)" using n Cons.prems(1) st by (simp add: fw_inv_def)
    ultimately show ?thesis using Cons.prems(1) st 0 by (simp add: fw_inv_def)
  next
    case (Suc j)
    let ?st = "fst (fw_step L W st t)" and ?b = "snd (fw_step L W st t)"
    have "case ?st of None \<Rightarrow> True | Some (s, n) \<Rightarrow> \<forall>u \<in> set ts. s \<le> u"
      using Cons.prems(2,3) by (cases st) (auto split: if_splits)
    moreover have "fw_inv L ?st (hist @ [(t, ?b)])"
      using Cons.prems(1,3) by (intro fw_inv_step) (auto split: option.splits)
    ultimately show ?thesis
      using Cons.IH [of ?st "hist @ [(t, ?b)]" j] Cons.prems(2,4,5) Suc by simp
  qed
qed simp

lemma fw_run_admitted:
  "\<forall>t \<in> set ts. a \<le> t \<Longrightarrow>
   length (filter (\<lambda>(t, ok). ok \<and> a \<le> t \<and> t < a + W) (zip ts (fw_run L W st ts)))
   = admitted L W (a + W) st ts"
  by (induction ts arbitrary: st) auto

text \<open>The number let through in an interval, wherever in the run it lies.\<close>

lemma fw_run_interval:
  assumes "sorted ts" and "case st of None \<Rightarrow> True | Some (s, n) \<Rightarrow> 1 \<le> n \<and> (\<forall>t \<in> set ts. s \<le> t)"
  shows "int (length (filter (\<lambda>(t, ok). ok \<and> a \<le> t \<and> t < a + W) (zip ts (fw_run L W st ts)))) \<le> 2 * max 1 L"
  using assms
proof (induction ts arbitrary: st)
  case (Cons t ts)
  show ?case
  proof (cases "a \<le> t")
    case True
    have "int (admitted L W (a + W) st (t # ts)) \<le> 2 * max 1 L"
    proof (cases "st = None \<or> (\<exists>s n. st = Some (s, n) \<and> t - s \<ge> W)")
      case fresh: True
      have "int (admitted L W (a + W) (Some (t, 1)) ts) \<le> max 0 (L - 1)"
        using admitted_one_window [of ts "a + W" t W L 1] Cons.prems(1) True by simp
      then show ?thesis using fresh by auto
    next
      case False
      then obtain s n where st: "st = Some (s, n)" and W: "t - s < W"
        by (cases st) (auto simp: not_le)
      then show ?thesis
        using admitted_two_windows [of "t # ts" "a + W" s W L n] Cons.prems True by auto
    qed
    then show ?thesis using fw_run_admitted [of "t # ts" a W L st] Cons.prems(1) True by fastforce
  next
    case False
    have "case fst (fw_step L W st t) of None \<Rightarrow> True | Some (s, n) \<Rightarrow> 1 \<le> n \<and> (\<forall>t \<in> set ts. s \<le> t)"
      using Cons.prems by (cases st) (auto split: if_splits)
    then show ?thesis using Cons.IH Cons.prems(1) False by simp
  qed
qed simp

section \<open>Runs of the limiter\<close>

datatype rl_event = Request time string string string string | Sweep time

fun ev_time :: "rl_event \<Rightarrow> time" where
  "ev_time (Request t _ _ _ _) = t"
| "ev_time (Sweep t) = t"

fun rl_next :: "rate_limiter \<Rightarrow> rl_event \<Rightarrow> rate_limiter" where
  "rl_next rl (Request t ip u m p) = fst (Allow rl t ip u m p)"
| "rl_next rl (Sweep t) = rl_cleanup rl t"

text \<open>What happens to the requests of key \<open>k\<close>: the time of each and the decision on it.\<close>

fun rl_log :: "string \<Rightarrow> rate_limiter \<Rightarrow> rl_event list \<Rightarrow> (time \<times> bool) list" where
  "rl_log k rl [] = []"
| "rl_log k rl (e # es) =
     (case e of Sweep t \<Rightarrow> []
      | Request t ip u m p \<Rightarrow> if rl_key ip u = k then [(t, fst (snd (Allow rl t ip u m p)))] else [])
     @ rl_log k (rl_next rl e) es"

fun key_times :: "string \<Rightarrow> rl_event list \<Rightarrow> time list" where
  "key_times k [] = []"
| "key_times k (Sweep t # es) = key_times k es"
| "key_times k (Request t ip u m p # es) = (if rl_key ip u = k then [t] else []) @ key_times k es"

text \<open>
  The visitor of a key agrees with the specification's counter, or was swept after its
  window had passed.
\<close>

fun visitor_rel :: "duration \<Rightarrow> time \<Rightarrow> visitor option \<Rightarrow> (time \<times> int) option \<Rightarrow> bool" where
  "visitor_rel W now (Some v) st \<longleftrightarrow> st = Some (v_windowStart v, v_count v)"
| "visitor_rel W now None st \<longleftrightarrow> (case st of None \<Rightarrow> True | Some (s, n) \<Rightarrow> W < now - s)"

lemma visitor_rel_mono: "visitor_rel W t v st \<Longrightarrow> t \<le> t' \<Longrightarrow> visitor_rel W t' v st"
  by (cases v) (auto split: option.splits)

lemma rl_next_config [simp]:
  "rl_rules (rl_next rl e) = rl_rules rl" "rl_fallback (rl_next rl e) = rl_fallback rl"
  by (cases e; simp add: Allow_fallback rl_cleanup_def)+

lemma Allow_rel:
  assumes "rl_rules rl = []" and W: "0 < W" "W \<le> max_int64" "ru_Window (rl_fallback rl) = W"
    and "visitor_rel W t (rl_visitors rl (rl_key ip u)) st"
  shows "fst (snd (Allow rl t ip u m p)) = snd (fw_step (ru_Limit (rl_fallback rl)) W st t)"
    and "visitor_rel W t (rl_visitors (fst (Allow rl t ip u m p)) (rl_key ip u))
           (fst (fw_step (ru_Limit (rl_fallback rl)) W st t))"
  using assms time_sub_ge_iff [of W]
  by (cases "rl_visitors rl (rl_key ip u)"; cases st;
      auto simp: Allow_def getRule_def Let_def)+

lemma cleanup_rel:
  assumes W: "0 < W" "ru_Window (rl_fallback rl) = W"
    and "visitor_rel W t (rl_visitors rl k) st"
  shows "visitor_rel W t (rl_visitors (rl_cleanup rl t) k) st"
  using assms
  by (cases "rl_visitors rl k")
     (auto simp: rl_cleanup_def map_sweep_def visitor_dead_def time_sub_def)

lemma rl_log_refines:
  assumes "rl_rules rl = []" and "0 < W" "W \<le> max_int64" "ru_Window (rl_fallback rl) = W"
    and "sorted (t0 # map ev_time es)" and "visitor_rel W t0 (rl_visitors rl k) st"
  shows "rl_log k rl es = zip (key_times k es) (fw_run (ru_Limit (rl_fallback rl)) W st (key_times k es))"
  using assms
proof (induction es arbitrary: rl t0 st)
  case (Cons e es)
  have rel: "visitor_rel W (ev_time e) (rl_visitors rl k) st"
    using Cons.prems(5,6) by (auto intro: visitor_rel_mono)
  have sort: "sorted (ev_time e # map ev_time es)" using Cons.prems(5) by simp
  note IH = Cons.IH [of "rl_next rl e" "ev_time e", simplified, OF Cons.prems(1-4) sort [simplified]]
  show ?case
  proof (cases e)
    case (Sweep t)
    then have "visitor_rel W (ev_time e) (rl_visitors (rl_next rl e) k) st"
      using cleanup_rel [OF Cons.prems(2,4)] rel by simp
    then show ?thesis using IH Sweep by simp
  next
    case (Request t ip u m p)
    note A = Allow_rel [OF Cons.prems(1-4), of t ip u st m p]
    show ?thesis
    proof (cases "rl_key ip u = k")
      case True
      then show ?thesis using A IH rel Request by simp
    next
      case False
      then have "rl_visitors (rl_next rl e) k = rl_visitors rl k"
        using Request Allow_other by simp
      then show ?thesis using IH rel Request False by simp
    qed
  qed
qed simp

lemma length_fw_run [simp]: "length (fw_run L W st ts) = length ts"
  by (induction ts arbitrary: st) auto

lemma sorted_key_times: "sorted (map ev_time es) \<Longrightarrow> sorted (key_times k es)"
proof (induction es)
  case (Cons e es)
  have "set (key_times k es) \<subseteq> ev_time ` set es" for es
  proof (induction es)
    case (Cons e es)
    then show ?case by (cases e) auto
  qed simp
  then show ?case using Cons by (cases e) fastforce+
qed simp

lemma New_log:
  assumes "0 < W" "W \<le> max_int64" "sorted (map ev_time es)"
  shows "rl_log k (NewRateLimiter L W) es = zip (key_times k es) (fw_run L W None (key_times k es))"
proof (cases es)
  case (Cons e es')
  then show ?thesis
    using rl_log_refines [of "NewRateLimiter L W" W "ev_time e" es k None] assms
    by (simp add: NewRateLimiter_def)
qed simp

section \<open>Properties\<close>

text \<open>C14: A limiter without extra rules, as the router builds it, decides on the requests of
  each key exactly as the counter of that client alone would, whatever requests of other keys
  and sweeps of the background ticker come in between.\<close>

theorem limiter_isolates_clients:
  assumes "0 < W" "W \<le> max_int64" "sorted (map ev_time es)"
  shows "map snd (rl_log k (NewRateLimiter L W) es) = fw_run L W None (key_times k es)"
  using New_log [OF assms] by simp

theorem limiter_isolates_clients_witness:
  "map snd (rl_log ''ip:a'' (NewRateLimiter 1 10)
     [Request 0 ''a'' [] [] [], Request 1 ''b'' [] [] [], Request 2 ''a'' [] [] [], Sweep 30,
      Request 31 ''a'' [] [] []]) = [True, False, True]"
  by (subst limiter_isolates_clients) (simp_all add: rl_key_def)

text \<open>C25: In any interval as long as the window, wherever it begins, at most twice the limit of
  requests of one key are let through (a limit below one counts as one: the first request of
  a window always passes).\<close>

theorem limiter_bound:
  assumes "0 < W" "W \<le> max_int64" "sorted (map ev_time es)"
  shows "int (length (filter (\<lambda>(t, ok). ok \<and> a \<le> t \<and> t < a + W) (rl_log k (NewRateLimiter L W) es)))
         \<le> 2 * max 1 L"
  using New_log [OF assms] fw_run_interval [OF sorted_key_times [OF assms(3)], where st = None] by simp

theorem limiter_bound_witness:
  "int (length (filter (\<lambda>(t, ok). ok \<and> (5 :: int) \<le> t \<and> t < 5 + 10) (rl_log ''ip:a'' (NewRateLimiter 2 10)
     [Request 0 ''a'' [] [] [], Request 9 ''a'' [] [] [], Request 10 ''a'' [] [] [],
      Request 11 ''a'' [] [] [], Request 12 ''a'' [] [] []]))) \<le> 2 * max 1 2"
  by (rule limiter_bound) simp_all

text \<open>A request is refused only for a reason: when the decision on a request of a key at
  time \<open>t\<close> is negative, at least as many requests as the limit were let through for that key
  since \<open>t - W\<close>. So a client that keeps asking is let in again as soon as its window has
  passed.\<close>

theorem limiter_refusal_justified:
  assumes "0 < W" "W \<le> max_int64" "sorted (map ev_time es)"
    and "i < length (rl_log k (NewRateLimiter L W) es)"
    and "rl_log k (NewRateLimiter L W) es ! i = (t, False)"
  shows "max 1 L \<le> int (length (filter (\<lambda>(u, ok). ok \<and> t - W < u)
                          (take i (rl_log k (NewRateLimiter L W) es))))"
  using assms(4,5) fw_run_denied [OF _ sorted_key_times [OF assms(3), of k], of L None "[]" i W]
  by (auto simp: New_log [OF assms(1-3)] fw_inv_def take_zip)

theorem limiter_refusal_justified_witness:
  "max 1 1 \<le> int (length (filter (\<lambda>(u, ok). ok \<and> (2 :: int) - 10 < u)
     (take 1 (rl_log ''ip:a'' (NewRateLimiter 1 10) [Request 0 ''a'' [] [] [], Request 2 ''a'' [] [] []]))))"
  by (rule limiter_refusal_justified)
     (simp_all add: rl_key_def Allow_def NewRateLimiter_def getRule_def Let_def)

end
