(* ===== verification/Csrf.thy ===== *)
theory Csrf
  imports Gin_Context Encoding
begin

text \<open>
  The single-use CSRF tokens of \<open>backend/middleware/csrf.go\<close>.

  SHA-256 is the parameter \<open>sha\<close>. The random bytes of a token and the clock readings are
  arguments. \<open>csrf_spec\<close> is the specification of the store: the time of the last issue of a
  token that nobody has presented since.
\<close>

section \<open>The store\<close>

record csrf_store =
  cs_tokens :: "string \<rightharpoonup> time"
  cs_maxAge :: duration

definition globalCSRF :: csrf_store where
  "globalCSRF = \<lparr>cs_tokens = Map.empty, cs_maxAge = 24 * hour\<rparr>"

definition generateCSRFToken :: "string \<Rightarrow> string" where
  "generateCSRFToken rnd = b64_encode rnd"

definition hashToken :: "(string \<Rightarrow> string) \<Rightarrow> string \<Rightarrow> string" where
  "hashToken sha token = hex_encode (sha token)"

definition SetCSRFToken ::
  "(string \<Rightarrow> string) \<Rightarrow> string \<Rightarrow> time \<Rightarrow> ctx \<Rightarrow> csrf_store \<Rightarrow> ctx \<times> csrf_store" where
  "SetCSRFToken sha rnd now c st =
     (let token = generateCSRFToken rnd; h = hashToken sha token
      in (set_header ''X-CSRF-Token'' token c,
          st\<lparr>cs_tokens := (cs_tokens st)(h \<mapsto> now + cs_maxAge st)\<rparr>))"

definition ValidateCSRFToken ::
  "(string \<Rightarrow> string) \<Rightarrow> time \<Rightarrow> string \<Rightarrow> csrf_store \<Rightarrow> bool \<times> csrf_store" where
  "ValidateCSRFToken sha now token st =
     (let h = hashToken sha token in
      case cs_tokens st h of
        None \<Rightarrow> (False, st)
      | Some expiry \<Rightarrow>
          if now > expiry then (False, st\<lparr>cs_tokens := (cs_tokens st)(h := None)\<rparr>)
          else (True, st\<lparr>cs_tokens := (cs_tokens st)(h := None)\<rparr>))"

definition csrf_expired :: "time \<Rightarrow> time \<Rightarrow> bool" where
  "csrf_expired now expiry \<longleftrightarrow> now > expiry"

definition purgeExpiredCSRFTokens :: "time \<Rightarrow> csrf_store \<Rightarrow> csrf_store" where
  "purgeExpiredCSRFTokens now st = st\<lparr>cs_tokens := map_sweep (csrf_expired now) (cs_tokens st)\<rparr>"

text \<open>
  The middleware, on a part of the server's state that holds the store. \<open>now\<close> is the reading
  of the clock in \<open>ValidateCSRFToken\<close>, \<open>now'\<close> the one in \<open>SetCSRFToken\<close>.
\<close>

definition CSRFMiddleware ::
  "(string \<Rightarrow> string) \<Rightarrow> ('w \<Rightarrow> csrf_store) \<Rightarrow> (csrf_store \<Rightarrow> 'w \<Rightarrow> 'w) \<Rightarrow> string \<Rightarrow> time \<Rightarrow> time \<Rightarrow> 'w middleware" where
  "CSRFMiddleware sha get put rnd now now' next c w =
     (if hasPrefix (getHeader c ''Authorization'') ''Bearer ''
      then let (c', st) = SetCSRFToken sha rnd now' c (get w) in next c' (put st w)
      else if rq_method (cx_req c) \<in> {''GET'', ''HEAD'', ''OPTIONS''}
      then let (c', st) = SetCSRFToken sha rnd now' c (get w) in next c' (put st w)
      else let token = getHeader c ''X-CSRF-Token'' in
           if token = [] then (abort_fail 403 ''CSRF token required'' c, w)
           else let (ok, st) = ValidateCSRFToken sha now token (get w) in
                if \<not> ok then (abort_fail 403 ''Invalid or expired CSRF token'' c, put st w)
                else let (c', st') = SetCSRFToken sha rnd now' c st in next c' (put st' w))"

interpretation csrf_exp: expiring csrf_expired
  by unfold_locales (simp add: csrf_expired_def)

section \<open>Runs of the store\<close>

text \<open>A token is issued, a token is presented, or the hourly purge runs.\<close>

datatype csrf_event = Issue time string | Present time string | Purge time

fun csrf_time :: "csrf_event \<Rightarrow> time" where
  "csrf_time (Issue t _) = t"
| "csrf_time (Present t _) = t"
| "csrf_time (Purge t) = t"

fun csrf_next :: "(string \<Rightarrow> string) \<Rightarrow> csrf_store \<Rightarrow> csrf_event \<Rightarrow> csrf_store" where
  "csrf_next sha st (Issue t rnd) = snd (SetCSRFToken sha rnd t (new_ctx undefined) st)"
| "csrf_next sha st (Present t token) = snd (ValidateCSRFToken sha t token st)"
| "csrf_next sha st (Purge t) = purgeExpiredCSRFTokens t st"

definition csrf_run :: "(string \<Rightarrow> string) \<Rightarrow> csrf_event list \<Rightarrow> csrf_store" where
  "csrf_run sha es = foldl (csrf_next sha) globalCSRF es"

text \<open>When the token was last issued, unless it has been presented since.\<close>

fun csrf_spec :: "string \<Rightarrow> time option \<Rightarrow> csrf_event list \<Rightarrow> time option" where
  "csrf_spec token a [] = a"
| "csrf_spec token a (Issue t rnd # es) =
     csrf_spec token (if b64_encode rnd = token then Some t else a) es"
| "csrf_spec token a (Present t tok # es) = csrf_spec token (if tok = token then None else a) es"
| "csrf_spec token a (Purge t # es) = csrf_spec token a es"

fun csrf_tokens_of :: "csrf_event \<Rightarrow> string set" where
  "csrf_tokens_of (Issue t rnd) = {b64_encode rnd}"
| "csrf_tokens_of (Present t tok) = {tok}"
| "csrf_tokens_of (Purge t) = {}"

lemma SetCSRFToken_snd:
  "snd (SetCSRFToken sha rnd t c st) =
     st\<lparr>cs_tokens := (cs_tokens st)(hashToken sha (b64_encode rnd) \<mapsto> t + cs_maxAge st)\<rparr>"
  by (simp add: SetCSRFToken_def generateCSRFToken_def Let_def)

lemma ValidateCSRFToken_snd:
  "cs_tokens (snd (ValidateCSRFToken sha t tok st)) = (cs_tokens st)(hashToken sha tok := None)"
  "cs_maxAge (snd (ValidateCSRFToken sha t tok st)) = cs_maxAge st"
  by (auto simp: ValidateCSRFToken_def Let_def fun_upd_idem split: option.split)

lemma ValidateCSRFToken_live:
  "fst (ValidateCSRFToken sha t tok st) \<longleftrightarrow> csrf_exp.live (cs_tokens st) t (hashToken sha tok) \<noteq> None"
  by (auto simp: ValidateCSRFToken_def Let_def csrf_exp.live_def map_sweep_def csrf_expired_def
      split: option.split)

lemma csrf_next_maxAge [simp]: "cs_maxAge (csrf_next sha st e) = cs_maxAge st"
  by (cases e) (auto simp: SetCSRFToken_snd ValidateCSRFToken_snd purgeExpiredCSRFTokens_def)

lemma hashToken_eq: "hashToken sha a = hashToken sha b \<longleftrightarrow> sha a = sha b"
  by (simp add: hashToken_def hex_encode_inj)

definition alive_at :: "time \<Rightarrow> duration \<Rightarrow> time option \<Rightarrow> bool" where
  "alive_at t d a = (case a of None \<Rightarrow> False | Some t0 \<Rightarrow> t \<le> t0 + d)"

text \<open>What a token's entry looks like to a reader at a later time agrees with the specification.\<close>

lemma csrf_run_live:
  assumes "inj_on sha (insert tok (\<Union> (csrf_tokens_of ` set es)))" and "\<forall>e \<in> set es. csrf_time e \<le> t"
    and "\<And>e. csrf_exp.live (cs_tokens st) t (hashToken sha tok) = Some e \<longleftrightarrow>
           (\<exists>t0. a = Some t0 \<and> e = t0 + cs_maxAge st \<and> t \<le> e)"
  shows "csrf_exp.live (cs_tokens (foldl (csrf_next sha) st es)) t (hashToken sha tok) = Some e \<longleftrightarrow>
         (\<exists>t0. csrf_spec tok a es = Some t0 \<and> e = t0 + cs_maxAge st \<and> t \<le> e)"
  using assms
proof (induction es arbitrary: st a)
  case (Cons ev es)
  have inj: "inj_on sha (insert tok (\<Union> (csrf_tokens_of ` set es)))"
    using Cons.prems(1) by (rule inj_on_subset) auto
  have le: "\<forall>e \<in> set es. csrf_time e \<le> t" using Cons.prems(2) by simp
  have same: "hashToken sha x = hashToken sha tok \<longleftrightarrow> x = tok" if "x \<in> csrf_tokens_of ev" for x
    using Cons.prems(1) that by (auto simp: hashToken_eq inj_on_def)
  let ?a = "csrf_spec tok a [ev]"
  have step: "csrf_exp.live (cs_tokens (csrf_next sha st ev)) t (hashToken sha tok) = Some e \<longleftrightarrow>
      (\<exists>t0. ?a = Some t0 \<and> e = t0 + cs_maxAge (csrf_next sha st ev) \<and> t \<le> e)" for e
  proof (cases ev)
    case (Issue u rnd)
    show ?thesis
    proof (cases "b64_encode rnd = tok")
      case True
      then show ?thesis
        using Issue by (auto simp: SetCSRFToken_snd csrf_exp.live_def map_sweep_def csrf_expired_def)
    next
      case False
      then have "hashToken sha tok \<noteq> hashToken sha (b64_encode rnd)" using same Issue by force
      then show ?thesis
        using Cons.prems(3) Issue False by (simp add: SetCSRFToken_snd csrf_exp.live_other)
    qed
  next
    case (Present u x)
    have "hashToken sha tok = hashToken sha x \<longleftrightarrow> x = tok"
      using same Present by (metis csrf_tokens_of.simps(2) singletonI)
    then show ?thesis
      using Cons.prems(3) Present
      by (auto simp: ValidateCSRFToken_snd csrf_exp.live_def map_sweep_def)
  next
    case (Purge u)
    then have "u \<le> t" using Cons.prems(2) by simp
    then show ?thesis
      using Cons.prems(3) Purge by (simp add: purgeExpiredCSRFTokens_def csrf_exp.live_sweep)
  qed
  have "csrf_spec tok a (ev # es) = csrf_spec tok ?a es" by (cases ev) simp_all
  then show ?case using Cons.IH [OF inj le step] by simp
qed simp

lemma csrf_run_validate:
  assumes "inj_on sha (insert tok (\<Union> (csrf_tokens_of ` set es)))" and "\<forall>e \<in> set es. csrf_time e \<le> t"
  shows "fst (ValidateCSRFToken sha t tok (csrf_run sha es)) \<longleftrightarrow> alive_at t (24 * hour) (csrf_spec tok None es)"
proof -
  have start: "csrf_exp.live (cs_tokens globalCSRF) t (hashToken sha tok) = Some e \<longleftrightarrow>
      (\<exists>t0. (None :: time option) = Some t0 \<and> e = t0 + cs_maxAge globalCSRF \<and> t \<le> e)" for e
    by (simp add: globalCSRF_def csrf_exp.live_def map_sweep_def)
  show ?thesis
    unfolding ValidateCSRFToken_live csrf_run_def
    using csrf_run_live [OF assms start]
    by (auto simp: alive_at_def globalCSRF_def not_None_eq split: option.splits)
qed

section \<open>Properties\<close>

text \<open>C26: After any sequence of issued tokens, presented tokens and purges, a request that changes
  state and carries no bearer token reaches its handler exactly when its header carries a token
  that was issued at most 24 hours before, and not presented since. A request without a token is
  answered with status 403 and leaves the store as it was, one with any other token is answered
  with status 403 and uses the token up; in both cases the handler does not run. SHA-256 is assumed to be collision-free on the tokens
  of the run.\<close>

theorem csrf_guard:
  assumes "inj_on sha (insert tok (\<Union> (csrf_tokens_of ` set es)))" and "\<forall>e \<in> set es. csrf_time e \<le> t"
    and "tok = getHeader c ''X-CSRF-Token''"
    and "rq_method (cx_req c) \<notin> {''GET'', ''HEAD'', ''OPTIONS''}"
    and "\<not> hasPrefix (getHeader c ''Authorization'') ''Bearer ''"
  shows "CSRFMiddleware sha id (\<lambda>s _. s) rnd t t' h c (csrf_run sha es) =
    (if tok = [] then (abort_fail 403 ''CSRF token required'' c, csrf_run sha es)
     else if alive_at t (24 * hour) (csrf_spec tok None es)
     then h (set_header ''X-CSRF-Token'' (b64_encode rnd) c) (csrf_run sha (es @ [Present t tok, Issue t' rnd]))
     else (abort_fail 403 ''Invalid or expired CSRF token'' c, csrf_run sha (es @ [Present t tok])))"
proof -
  obtain ok st where v: "ValidateCSRFToken sha t tok (csrf_run sha es) = (ok, st)" by fastforce
  have st: "st = csrf_run sha (es @ [Present t tok])" using v by (simp add: csrf_run_def)
  have ok: "ok \<longleftrightarrow> alive_at t (24 * hour) (csrf_spec tok None es)"
    using csrf_run_validate [OF assms(1,2)] v by simp
  have "snd (SetCSRFToken sha rnd t' c st) = csrf_run sha (es @ [Present t tok, Issue t' rnd])"
    by (simp add: st csrf_run_def SetCSRFToken_snd)
  moreover have "fst (SetCSRFToken sha rnd t' c st) = set_header ''X-CSRF-Token'' (b64_encode rnd) c"
    by (simp add: SetCSRFToken_def generateCSRFToken_def Let_def)
  ultimately show ?thesis
    using assms(3-5) v ok st
    by (auto simp: CSRFMiddleware_def Let_def split: prod.splits)
qed

definition csrf_request :: "string \<Rightarrow> ctx" where
  "csrf_request tok = new_ctx \<lparr>rq_method = ''POST'', rq_path = ''/api/v1/scans'',
     rq_headers = [''X-CSRF-Token'' \<mapsto> tok], rq_clientIP = ''10.0.0.1'', rq_params = Map.empty,
     rq_query = Map.empty, rq_contentLength = 0\<rparr>"

theorem csrf_guard_witness:
  "CSRFMiddleware (\<lambda>s. s) id (\<lambda>s _. s) ''b'' 7 7 (\<lambda>c w. (success JNull c, w)) (csrf_request ''YQ'')
     (csrf_run (\<lambda>s. s) [Issue 0 ''a'', Purge 5])
   = (success JNull (set_header ''X-CSRF-Token'' (b64_encode ''b'') (csrf_request ''YQ'')),
      csrf_run (\<lambda>s. s) [Issue 0 ''a'', Purge 5, Present 7 ''YQ'', Issue 7 ''b''])"
proof -
  have e: "b64_encode ''a'' = ''YQ''" by (simp add: b64_encode_def b64_char_def char_of_def bit_0)
  show ?thesis
    by (subst csrf_guard [where tok = "''YQ''"])
       (simp_all add: csrf_request_def new_ctx_def getHeader_def hasPrefix_def alive_at_def e)
qed

end
