(* ===== verification/Sanitize.thy ===== *)
theory Sanitize
  imports Gin_Context
begin

text \<open>
  Input sanitising and upload validation, \<open>backend/middleware/sanitize.go\<close>.

  The JSON parser and printer of the Go library are parameters of the middleware. A handler behind
  it is given the body of the request as it reads it after the middleware replaced it.
\<close>

section \<open>Stripping\<close>

record xss_config =
  xc_StripHTML :: bool
  xc_StripScripts :: bool
  xc_MaxBodyLength :: nat

definition DefaultXSSConfig :: xss_config where
  "DefaultXSSConfig = \<lparr>xc_StripHTML = True, xc_StripScripts = True, xc_MaxBodyLength = 1048576\<rparr>"

definition dangerousHTML :: "string list" where
  "dangerousHTML =
     [''<script'', ''</script'', ''<iframe'', ''</iframe'', ''<object'', ''</object'', ''<embed'', ''</embed'',
      ''onerror='', ''onload='', ''onclick='', ''onmouseover='', ''javascript:'', ''data:text/html'', ''vbscript:'',
      ''<svg'', ''<math'', ''<form'', ''</form'']"

definition hasDangerousContent :: "string \<Rightarrow> bool" where
  "hasDangerousContent s \<longleftrightarrow> list_ex (contains (toLower s)) dangerousHTML"

definition stripped_char :: "char \<Rightarrow> bool" where
  "stripped_char r \<longleftrightarrow> r \<in> {CHR ''<'', CHR ''>'', CHR 0x22, CHR 0x27, CHR ''&''}"

definition sanitizeString :: "xss_config \<Rightarrow> string \<Rightarrow> string" where
  "sanitizeString cfg s =
     (if xc_StripScripts cfg \<and> hasDangerousContent s then filter (\<lambda>r. \<not> stripped_char r) s else s)"

fun sanitizeValue :: "xss_config \<Rightarrow> json \<Rightarrow> json" where
  "sanitizeValue cfg (JStr s) = JStr (sanitizeString cfg s)"
| "sanitizeValue cfg (JObj kvs) = JObj (map (\<lambda>(k, v). (k, sanitizeValue cfg v)) kvs)"
| "sanitizeValue cfg (JArr vs) = JArr (map (sanitizeValue cfg) vs)"
| "sanitizeValue cfg v = v"

section \<open>The middleware\<close>

text \<open>
  \<open>readErr\<close> says whether reading the body fails. The body is read up to the configured length; what
  is beyond is lost. The third component of a request passed on is the new \<open>ContentLength\<close>.
\<close>

definition SanitizeInput ::
  "(string \<Rightarrow> json option) \<Rightarrow> (json \<Rightarrow> string option) \<Rightarrow> xss_config \<Rightarrow> bool \<Rightarrow> string \<Rightarrow>
   (string \<Rightarrow> 'w handler) \<Rightarrow> 'w handler" where
  "SanitizeInput unmarshal marshal cfg readErr body next c w =
     (let set_len = (\<lambda>b. c\<lparr>cx_req := (cx_req c)\<lparr>rq_contentLength := int (length b)\<rparr>\<rparr>) in
      if \<not> contains (getHeader c ''Content-Type'') ''application/json'' then next body c w
      else if rq_method (cx_req c) \<in> {''GET'', ''HEAD'', ''OPTIONS'', ''DELETE''} then next body c w
      else if readErr then (abort_fail 400 ''Failed to read request body'' c, w)
      else let b = take (xc_MaxBodyLength cfg) body in
           if trimSpace b = [] then next b (set_len b) w
           else case unmarshal b of
                  None \<Rightarrow> (abort_fail 400 ''Invalid JSON in request body'' c, w)
                | Some raw \<Rightarrow>
                    if xc_StripScripts cfg \<or> xc_StripHTML cfg then
                      (case marshal (sanitizeValue cfg raw) of
                         Some newBody \<Rightarrow> next newBody (set_len newBody) w
                       | None \<Rightarrow> next b c w)
                    else next b c w)"

section \<open>Firmware uploads\<close>

fun ext_rev :: "string \<Rightarrow> string \<Rightarrow> string" where
  "ext_rev [] acc = []"
| "ext_rev (c # r) acc =
     (if c = CHR ''.'' then c # acc
      else if c = CHR ''/'' \<or> c = CHR 0x5C then []
      else ext_rev r (c # acc))"

text \<open>The loop runs over the file name from its end.\<close>

definition filepathExt :: "string \<Rightarrow> string" where
  "filepathExt filename = ext_rev (rev filename) []"

definition validExts :: "string list" where
  "validExts = [''.bin'', ''.elf'', ''.so'', ''.gz'', ''.tar'', ''.bz2'', ''.xz'', ''.zip'', ''.rar'', ''.7z'', ''.img'',
     ''.fw'', ''.rom'', ''.squashfs'', ''.ubifs'', ''.jffs2'', ''.cramfs'']"

definition firmwareMagicBytes :: "nat list list" where
  "firmwareMagicBytes =
     [[0x1F, 0x8B], [0x42, 0x5A, 0x68], [0xFD, 0x37, 0x7A, 0x58, 0x5A], [0x50, 0x4B, 0x03, 0x04],
      [0x52, 0x61, 0x72, 0x21, 0x1A, 0x07], [0x37, 0x7A, 0xBC, 0xAF, 0x27, 0x1C], [0x7F, 0x45, 0x4C, 0x46]]"

text \<open>Every entry of the table has offset 0.\<close>

definition magic_match :: "string \<Rightarrow> nat list \<Rightarrow> bool" where
  "magic_match data m \<longleftrightarrow> length m \<le> length data \<and> map of_char (take (length m) data) = m"

definition ValidateFirmwareFile :: "string \<Rightarrow> string \<Rightarrow> string option" where
  "ValidateFirmwareFile filename data =
     (if data = [] then Some ''Empty file''
      else if length data > 268435456 then Some ''File too large (max 256MB)''
      else let ext = toLower (filepathExt filename) in
           if ext \<notin> set validExts then Some (''Invalid file extension: '' @ ext)
           else if \<not> list_ex (magic_match data) firmwareMagicBytes
                then Some ''File does not match known firmware magic bytes''
           else None)"

section \<open>Lemmas\<close>

fun json_strings :: "json \<Rightarrow> string list" where
  "json_strings (JStr s) = [s]"
| "json_strings (JObj kvs) = concat (map (\<lambda>(k, v). json_strings v) kvs)"
| "json_strings (JArr vs) = concat (map json_strings vs)"
| "json_strings v = []"

text \<open>The same shape: what is left of a value when its strings are forgotten.\<close>

fun json_shape :: "json \<Rightarrow> json" where
  "json_shape (JStr s) = JStr []"
| "json_shape (JObj kvs) = JObj (map (\<lambda>(k, v). (k, json_shape v)) kvs)"
| "json_shape (JArr vs) = JArr (map json_shape vs)"
| "json_shape v = v"

lemma sanitize_strings: "json_strings (sanitizeValue cfg v) = map (sanitizeString cfg) (json_strings v)"
  by (induction cfg v rule: sanitizeValue.induct) (auto simp: map_concat comp_def intro!: arg_cong [of _ _ concat])

lemma sanitize_shape: "json_shape (sanitizeValue cfg v) = json_shape v"
  by (induction cfg v rule: sanitizeValue.induct) auto

lemma sanitizeString_idem: "sanitizeString cfg (sanitizeString cfg s) = sanitizeString cfg s"
  by (simp add: sanitizeString_def)

lemma sanitizeValue_idem: "sanitizeValue cfg (sanitizeValue cfg v) = sanitizeValue cfg v"
  by (induction cfg v rule: sanitizeValue.induct) (auto simp: sanitizeString_idem)

lemma char_lower_lt: "char_lower c = CHR ''<'' \<longleftrightarrow> c = CHR ''<''"
proof
  assume "char_lower c = CHR ''<''"
  then have "(of_char (char_lower c) :: nat) = 60" by simp
  then have "(of_char c :: nat) = 60"
    by (auto simp: char_lower_def Let_def split: if_splits)
  then show "c = CHR ''<''" using of_char_eq_iff [where 'a = nat, of c "CHR ''<''"] by simp
qed (simp add: char_lower_def)

lemma ext_rev_spec:
  "ext_rev r acc = e \<Longrightarrow> e \<noteq> [] \<Longrightarrow>
   \<exists>a b. r = rev b @ CHR ''.'' # a \<and> e = CHR ''.'' # b @ acc \<and> set b \<inter> {CHR ''.'', CHR ''/'', CHR 0x5C} = {}"
proof (induction r acc rule: ext_rev.induct)
  case (2 c r acc)
  show ?case
  proof (cases "c = CHR ''.''")
    case True
    then show ?thesis using 2 by (intro exI [of _ r] exI [of _ "[]"]) auto
  next
    case False
    then have c: "c \<noteq> CHR ''/''" "c \<noteq> CHR 0x5C" using 2 by (auto split: if_splits)
    then obtain a b where "r = rev b @ CHR ''.'' # a" "e = CHR ''.'' # b @ c # acc" "set b \<inter> {CHR ''.'', CHR ''/'', CHR 0x5C} = {}"
      using 2 False by (auto split: if_splits)
    then show ?thesis using False c by (intro exI [of _ a] exI [of _ "b @ [c]"]) auto
  qed
qed simp

lemma stripped_no_tag:
  assumes "hd p = CHR ''<''" "p \<noteq> []"
  shows "\<not> contains (toLower (filter (\<lambda>r. \<not> stripped_char r) s)) p"
proof
  assume "contains (toLower (filter (\<lambda>r. \<not> stripped_char r) s)) p"
  then have "CHR ''<'' \<in> set (toLower (filter (\<lambda>r. \<not> stripped_char r) s))"
    using assms by (cases p) (auto simp: contains_iff)
  then show False by (auto simp: toLower_def stripped_char_def eq_commute [of "CHR ''<''"] char_lower_lt)
qed

section \<open>Properties\<close>

text \<open>After sanitising with the default configuration no string anywhere in a JSON value contains
  one of the HTML tags on the list, in any case; the structure and the keys of the value are
  unchanged; and sanitising again changes nothing.\<close>

theorem sanitize_removes_tags:
  "(\<forall>s \<in> set (json_strings (sanitizeValue DefaultXSSConfig v)).
      \<forall>p \<in> set dangerousHTML. hd p = CHR ''<'' \<longrightarrow> \<not> contains (toLower s) p) \<and>
   json_shape (sanitizeValue DefaultXSSConfig v) = json_shape v \<and>
   sanitizeValue DefaultXSSConfig (sanitizeValue DefaultXSSConfig v) = sanitizeValue DefaultXSSConfig v"
proof -
  have "\<not> contains (toLower (sanitizeString DefaultXSSConfig s)) p"
    if "p \<in> set dangerousHTML" "hd p = CHR ''<''" for s p
  proof (cases "hasDangerousContent s")
    case True
    have "p \<noteq> []" using that(1) by (auto simp: dangerousHTML_def)
    with True that show ?thesis by (simp add: sanitizeString_def DefaultXSSConfig_def stripped_no_tag)
  next
    case False
    with that show ?thesis by (simp add: sanitizeString_def hasDangerousContent_def list_ex_iff)
  qed
  then show ?thesis by (auto simp: sanitize_strings sanitize_shape sanitizeValue_idem)
qed

theorem sanitize_removes_tags_witness:
  "\<not> contains (toLower (sanitizeString DefaultXSSConfig ''<SVG onload=x>'')) ''<svg''"
proof -
  have "sanitizeString DefaultXSSConfig ''<SVG onload=x>'' \<in> set (json_strings (sanitizeValue DefaultXSSConfig (JStr ''<SVG onload=x>'')))"
    by simp
  moreover have "''<svg'' \<in> set dangerousHTML" by (simp add: dangerousHTML_def)
  ultimately show ?thesis using sanitize_removes_tags [of "JStr ''<SVG onload=x>''"] by (auto simp del: sanitizeValue.simps)
qed

text \<open>The other patterns on the list are not removed, and stripping can even put one together:
  this input contains no script URL, and its sanitised form does.\<close>

theorem sanitize_can_create_script_url:
  "sanitizeValue DefaultXSSConfig (JStr (''java'' @ [CHR 0x27] @ ''script:x <svg'')) = JStr ''javascript:x svg'' \<and>
   hasDangerousContent ''javascript:x svg'' \<and>
   \<not> contains (toLower (''java'' @ [CHR 0x27] @ ''script:x <svg'')) ''javascript:''"
  by (simp add: sanitizeString_def DefaultXSSConfig_def hasDangerousContent_def dangerousHTML_def toLower_def char_lower_def
      hasPrefix_def stripped_char_def)

text \<open>A firmware upload is accepted exactly when it is neither empty nor larger than 256 MB, its
  name ends in an allowed extension after its last path separator, in any case, and its content
  begins with one of the known signatures.\<close>

theorem firmware_accepted_iff:
  "ValidateFirmwareFile filename data = None \<longleftrightarrow>
     data \<noteq> [] \<and> length data \<le> 268435456 \<and>
     (\<exists>a b. filename = a @ ''.'' @ b \<and> set b \<inter> {CHR ''.'', CHR ''/'', CHR 0x5C} = {} \<and> toLower (''.'' @ b) \<in> set validExts) \<and>
     (\<exists>m \<in> set firmwareMagicBytes. magic_match data m)"
proof -
  have "toLower (filepathExt filename) \<in> set validExts \<longleftrightarrow>
    (\<exists>a b. filename = a @ ''.'' @ b \<and> set b \<inter> {CHR ''.'', CHR ''/'', CHR 0x5C} = {} \<and> toLower (''.'' @ b) \<in> set validExts)"
  proof
    assume v: "toLower (filepathExt filename) \<in> set validExts"
    then have "filepathExt filename \<noteq> []" by (auto simp: validExts_def toLower_def)
    then obtain a b where ab: "rev filename = rev b @ CHR ''.'' # a" "filepathExt filename = CHR ''.'' # b"
      "set b \<inter> {CHR ''.'', CHR ''/'', CHR 0x5C} = {}"
      using ext_rev_spec [of "rev filename" "[]"] by (auto simp: filepathExt_def)
    have "rev (rev filename) = rev (rev b @ CHR ''.'' # a)" by (simp only: ab(1))
    then have "filename = rev a @ ''.'' @ b" by simp
    with ab v show "\<exists>a b. filename = a @ ''.'' @ b \<and> set b \<inter> {CHR ''.'', CHR ''/'', CHR 0x5C} = {} \<and> toLower (''.'' @ b) \<in> set validExts"
      by auto
  next
    assume "\<exists>a b. filename = a @ ''.'' @ b \<and> set b \<inter> {CHR ''.'', CHR ''/'', CHR 0x5C} = {} \<and> toLower (''.'' @ b) \<in> set validExts"
    then obtain a b where ab: "filename = a @ ''.'' @ b" "set b \<inter> {CHR ''.'', CHR ''/'', CHR 0x5C} = {}"
      "toLower (''.'' @ b) \<in> set validExts" by blast
    have "ext_rev (rev b @ CHR ''.'' # rev a) acc = CHR ''.'' # b @ acc" for acc
      using ab(2) by (induction b arbitrary: acc rule: rev_induct) auto
    then have "filepathExt filename = CHR ''.'' # b" by (simp add: filepathExt_def ab(1))
    with ab(3) show "toLower (filepathExt filename) \<in> set validExts" by simp
  qed
  then show ?thesis by (auto simp: ValidateFirmwareFile_def Let_def list_ex_iff)
qed

text \<open>The extension \<open>.squashfs\<close> is on the list of allowed extensions, yet no SquashFS image can be
  uploaded under any name: its signature is not among those checked.\<close>

theorem squashfs_never_accepted: "ValidateFirmwareFile filename (''hsqs'' @ rest) \<noteq> None"
  by (simp add: ValidateFirmwareFile_def firmwareMagicBytes_def magic_match_def Let_def)

end
