(* ===== verification/Float64.thy ===== *)
theory Float64
  imports Complex_Main Go_Prelude "HOL-Library.Log_Nat"
begin

text \<open>
  The arithmetic of \<open>float64\<close> on the finite numbers the risk score works with. A \<open>float64\<close> is
  the rational number it stands for; \<open>fl\<close> rounds a rational to the nearest number with a
  significand of 53 bits, ties to even, and the result of every operation is rounded.

  The exponent is unbounded: overflow, subnormal numbers, infinities and NaN are not modelled, and
  no value of the scorer comes near them. The locale \<open>rounding\<close> holds what the score relies on:
  rounding is monotone and exact on the multiples of one half below a bound.
\<close>

section \<open>Rounding to integers\<close>

definition round_even :: "rat \<Rightarrow> int" where
  "round_even q =
     (let f = \<lfloor>q\<rfloor>; r = q - of_int f
      in if r < 1 / 2 then f else if r > 1 / 2 then f + 1 else if even f then f else f + 1)"

lemma round_even_int [simp]: "round_even (of_int n) = n"
  by (simp add: round_even_def)

lemma round_even_bounds: "\<lfloor>q\<rfloor> \<le> round_even q" "round_even q \<le> \<lfloor>q\<rfloor> + 1"
  by (auto simp: round_even_def Let_def)

lemma round_even_mono: "p \<le> q \<Longrightarrow> round_even p \<le> round_even q"
proof -
  assume pq: "p \<le> q"
  then have f: "\<lfloor>p\<rfloor> \<le> \<lfloor>q\<rfloor>" by (rule floor_mono)
  show ?thesis
  proof (cases "\<lfloor>p\<rfloor> = \<lfloor>q\<rfloor>")
    case True
    with pq show ?thesis by (auto simp: round_even_def Let_def)
  next
    case False
    with f have "\<lfloor>p\<rfloor> + 1 \<le> \<lfloor>q\<rfloor>" by simp
    with round_even_bounds(2) [of p] round_even_bounds(1) [of q] show ?thesis by linarith
  qed
qed

section \<open>The exponent\<close>

text \<open>The floor of the binary logarithm of a positive rational.\<close>

definition flog2 :: "rat \<Rightarrow> int" where
  "flog2 x =
     (let (n, d) = quotient_of x; k = int (floorlog 2 (nat n)) - int (floorlog 2 (nat d))
      in if 2 powi k \<le> x then k else k - 1)"

lemma floorlog_2_bounds:
  assumes "0 < n"
  shows "2 powi (int (floorlog 2 n) - 1) \<le> (of_nat n :: rat)" "(of_nat n :: rat) < 2 powi int (floorlog 2 n)"
proof -
  have b: "n < 2 ^ floorlog 2 n" "2 ^ (floorlog 2 n - 1) \<le> n"
    using assms floorlog_bounds [of n 2] by auto
  have pos: "0 < floorlog 2 n" using assms by (simp add: floorlog_def)
  have "(of_nat (2 ^ (floorlog 2 n - 1)) :: rat) \<le> of_nat n" using b(2) by (simp only: of_nat_le_iff)
  moreover have "int (floorlog 2 n) - 1 = int (floorlog 2 n - 1)" using pos by linarith
  ultimately show "2 powi (int (floorlog 2 n) - 1) \<le> (of_nat n :: rat)"
    by (simp only: power_int_of_nat of_nat_power of_nat_numeral)
  have "(of_nat n :: rat) < of_nat (2 ^ floorlog 2 n)" using b(1) by (simp only: of_nat_less_iff)
  then show "(of_nat n :: rat) < 2 powi int (floorlog 2 n)"
    by (simp only: power_int_of_nat of_nat_power of_nat_numeral)
qed

lemma flog2_bounds:
  assumes "0 < x"
  shows "2 powi flog2 x \<le> x" "x < 2 powi (flog2 x + 1)"
proof -
  obtain n d where q: "quotient_of x = (n, d)" by fastforce
  have d: "0 < d" using q quotient_of_denom_pos by blast
  have x: "x = of_int n / of_int d" using q quotient_of_div by blast
  then have n: "0 < n" using assms d by (simp add: zero_less_divide_iff)
  define a b where "a = int (floorlog 2 (nat n))" and "b = int (floorlog 2 (nat d))"
  have na: "2 powi (a - 1) \<le> (of_int n :: rat)" "(of_int n :: rat) < 2 powi a"
    using floorlog_2_bounds [of "nat n"] n by (simp_all add: a_def)
  have db: "2 powi (b - 1) \<le> (of_int d :: rat)" "(of_int d :: rat) < 2 powi b"
    using floorlog_2_bounds [of "nat d"] d by (simp_all add: b_def)
  have pw: "(2 :: rat) powi (i + j) = 2 powi i * 2 powi j" for i j by (simp add: power_int_add)
  have lo: "2 powi (a - b - 1) \<le> x"
  proof -
    have "2 powi (a - b - 1) * of_int d \<le> 2 powi (a - b - 1) * (2 powi b :: rat)"
      using db(2) by (intro mult_left_mono) auto
    also have "\<dots> = 2 powi (a - 1)" using pw [of "a - b - 1" b] by (simp add: algebra_simps)
    also have "\<dots> \<le> of_int n" by (rule na)
    finally show ?thesis using d by (simp add: x field_simps)
  qed
  have hi: "x < 2 powi (a - b + 1)"
  proof -
    have "of_int n < (2 powi a :: rat)" by (rule na)
    also have "\<dots> = 2 powi (a - b + 1) * 2 powi (b - 1)" using pw [of "a - b + 1" "b - 1"] by (simp add: algebra_simps)
    also have "\<dots> \<le> 2 powi (a - b + 1) * of_int d" using db(1) by (intro mult_left_mono) auto
    finally show ?thesis using d by (simp add: x field_simps)
  qed
  have fl: "flog2 x = (if 2 powi (a - b) \<le> x then a - b else a - b - 1)"
    by (simp add: flog2_def q a_def b_def Let_def)
  show "2 powi flog2 x \<le> x" using lo by (simp add: fl)
  show "x < 2 powi (flog2 x + 1)" using hi by (auto simp: fl)
qed

lemma powi2_less_iff: "(2 :: rat) powi i < 2 powi j \<longleftrightarrow> i < j"
  using power_int_strict_increasing [of i j "2 :: rat"] power_int_increasing [of j i "2 :: rat"]
  by (meson linorder_not_le one_le_numeral one_less_numeral_iff semiring_norm(76))

lemma flog2_mono: "0 < x \<Longrightarrow> x \<le> y \<Longrightarrow> flog2 x \<le> flog2 y"
proof -
  assume "0 < x" "x \<le> y"
  then have "(2 :: rat) powi flog2 x < 2 powi (flog2 y + 1)"
    using flog2_bounds [of x] flog2_bounds [of y] by linarith
  then show ?thesis by (simp add: powi2_less_iff)
qed

section \<open>Rounding to 53 bits\<close>

definition fl_pos :: "rat \<Rightarrow> rat" where
  "fl_pos x = (let e = flog2 x - 52 in of_int (round_even (x / 2 powi e)) * 2 powi e)"

definition fl :: "rat \<Rightarrow> rat" where
  "fl x = (if x = 0 then 0 else if x < 0 then - fl_pos (- x) else fl_pos x)"

lemma powi2_pos: "0 < (2 :: rat) powi i"
  by simp

lemma fl_pos_bounds:
  assumes "0 < x"
  shows "2 powi flog2 x \<le> fl_pos x" "fl_pos x \<le> 2 powi (flog2 x + 1)"
proof -
  define e where "e = flog2 x - 52"
  have pw: "(2 :: rat) powi (e + 52) = 2 powi e * of_int (2 ^ 52)" "(2 :: rat) powi (e + 53) = 2 powi e * of_int (2 ^ 53)"
    using power_int_add [of "2 :: rat" e 52] power_int_add [of "2 :: rat" e 53] by simp_all
  have "of_int (2 ^ 52) \<le> x / 2 powi e" "x / 2 powi e \<le> of_int (2 ^ 53)"
    using flog2_bounds [OF assms] pw powi2_pos [of e]
    by (simp_all add: e_def field_simps)
  then have r: "2 ^ 52 \<le> round_even (x / 2 powi e)" "round_even (x / 2 powi e) \<le> 2 ^ 53"
    using round_even_mono [of "of_int (2 ^ 52)" "x / 2 powi e"] round_even_mono [of "x / 2 powi e" "of_int (2 ^ 53)"]
    unfolding round_even_int by simp_all
  have f: "fl_pos x = of_int (round_even (x / 2 powi e)) * 2 powi e" by (simp add: fl_pos_def e_def Let_def)
  have "of_int (2 ^ 52) \<le> (of_int (round_even (x / 2 powi e)) :: rat)" "(of_int (round_even (x / 2 powi e)) :: rat) \<le> of_int (2 ^ 53)"
    using r by (simp_all only: of_int_le_iff)
  then have m: "2 powi e * of_int (2 ^ 52) \<le> fl_pos x" "fl_pos x \<le> 2 powi e * of_int (2 ^ 53)"
    unfolding f mult.commute [of "of_int (round_even (x / 2 powi e))"] by (intro mult_left_mono; simp)+
  have fe: "flog2 x = e + 52" "flog2 x + 1 = e + 53" by (simp_all add: e_def)
  show "2 powi flog2 x \<le> fl_pos x" using m(1) unfolding fe(1) pw(1) .
  show "fl_pos x \<le> 2 powi (flog2 x + 1)" using m(2) unfolding fe(2) pw(2) .
qed

lemma fl_pos_mono: "0 < x \<Longrightarrow> x \<le> y \<Longrightarrow> fl_pos x \<le> fl_pos y"
proof -
  assume x: "0 < x" and xy: "x \<le> y"
  show ?thesis
  proof (cases "flog2 x = flog2 y")
    case True
    have "round_even (x / 2 powi (flog2 y - 52)) \<le> round_even (y / 2 powi (flog2 y - 52))"
      using xy by (intro round_even_mono divide_right_mono) auto
    then show ?thesis using True by (simp add: fl_pos_def Let_def)
  next
    case False
    with flog2_mono [OF x xy] have "flog2 x + 1 \<le> flog2 y" by simp
    then have "(2 :: rat) powi (flog2 x + 1) \<le> 2 powi flog2 y" by (intro power_int_increasing) auto
    with fl_pos_bounds(2) [OF x] fl_pos_bounds(1) [of y] x xy show ?thesis by linarith
  qed
qed

lemma fl_pos_pos: "0 < x \<Longrightarrow> 0 < fl_pos x"
  using fl_pos_bounds(1) [of x] powi2_pos [of "flog2 x"] by linarith

lemma fl_mono: "x \<le> y \<Longrightarrow> fl x \<le> fl y"
  using fl_pos_mono [of x y] fl_pos_mono [of "- y" "- x"] fl_pos_pos [of y] fl_pos_pos [of "- x"]
  by (auto simp: fl_def)

lemma fl_pos_exact:
  assumes "0 < n" "n < 2 ^ 53"
  shows "fl_pos (of_int n * 2 powi k) = of_int n * 2 powi k"
proof -
  let ?x = "of_int n * 2 powi k :: rat"
  have x: "0 < ?x" using assms(1) by simp
  have "?x < 2 powi (k + 53)"
  proof -
    have "(of_int n :: rat) < of_int (2 ^ 53)" using assms(2) by (simp only: of_int_less_iff)
    then have "?x < of_int (2 ^ 53) * 2 powi k" by (intro mult_strict_right_mono) auto
    also have "\<dots> = 2 powi (k + 53)" using power_int_add [of "2 :: rat" k 53] by simp
    finally show ?thesis .
  qed
  with flog2_bounds(1) [OF x] have "(2 :: rat) powi flog2 ?x < 2 powi (k + 53)" by linarith
  then have e: "flog2 ?x - 52 \<le> k" by (simp add: powi2_less_iff)
  define E m where "E = flog2 ?x - 52" and "m = nat (k - (flog2 ?x - 52))"
  have "k = E + int m" using e by (simp add: E_def m_def)
  then have "(2 :: rat) powi k = 2 powi E * of_int (2 ^ m)"
    using power_int_add [of "2 :: rat" E "int m"] by simp
  then have q: "?x / 2 powi E = of_int (n * 2 ^ m)" by simp
  then have "round_even (?x / 2 powi E) = n * 2 ^ m" by (simp only: round_even_int)
  then have "fl_pos ?x = of_int (n * 2 ^ m) * 2 powi E" by (simp add: fl_pos_def Let_def E_def [symmetric])
  also have "\<dots> = ?x" unfolding q [symmetric] by simp
  finally show ?thesis .
qed

lemma fl_exact:
  assumes "\<bar>n\<bar> < 2 ^ 53"
  shows "fl (of_int n * 2 powi k) = of_int n * 2 powi k"
proof -
  consider "n = 0" | "0 < n" | "n < 0" by linarith
  then show ?thesis
  proof cases
    case 3
    then have neg: "of_int n * 2 powi k < (0 :: rat)" by (simp add: mult_neg_pos)
    have "fl_pos (of_int (- n) * 2 powi k) = of_int (- n) * 2 powi k"
      using 3 assms by (intro fl_pos_exact) auto
    then show ?thesis using neg by (simp add: fl_def)
  next
    case 2
    have pos: "fl x = fl_pos x" if "0 < x" for x using that by (simp add: fl_def)
    have "fl (of_int n * 2 powi k) = fl_pos (of_int n * 2 powi k)" by (rule pos) (use 2 in simp)
    then show ?thesis using 2 assms fl_pos_exact [of n k] by simp
  qed (simp add: fl_def)
qed

text \<open>Whole and half numbers are exact.\<close>

lemma fl_half: "\<bar>n\<bar> < 2 ^ 53 \<Longrightarrow> fl (of_int n / 2) = of_int n / 2"
  using fl_exact [of n "-1"] by (simp add: power_int_minus field_simps)

lemma fl_int: "\<bar>n\<bar> < 2 ^ 53 \<Longrightarrow> fl (of_int n) = of_int n"
  using fl_exact [of n 0] by simp

section \<open>What the score relies on\<close>

locale rounding =
  fixes r :: "rat \<Rightarrow> rat"
  assumes mono: "x \<le> y \<Longrightarrow> r x \<le> r y"
    and half: "\<bar>n\<bar> < 2 ^ 53 \<Longrightarrow> r (of_int n / 2) = of_int n / 2"
begin

lemma int: "\<bar>n\<bar> < 2 ^ 52 \<Longrightarrow> r (of_int n) = of_int n"
  using half [of "2 * n"] by simp

lemma zero [simp]: "r 0 = 0"
  using int [of 0] by simp

lemma nonneg: "0 \<le> x \<Longrightarrow> 0 \<le> r x"
  using mono [of 0 x] by simp

lemma upper: "x \<le> of_int n \<Longrightarrow> \<bar>n\<bar> < 2 ^ 52 \<Longrightarrow> r x \<le> of_int n"
  using mono [of x "of_int n"] int by simp

lemma lower: "of_int n \<le> x \<Longrightarrow> \<bar>n\<bar> < 2 ^ 52 \<Longrightarrow> of_int n \<le> r x"
  using mono [of "of_int n" x] int by simp

end

interpretation f64: rounding fl
  by unfold_locales (simp_all add: fl_mono fl_half)

section \<open>Decimal text\<close>

text \<open>
  The driver of the database sends a \<open>float64\<close> as \<open>strconv.FormatFloat(x, 'f', -1, 64)\<close> writes it: with
  the fewest decimals that read back as the same number, and the nearest such decimal. Of the two
  decimals around \<open>x\<close> the nearer is tried first. A number that no decimal with up to 340 places
  stands for, which has no counterpart among the numbers of the program, is left as it is.
\<close>

definition decimal_at :: "nat \<Rightarrow> rat \<Rightarrow> rat option" where
  "decimal_at n x =
     (let f = \<lfloor>x * 10 ^ n\<rfloor>; m = round_even (x * 10 ^ n);
          near = of_int m / 10 ^ n; far = of_int (2 * f + 1 - m) / 10 ^ n
      in if fl near = x then Some near else if fl far = x then Some far else None)"

primrec shortest_from :: "nat \<Rightarrow> nat \<Rightarrow> rat \<Rightarrow> rat" where
  "shortest_from 0 n x = x"
| "shortest_from (Suc k) n x = (case decimal_at n x of Some r \<Rightarrow> r | None \<Rightarrow> shortest_from k (Suc n) x)"

definition shortest :: "rat \<Rightarrow> rat" where
  "shortest x = shortest_from 341 0 x"

text \<open>The text reads back as the number, so it preserves the order.\<close>

lemma decimal_at_reads: "decimal_at n x = Some r \<Longrightarrow> fl r = x"
  by (auto simp: decimal_at_def Let_def split: if_splits)

lemma shortest_reads: "fl x = x \<Longrightarrow> fl (shortest x) = x"
proof -
  have "fl x = x \<Longrightarrow> fl (shortest_from k n x) = x" for k n
    by (induction k arbitrary: n) (auto split: option.split dest: decimal_at_reads)
  then show "fl x = x \<Longrightarrow> fl (shortest x) = x" by (simp add: shortest_def)
qed

lemma shortest_mono: "fl x = x \<Longrightarrow> fl y = y \<Longrightarrow> x \<le> y \<Longrightarrow> shortest x \<le> shortest y"
  using fl_mono [of "shortest y" "shortest x"] by (cases "x = y") (force simp: shortest_reads)+

lemma shortest_unfold:
  "shortest x = (case decimal_at 0 x of Some r \<Rightarrow> r | None \<Rightarrow>
     (case decimal_at 1 x of Some r \<Rightarrow> r | None \<Rightarrow> shortest_from 339 2 x))"
proof -
  have "341 = Suc (Suc 339)" by simp
  then show ?thesis unfolding shortest_def by (simp only: shortest_from.simps One_nat_def numeral_2_eq_2)
qed

text \<open>Whole and half numbers are written exactly.\<close>

lemma shortest_half: "\<bar>m\<bar> < 2 ^ 50 \<Longrightarrow> shortest (of_int m / 2) = of_int m / 2"
proof -
  assume m: "\<bar>m\<bar> < 2 ^ 50"
  have tenth: "decimal_at 1 (of_int m / 2) = Some (of_int m / 2)"
  proof -
    have "of_int m / 2 * 10 = (of_int (5 * m) :: rat)" by simp
    then have "round_even (of_int m / 2 * 10) = 5 * m" by (simp only: round_even_int)
    then show ?thesis using m by (simp add: decimal_at_def Let_def fl_half)
  qed
  show ?thesis
  proof (cases "even m")
    case True
    then obtain k where "m = 2 * k" by blast
    then show ?thesis using m by (simp add: shortest_unfold decimal_at_def Let_def fl_int)
  next
    case False
    then obtain k where k: "m = 2 * k + 1" by (metis oddE)
    have x: "of_int m / 2 = (of_int k + 1 / 2 :: rat)" by (simp add: k add_divide_distrib)
    have f: "\<lfloor>of_int m / 2 :: rat\<rfloor> = k" unfolding x by (rule floor_unique) auto
    have r: "round_even (of_int m / 2) \<in> {k, k + 1}" using round_even_bounds [of "of_int m / 2"] f by auto
    have ne: "fl (of_int j) \<noteq> of_int m / 2" if "j \<in> {k, k + 1}" for j
    proof -
      have "fl (of_int j) = of_int j" using that m k by (intro fl_int) auto
      moreover have "2 * j \<noteq> m" using k by presburger
      then have "(of_int (2 * j) :: rat) \<noteq> of_int m" by (metis of_int_eq_iff)
      ultimately show ?thesis by (simp add: field_simps)
    qed
    have "decimal_at 0 (of_int m / 2) = None"
      using r f ne [of k] ne [of "k + 1"] by (auto simp: decimal_at_def Let_def)
    then show ?thesis by (simp add: shortest_unfold tenth del: One_nat_def)
  qed
qed

section \<open>Fixed-point text\<close>

text \<open>The verbs \<open>%.nf\<close> of package \<open>fmt\<close>: \<open>n\<close> decimals, correctly rounded.\<close>

definition pad_left :: "nat \<Rightarrow> string \<Rightarrow> string" where
  "pad_left n s = replicate (n - length s) (CHR ''0'') @ s"

definition fmt_fixed :: "nat \<Rightarrow> rat \<Rightarrow> string" where
  "fmt_fixed n x =
     (let k = nat (round_even (\<bar>x\<bar> * 10 ^ n))
      in (if x < 0 then ''-'' else []) @ nat_digits (k div 10 ^ n) @
         (if n = 0 then [] else CHR ''.'' # pad_left n (nat_digits (k mod 10 ^ n))))"

end
