(* ===== verification/Models.thy ===== *)
theory Models
  imports Gin_Context Float64
begin

text \<open>
  The data model of \<open>backend/models\<close>: the five structs, a \<open>sql.Null*\<close> field as an option, and
  their \<open>ToJSON\<close> conversions. The \<open>*JSON\<close> struct a conversion builds is only ever encoded, so a
  conversion gives the JSON value directly, with the field names and the \<open>omitempty\<close> flags of
  the struct's tags. Floats are rationals (see \<open>Float64\<close>), and a time in a JSON value is its number
  of nanoseconds.

  \<open>alert_row\<close> and \<open>vuln_row\<close> add the columns that the tables have beyond the structs. \<open>fleet\<close> is
  the part of the database that scanning, scoring and alerting share.
\<close>

section \<open>Nullable values\<close>

definition jstr_opt :: "string option \<Rightarrow> json" where
  "jstr_opt x = (case x of None \<Rightarrow> JNull | Some s \<Rightarrow> JStr s)"

definition jtime_opt :: "time option \<Rightarrow> json" where
  "jtime_opt x = (case x of None \<Rightarrow> JNull | Some t \<Rightarrow> JNum t)"

definition jfloat_opt :: "rat option \<Rightarrow> json" where
  "jfloat_opt x = (case x of None \<Rightarrow> JNull | Some r \<Rightarrow> JFloat r)"

text \<open>A raw message that is left out when empty, and a string slice that is never null.\<close>

definition raw_omitempty :: "string \<Rightarrow> string \<Rightarrow> (string \<times> json) list" where
  "raw_omitempty k raw = (if raw = [] then [] else [(k, JRaw raw)])"

definition jstrings :: "string list option \<Rightarrow> json" where
  "jstrings x = JArr (map JStr (case x of None \<Rightarrow> [] | Some ss \<Rightarrow> ss))"

text \<open>A column of type \<open>NUMERIC(5,4)\<close> takes the decimal text of a number: four decimals, halves away
  from zero, and an error from 10 on.\<close>

definition numeric_4 :: "rat \<Rightarrow> rat option" where
  "numeric_4 x =
     (let y = shortest x;
          r = (if y < 0 then - (of_int \<lfloor>- y * 10000 + 1 / 2\<rfloor> / 10000) else of_int \<lfloor>y * 10000 + 1 / 2\<rfloor> / 10000)
      in if \<bar>r\<bar> < 10 then Some r else None)"

section \<open>Devices\<close>

record device =
  d_ID :: string
  d_IPAddress :: string
  d_MACAddress :: "string option"
  d_Hostname :: "string option"
  d_Vendor :: "string option"
  d_DeviceType :: string
  d_OSFingerprint :: "string option"
  d_FirmwareVersion :: "string option"
  d_FirstSeen :: time
  d_LastSeen :: time
  d_RiskScore :: rat
  d_IsActive :: bool
  d_Tags :: "string list option"
  d_RawNmap :: string

definition device_ToJSON :: "device \<Rightarrow> json" where
  "device_ToJSON d = JObj
     ([(''id'', JStr (d_ID d)), (''ip_address'', JStr (d_IPAddress d)),
       (''mac_address'', jstr_opt (d_MACAddress d)), (''hostname'', jstr_opt (d_Hostname d)),
       (''vendor'', jstr_opt (d_Vendor d)), (''device_type'', JStr (d_DeviceType d)),
       (''os_fingerprint'', jstr_opt (d_OSFingerprint d)), (''firmware_version'', jstr_opt (d_FirmwareVersion d)),
       (''first_seen'', JNum (d_FirstSeen d)), (''last_seen'', JNum (d_LastSeen d)),
       (''risk_score'', JFloat (d_RiskScore d)), (''is_active'', JBool (d_IsActive d)),
       (''tags'', jstrings (d_Tags d))]
      @ raw_omitempty ''raw_nmap'' (d_RawNmap d))"

section \<open>Scans\<close>

record scan =
  s_ID :: string
  s_DeviceID :: "string option"
  s_StartedAt :: time
  s_CompletedAt :: "time option"
  s_Status :: string
  s_ScanType :: string
  s_OpenPorts :: string
  s_Services :: string
  s_ScanOutput :: "string option"

definition scan_ToJSON :: "scan \<Rightarrow> json" where
  "scan_ToJSON s = JObj
     ([(''id'', JStr (s_ID s)), (''device_id'', jstr_opt (s_DeviceID s)), (''started_at'', JNum (s_StartedAt s)),
       (''completed_at'', jtime_opt (s_CompletedAt s)), (''status'', JStr (s_Status s)),
       (''scan_type'', JStr (s_ScanType s))]
      @ raw_omitempty ''open_ports'' (s_OpenPorts s) @ raw_omitempty ''services'' (s_Services s)
      @ (case s_ScanOutput s of None \<Rightarrow> [] | Some out \<Rightarrow> [(''scan_output'', JStr out)]))"

section \<open>Vulnerabilities\<close>

record vulnerability =
  vu_ID :: string
  vu_DeviceID :: "string option"
  vu_ScanID :: "string option"
  vu_CVEID :: "string option"
  vu_CVSSScore :: "rat option"
  vu_Severity :: string
  vu_Title :: string
  vu_Description :: "string option"
  vu_AffectedComponent :: "string option"
  vu_Remediation :: "string option"
  vu_IsKEV :: bool
  vu_DiscoveredAt :: time
  vu_ResolvedAt :: "time option"
  vu_IsResolved :: bool

definition vulnerability_ToJSON :: "'a vulnerability_scheme \<Rightarrow> json" where
  "vulnerability_ToJSON v = JObj
     [(''id'', JStr (vu_ID v)), (''device_id'', jstr_opt (vu_DeviceID v)), (''scan_id'', jstr_opt (vu_ScanID v)),
      (''cve_id'', jstr_opt (vu_CVEID v)), (''cvss_score'', jfloat_opt (vu_CVSSScore v)),
      (''severity'', JStr (vu_Severity v)), (''title'', JStr (vu_Title v)),
      (''description'', jstr_opt (vu_Description v)), (''affected_component'', jstr_opt (vu_AffectedComponent v)),
      (''remediation'', jstr_opt (vu_Remediation v)), (''is_kev'', JBool (vu_IsKEV v)),
      (''discovered_at'', JNum (vu_DiscoveredAt v)), (''resolved_at'', jtime_opt (vu_ResolvedAt v)),
      (''is_resolved'', JBool (vu_IsResolved v))]"

record vuln_row = vulnerability +
  vu_epss_score :: "rat option"
  vu_epss_percentile :: "rat option"
  vu_epss_updated_at :: "time option"

section \<open>Firmware\<close>

record firmware =
  fw_ID :: string
  fw_DeviceID :: "string option"
  fw_Version :: "string option"
  fw_Vendor :: "string option"
  fw_Checksum :: "string option"
  fw_FilePath :: "string option"
  fw_AnalyzedAt :: "time option"
  fw_EntropyScore :: rat
  fw_HasDefaultCreds :: bool
  fw_HasTelnet :: bool
  fw_HasBackdoorIndicators :: bool
  fw_StringsOfInterest :: "string list option"
  fw_CVEMatches :: "string list option"
  fw_AnalysisStatus :: string
  fw_AnalysisReport :: string

definition firmware_ToJSON :: "firmware \<Rightarrow> json" where
  "firmware_ToJSON f = JObj
     ([(''id'', JStr (fw_ID f)), (''device_id'', jstr_opt (fw_DeviceID f)), (''version'', jstr_opt (fw_Version f)),
       (''vendor'', jstr_opt (fw_Vendor f)), (''checksum'', jstr_opt (fw_Checksum f)),
       (''file_path'', jstr_opt (fw_FilePath f)), (''analyzed_at'', jtime_opt (fw_AnalyzedAt f)),
       (''entropy_score'', JFloat (fw_EntropyScore f)), (''has_default_creds'', JBool (fw_HasDefaultCreds f)),
       (''has_telnet'', JBool (fw_HasTelnet f)), (''has_backdoor_indicators'', JBool (fw_HasBackdoorIndicators f)),
       (''strings_of_interest'', jstrings (fw_StringsOfInterest f)), (''cve_matches'', jstrings (fw_CVEMatches f)),
       (''analysis_status'', JStr (fw_AnalysisStatus f))]
      @ raw_omitempty ''analysis_report'' (fw_AnalysisReport f))"

text \<open>
  A row of the table: the struct above holds the score as a plain \<open>float64\<close>, the column is
  nullable and NULL until the image has been analysed.
\<close>

record firmware_row =
  fr_id :: string
  fr_device_id :: "string option"
  fr_version :: "string option"
  fr_vendor :: "string option"
  fr_checksum :: "string option"
  fr_file_path :: "string option"
  fr_analyzed_at :: "time option"
  fr_entropy_score :: "rat option"
  fr_has_default_creds :: bool
  fr_has_telnet :: bool
  fr_has_backdoor_indicators :: bool
  fr_strings_of_interest :: "string list option"
  fr_cve_matches :: "string list option"
  fr_analysis_status :: string
  fr_analysis_report :: string
  fr_file_size_bytes :: "int option"
  fr_original_filename :: "string option"
  fr_upload_source :: string

section \<open>Alerts\<close>

record alert =
  al_ID :: string
  al_DeviceID :: "string option"
  al_Severity :: string
  al_AlertType :: string
  al_Title :: string
  al_Description :: "string option"
  al_TriggeredAt :: time
  al_AcknowledgedAt :: "time option"
  al_IsAcknowledged :: bool
  al_Metadata :: string

definition alert_ToJSON :: "'a alert_scheme \<Rightarrow> json" where
  "alert_ToJSON a = JObj
     ([(''id'', JStr (al_ID a)), (''device_id'', jstr_opt (al_DeviceID a)), (''severity'', JStr (al_Severity a)),
       (''alert_type'', JStr (al_AlertType a)), (''title'', JStr (al_Title a)),
       (''description'', jstr_opt (al_Description a)), (''triggered_at'', JNum (al_TriggeredAt a)),
       (''acknowledged_at'', jtime_opt (al_AcknowledgedAt a)), (''is_acknowledged'', JBool (al_IsAcknowledged a))]
      @ raw_omitempty ''metadata'' (al_Metadata a))"

record alert_row = alert +
  al_webhook_sent :: bool
  al_webhook_sent_at :: "time option"

section \<open>The shared tables\<close>

record fleet =
  fl_devices :: "device list"
  fl_scans :: "scan list"
  fl_vulns :: "vuln_row list"
  fl_firmware :: "firmware_row list"
  fl_alerts :: "alert_row list"

end
