(* ===== verification/Metrics.thy ===== *)
theory Metrics
  imports Models
begin

text \<open>
  The request counters of \<open>backend/middleware/metrics.go\<close> and their text rendering.

  The store is the struct \<open>Metrics\<close>; the maps' iteration order, which Go leaves open, is an argument
  of the handler. Latencies are \<open>float64\<close> seconds.
\<close>

section \<open>Paths\<close>

definition isUUID :: "string \<Rightarrow> bool" where
  "isUUID s \<longleftrightarrow> length s = 36 \<and>
     list_all (\<lambda>r. is_digit r \<or> r \<in> set ''abcdef'' \<or> r = CHR ''-'') s"

definition isNumeric :: "string \<Rightarrow> bool" where
  "isNumeric s \<longleftrightarrow> s \<noteq> [] \<and> list_all is_digit s"

definition normalize_part :: "string \<Rightarrow> string" where
  "normalize_part p = (if isUUID p \<or> isNumeric p then '':id'' else p)"

definition normalizePath :: "string \<Rightarrow> string" where
  "normalizePath path = join CHR ''/'' (map normalize_part (split CHR ''/'' path))"

definition prometheusLabelKey :: "string \<Rightarrow> string" where
  "prometheusLabelKey s =
     concat (map (\<lambda>r. if r = CHR '' '' \<or> r = CHR ''/'' then ''_'' else if r = CHR 0x22 then [] else [r]) s)"

section \<open>The store\<close>

record metrics =
  mt_requestsTotal :: "string \<rightharpoonup> int"
  mt_requestsActive :: int
  mt_errorsTotal :: "string \<rightharpoonup> int"
  mt_latencyBuckets :: "string \<rightharpoonup> rat list"
  mt_uptimeStart :: time

definition new_metrics :: "time \<Rightarrow> metrics" where
  "new_metrics now = \<lparr>mt_requestsTotal = Map.empty, mt_requestsActive = 0, mt_errorsTotal = Map.empty,
     mt_latencyBuckets = Map.empty, mt_uptimeStart = now\<rparr>"

definition maxLatencySamples :: nat where
  "maxLatencySamples = 1000"

text \<open>\<open>m[k]++\<close> and the value of a missing key.\<close>

definition counter :: "(string \<rightharpoonup> int) \<Rightarrow> string \<Rightarrow> int" where
  "counter m k = (case m k of None \<Rightarrow> 0 | Some n \<Rightarrow> n)"

definition bump :: "string \<Rightarrow> (string \<rightharpoonup> int) \<Rightarrow> (string \<rightharpoonup> int)" where
  "bump k m = m(k \<mapsto> counter m k + 1)"

definition bucket_of :: "(string \<rightharpoonup> rat list) \<Rightarrow> string \<Rightarrow> rat list" where
  "bucket_of m k = (case m k of None \<Rightarrow> [] | Some b \<Rightarrow> b)"

text \<open>\<open>Duration.Seconds\<close>, for a duration that is not negative.\<close>

definition seconds :: "duration \<Rightarrow> rat" where
  "seconds d = fl (of_int (d div second) + fl (of_int (d mod second) / 1000000000))"

definition metrics_key :: "ctx \<Rightarrow> string" where
  "metrics_key c = rq_method (cx_req c) @ '' '' @ normalizePath (rq_path (cx_req c))"

definition error_key :: "ctx \<Rightarrow> string" where
  "error_key c = itoa (cx_status c) @ '' '' @ metrics_key c"

text \<open>What the middleware does under the lock, once the request has been served.\<close>

definition record_request :: "rat \<Rightarrow> ctx \<Rightarrow> metrics \<Rightarrow> metrics" where
  "record_request latency c m =
     (let k = metrics_key c; bucket = bucket_of (mt_latencyBuckets m) k;
          m1 = m\<lparr>mt_requestsTotal := bump k (mt_requestsTotal m)\<rparr>;
          m2 = (if length bucket < maxLatencySamples
                then m1\<lparr>mt_latencyBuckets := (mt_latencyBuckets m1)(k \<mapsto> bucket @ [latency])\<rparr> else m1)
      in if cx_status c \<ge> 400 then m2\<lparr>mt_errorsTotal := bump (error_key c) (mt_errorsTotal m2)\<rparr> else m2)"

definition add_active :: "int \<Rightarrow> metrics \<Rightarrow> metrics" where
  "add_active d m = m\<lparr>mt_requestsActive := mt_requestsActive m + d\<rparr>"

text \<open>
  The gauge is lowered by a deferred call, so also when a handler panics; the counters are left
  alone then.
\<close>

definition MetricsMiddleware ::
  "('w \<Rightarrow> metrics) \<Rightarrow> (metrics \<Rightarrow> 'w \<Rightarrow> 'w) \<Rightarrow> time \<Rightarrow> time \<Rightarrow> 'w middleware" where
  "MetricsMiddleware get put start stop next c w =
     (let (c', w') = next c (put (add_active 1 (get w)) w)
      in if cx_panicked c' then (c', put (add_active (-1) (get w')) w')
         else (c', put (add_active (-1) (record_request (seconds (stop - start)) c' (get w'))) w'))"

section \<open>The rendering\<close>

definition quoted :: "string \<Rightarrow> string" where
  "quoted s = [CHR 0x22] @ s @ [CHR 0x22]"

definition nl :: string where
  "nl = [CHR 0x0A]"

definition counter_lines :: "string \<Rightarrow> string \<Rightarrow> (string \<rightharpoonup> int) \<Rightarrow> string list \<Rightarrow> string" where
  "counter_lines name label m keys =
     concat (map (\<lambda>k. name @ ''{'' @ label @ ''='' @ quoted (prometheusLabelKey k) @ ''} '' @ itoa (counter m k) @ nl) keys)"

definition bucket_avg :: "rat list \<Rightarrow> rat" where
  "bucket_avg b = fl (foldl (\<lambda>s v. fl (s + v)) 0 b / of_nat (length b))"

definition latency_lines :: "(string \<rightharpoonup> rat list) \<Rightarrow> string list \<Rightarrow> string" where
  "latency_lines m keys =
     concat (map (\<lambda>k. let b = bucket_of m k in
        if b = [] then [] else ''seagles_request_latency_seconds{endpoint='' @ quoted (prometheusLabelKey k) @ ''} ''
          @ fmt_fixed 6 (bucket_avg b) @ nl) keys)"

text \<open>\<open>ks\<close>, \<open>es\<close> and \<open>ls\<close> are the orders in which the three loops meet the keys.\<close>

definition metrics_text :: "string list \<Rightarrow> string list \<Rightarrow> string list \<Rightarrow> time \<Rightarrow> metrics \<Rightarrow> string" where
  "metrics_text ks es ls now m =
     ''# HELP seagles_uptime_seconds Service uptime'' @ nl @
     ''# TYPE seagles_uptime_seconds gauge'' @ nl @
     ''seagles_uptime_seconds '' @ fmt_fixed 0 (seconds (now - mt_uptimeStart m)) @ nl @
     nl @ ''# HELP seagles_requests_active Currently active requests'' @ nl @
     ''# TYPE seagles_requests_active gauge'' @ nl @
     ''seagles_requests_active '' @ itoa (mt_requestsActive m) @ nl @
     nl @ ''# HELP seagles_requests_total Total requests by endpoint'' @ nl @
     ''# TYPE seagles_requests_total counter'' @ nl @
     counter_lines ''seagles_requests_total'' ''endpoint'' (mt_requestsTotal m) ks @
     nl @ ''# HELP seagles_errors_total Total errors by endpoint'' @ nl @
     ''# TYPE seagles_errors_total counter'' @ nl @
     counter_lines ''seagles_errors_total'' ''error'' (mt_errorsTotal m) es @
     nl @ ''# HELP seagles_request_latency_seconds Request latency'' @ nl @
     ''# TYPE seagles_request_latency_seconds summary'' @ nl @
     latency_lines (mt_latencyBuckets m) ls"

text \<open>The reply is plain text, written as a raw body.\<close>

definition MetricsHandler ::
  "('w \<Rightarrow> metrics) \<Rightarrow> string list \<Rightarrow> string list \<Rightarrow> string list \<Rightarrow> time \<Rightarrow> 'w handler" where
  "MetricsHandler get ks es ls now c w = (reply 200 (JRaw (metrics_text ks es ls now (get w))) c, w)"

section \<open>Lemmas\<close>

lemma normalize_part_idem [simp]: "normalize_part (normalize_part p) = normalize_part p"
  by (simp add: normalize_part_def isUUID_def isNumeric_def is_digit_def)

text \<open>Normalising twice changes nothing: no part of the result is taken for an identifier again.\<close>

lemma normalizePath_idem: "normalizePath (normalizePath p) = normalizePath p"
proof -
  have "split CHR ''/'' (join CHR ''/'' (map normalize_part (split CHR ''/'' p))) = map normalize_part (split CHR ''/'' p)"
  proof (rule split_join)
    show "map normalize_part (split CHR ''/'' p) \<noteq> []"
      by simp
    show "\<forall>q \<in> set (map normalize_part (split CHR ''/'' p)). CHR ''/'' \<notin> set q"
      using split_parts(2) [of _ "CHR ''/''" p] by (auto simp: normalize_part_def)
  qed
  then show ?thesis by (simp add: normalizePath_def comp_def)
qed

lemma counter_bump [simp]: "counter (bump k m) k' = counter m k' + (if k' = k then 1 else 0)"
  by (simp add: bump_def counter_def)

lemma add_active_simps [simp]:
  "mt_requestsTotal (add_active d m) = mt_requestsTotal m" "mt_errorsTotal (add_active d m) = mt_errorsTotal m"
  "mt_latencyBuckets (add_active d m) = mt_latencyBuckets m"
  "mt_requestsActive (add_active d m) = mt_requestsActive m + d"
  by (simp_all add: add_active_def)

lemma record_request_simps:
  "counter (mt_requestsTotal (record_request l c m)) k =
     counter (mt_requestsTotal m) k + (if k = metrics_key c then 1 else 0)"
  "counter (mt_errorsTotal (record_request l c m)) k =
     counter (mt_errorsTotal m) k + (if cx_status c \<ge> 400 \<and> k = error_key c then 1 else 0)"
  "mt_requestsActive (record_request l c m) = mt_requestsActive m"
  by (simp_all add: record_request_def Let_def)

lemma record_request_bucket:
  assumes "length (bucket_of (mt_latencyBuckets m) k) = min 1000 n"
  shows "length (bucket_of (mt_latencyBuckets (record_request l c m)) k) =
         min 1000 (n + (if k = metrics_key c then 1 else 0))"
  using assms by (auto simp: record_request_def Let_def maxLatencySamples_def bucket_of_def)

section \<open>Runs\<close>

text \<open>A request with the readings of the clock around it; \<open>h\<close> stands for the handlers behind the middleware.\<close>

definition serve_metrics :: "(ctx \<Rightarrow> ctx) \<Rightarrow> ctx \<times> time \<times> time \<Rightarrow> metrics \<Rightarrow> metrics" where
  "serve_metrics h r m =
     (case r of (c, start, stop) \<Rightarrow> snd (MetricsMiddleware id (\<lambda>m _. m) start stop (\<lambda>c m. (h c, m)) c m))"

definition hits :: "(ctx \<Rightarrow> ctx) \<Rightarrow> (ctx \<Rightarrow> bool) \<Rightarrow> (ctx \<times> time \<times> time) list \<Rightarrow> nat" where
  "hits h P rs = length (filter (\<lambda>r. \<not> cx_panicked (h (fst r)) \<and> P (h (fst r))) rs)"

lemma serve_metrics_eq:
  "serve_metrics h r m =
     (let c = h (fst r) in
      add_active (-1) (if cx_panicked c then add_active 1 m
        else record_request (seconds (snd (snd r) - fst (snd r))) c (add_active 1 m)))"
  by (cases r) (simp add: serve_metrics_def MetricsMiddleware_def Let_def)

text \<open>The counters are exact. After any sequence of requests served one after the other, the
  total of an endpoint is the number of requests for it that did not panic, the error total of a
  status and endpoint is the number of those that were answered with it, no request counts as
  active, and the latency sample of an endpoint has one entry per request up to a thousand.\<close>

theorem metrics_exact:
  "let m = fold (serve_metrics h) rs (new_metrics t0)
   in counter (mt_requestsTotal m) k = int (hits h (\<lambda>c. metrics_key c = k) rs) \<and>
      counter (mt_errorsTotal m) e = int (hits h (\<lambda>c. cx_status c \<ge> 400 \<and> error_key c = e) rs) \<and>
      mt_requestsActive m = 0 \<and>
      length (bucket_of (mt_latencyBuckets m) k) = min 1000 (hits h (\<lambda>c. metrics_key c = k) rs)"
proof (induction rs rule: rev_induct)
  case Nil
  show ?case by (simp add: new_metrics_def counter_def hits_def bucket_of_def)
next
  case (snoc r rs)
  define m where "m = fold (serve_metrics h) rs (new_metrics t0)"
  have split: "hits h P (rs @ [r]) = hits h P rs + (if \<not> cx_panicked (h (fst r)) \<and> P (h (fst r)) then 1 else 0)" for P
    by (simp add: hits_def)
  have m': "fold (serve_metrics h) (rs @ [r]) (new_metrics t0) = serve_metrics h r m" by (simp add: m_def)
  note ih = snoc.IH [folded m_def, unfolded Let_def]
  show ?case
  proof (cases "cx_panicked (h (fst r))")
    case True
    with ih show ?thesis unfolding m' Let_def split by (simp add: serve_metrics_eq)
  next
    case False
    with ih show ?thesis unfolding m' Let_def split
      using record_request_bucket [of "add_active 1 m" k] by (simp add: serve_metrics_eq Let_def record_request_simps)
  qed
qed

end
