(* ===== verification/Audit_Log.thy ===== *)
theory Audit_Log
  imports Gin_Context
begin

text \<open>
  The audit trail of \<open>backend/middleware/audit.go\<close>: the middleware that records write requests in
  the table \<open>audit_log\<close>, and the handler that lists it.

  \<open>user_id\<close> is a UUID column that references \<open>users\<close>: \<open>user_exists\<close> tells whether a text names a
  row of that table, and the insert fails when it does not, as it does for the empty string, which
  is no UUID. \<open>err\<close> is any other reason for which the statement may fail.
\<close>

section \<open>Entries\<close>

record audit_entry =
  ae_UserID :: string
  ae_Username :: string
  ae_Action :: string
  ae_Resource :: string
  ae_ResourcID :: string
  ae_Detail :: string
  ae_IPAddress :: string
  ae_UserAgent :: string
  ae_Status :: int
  ae_LatencyMs :: int

record audit_row =
  au_id :: string
  au_user_id :: "string option"
  au_username :: string
  au_action :: string
  au_resource :: string
  au_resource_id :: "string option"
  au_detail :: "string option"
  au_ip_address :: string
  au_user_agent :: string
  au_status_code :: int
  au_latency_ms :: int
  au_created_at :: time

definition writeMethods :: "string list" where
  "writeMethods = [''POST'', ''PUT'', ''PATCH'', ''DELETE'']"

definition isWriteMethod :: "string \<Rightarrow> bool" where
  "isWriteMethod meth \<longleftrightarrow> list_ex (\<lambda>m. meth = m) writeMethods"

section \<open>The middleware\<close>

definition audit_entry_of :: "duration \<Rightarrow> ctx \<Rightarrow> audit_entry" where
  "audit_entry_of d c =
     \<lparr>ae_UserID = get_string c ''user_id'', ae_Username = get_string c ''username'',
      ae_Action = rq_method (cx_req c), ae_Resource = rq_path (cx_req c), ae_ResourcID = getParam c ''id'',
      ae_Detail = [], ae_IPAddress = rq_clientIP (cx_req c), ae_UserAgent = getHeader c ''User-Agent'',
      ae_Status = cx_status c, ae_LatencyMs = d div 1000 div 1000\<rparr>"

text \<open>The row the \<open>INSERT\<close> writes: it names no \<open>detail\<close>, and the other values are never NULL.\<close>

definition audit_row_of :: "string \<Rightarrow> time \<Rightarrow> audit_entry \<Rightarrow> audit_row" where
  "audit_row_of uuid now e =
     \<lparr>au_id = uuid, au_user_id = Some (ae_UserID e), au_username = ae_Username e, au_action = ae_Action e,
      au_resource = ae_Resource e, au_resource_id = Some (ae_ResourcID e), au_detail = None,
      au_ip_address = ae_IPAddress e, au_user_agent = ae_UserAgent e, au_status_code = ae_Status e,
      au_latency_ms = ae_LatencyMs e, au_created_at = now\<rparr>"

record audit_env =
  av_start :: time
  av_stop :: time
  av_now :: time
  av_uuid :: string
  av_err :: "audit_entry \<Rightarrow> string option"

definition insert_audit ::
  "(string \<Rightarrow> bool) \<Rightarrow> audit_env \<Rightarrow> audit_entry \<Rightarrow> audit_row list \<Rightarrow> audit_row list" where
  "insert_audit user_exists av e rows =
     (if ae_UserID e = [] \<or> \<not> user_exists (ae_UserID e) \<or> av_err av e \<noteq> None then rows
      else rows @ [audit_row_of (av_uuid av) (av_now av) e])"

definition AuditLogger ::
  "('w \<Rightarrow> audit_row list) \<Rightarrow> (audit_row list \<Rightarrow> 'w \<Rightarrow> 'w) \<Rightarrow> ('w \<Rightarrow> string \<Rightarrow> bool) \<Rightarrow> audit_env \<Rightarrow> string list \<Rightarrow>
   'w middleware" where
  "AuditLogger get put user_exists av skipPaths next c w =
     (if rq_path (cx_req c) \<in> set skipPaths then next c w
      else let (c', w') = next c w in
           if cx_panicked c' then (c', w')
           else if \<not> isWriteMethod (rq_method (cx_req c')) then (c', w')
           else (c', put (insert_audit (user_exists w') av (audit_entry_of (av_stop av - av_start av) c') (get w')) w'))"

section \<open>The listing\<close>

definition audit_limit :: "ctx \<Rightarrow> int" where
  "audit_limit c =
     (let v = getQuery c ''limit'' in
      if v = [] then 100 else case atoi v of (n, ok) \<Rightarrow> if ok \<and> n \<ge> 1 \<and> n \<le> 500 then n else 100)"

definition audit_offset :: "ctx \<Rightarrow> int" where
  "audit_offset c =
     (let v = getQuery c ''offset'' in
      if v = [] then 0 else case atoi v of (n, ok) \<Rightarrow> if ok \<and> n \<ge> 0 then n else 0)"

definition audit_json :: "audit_row \<Rightarrow> json" where
  "audit_json r = JObj
     [(''id'', JStr (au_id r)), (''user_id'', (case au_user_id r of None \<Rightarrow> JNull | Some u \<Rightarrow> JStr u)),
      (''username'', JStr (au_username r)), (''action'', JStr (au_action r)), (''resource'', JStr (au_resource r)),
      (''resource_id'', (case au_resource_id r of None \<Rightarrow> JNull | Some i \<Rightarrow> JStr i)),
      (''detail'', (case au_detail r of None \<Rightarrow> JNull | Some d \<Rightarrow> JStr d)),
      (''ip_address'', JStr (au_ip_address r)), (''user_agent'', JStr (au_user_agent r)),
      (''status_code'', JNum (au_status_code r)), (''latency_ms'', JNum (au_latency_ms r)),
      (''created_at'', JNum (au_created_at r))]"

definition audit_page :: "ctx \<Rightarrow> audit_row list \<Rightarrow> audit_row list" where
  "audit_page c rows =
     take (nat (audit_limit c)) (drop (nat (audit_offset c)) (sort_key (\<lambda>r. - au_created_at r) rows))"

definition ListAuditLogsHandler ::
  "('w \<Rightarrow> audit_row list) \<Rightarrow> (nat \<Rightarrow> string option) \<Rightarrow> 'w handler" where
  "ListAuditLogsHandler get err c w =
     (if err 0 \<noteq> None then (fail 500 ''Failed to query audit log'' c, w)
      else if err 1 \<noteq> None then (fail 500 ''Failed to iterate audit log'' c, w)
      else (success (JArr (map audit_json (audit_page c (get w)))) c, w))"

section \<open>Lemmas\<close>

lemma audit_limit_range: "1 \<le> audit_limit c" "audit_limit c \<le> 500"
  by (auto simp: audit_limit_def Let_def split: prod.split)

lemma audit_offset_nonneg: "0 \<le> audit_offset c"
  by (auto simp: audit_offset_def Let_def split: prod.split)

lemma audit_page_bound: "length (audit_page c rows) \<le> 500"
  using audit_limit_range [of c] by (simp add: audit_page_def)

lemma audit_page_sorted: "sorted_wrt (\<lambda>r s. au_created_at r \<ge> au_created_at s) (audit_page c rows)"
proof -
  have "sorted (map (\<lambda>r. - au_created_at r) (sort_key (\<lambda>r. - au_created_at r) rows))" by simp
  then have "sorted_wrt (\<lambda>r s. au_created_at r \<ge> au_created_at s) (sort_key (\<lambda>r. - au_created_at r) rows)"
    by (simp only: sorted_wrt_map) (rule sorted_wrt_mono_rel [rotated], assumption, simp)
  then show ?thesis by (simp add: audit_page_def sorted_wrt_take sorted_wrt_drop)
qed

lemma insert_audit_cases:
  "insert_audit ex av e rows = rows \<or>
   insert_audit ex av e rows = rows @ [audit_row_of (av_uuid av) (av_now av) e] \<and> ae_UserID e \<noteq> []"
  by (simp add: insert_audit_def)

end
