(* ===== verification/Alerts.thy ===== *)
theory Alerts
  imports Models
begin

text \<open>
  Alerting: \<open>backend/alerts/engine.go\<close> (creation with de-duplication, the monitors that run every
  minute) and \<open>backend/alerts/webhooks.go\<close> (choice of the webhooks, payloads, delivery with
  retries).

  \<open>CreateAlert\<close> runs two statements outside any transaction, a count (\<open>alert_wanted\<close>) and an insert
  (\<open>insert_alert\<close>), each with its own clock reading and its own error (\<open>alert_env\<close>), and other
  calls may come in between: the runs of the section on runs take the two as separate steps. The
  goroutine it starts is an effect: the arguments of \<open>DispatchWebhooks\<close>. What the network answers to
  the \<open>n\<close>-th attempt of a delivery, and which of the statements of that attempt fail, is the argument
  \<open>av n\<close> (\<open>attempt_env\<close>).
\<close>

section \<open>Creating alerts\<close>

record alert_request =
  ar_DeviceID :: string
  ar_AlertType :: string
  ar_Severity :: string
  ar_Title :: string
  ar_Description :: string
  ar_Metadata :: "string option"

record alert_env =
  ae_now :: time
  ae_now' :: time
  ae_uuid :: string
  ae_err_count :: "string option"
  ae_err_insert :: "string option"

record dispatch =
  dp_alertID :: string
  dp_severity :: string
  dp_title :: string
  dp_description :: string
  dp_deviceID :: string

definition recent_open :: "time \<Rightarrow> alert_request \<Rightarrow> alert_row \<Rightarrow> bool" where
  "recent_open now req a \<longleftrightarrow>
     al_DeviceID a = Some (ar_DeviceID req) \<and> al_AlertType a = ar_AlertType req \<and> \<not> al_IsAcknowledged a \<and>
     al_TriggeredAt a > now - 24 * hour"

definition new_alert :: "string \<Rightarrow> time \<Rightarrow> alert_request \<Rightarrow> alert_row" where
  "new_alert uuid now req =
     \<lparr>al_ID = uuid, al_DeviceID = Some (ar_DeviceID req), al_Severity = ar_Severity req,
      al_AlertType = ar_AlertType req, al_Title = ar_Title req, al_Description = Some (ar_Description req),
      al_TriggeredAt = now, al_AcknowledgedAt = None, al_IsAcknowledged = False,
      al_Metadata = (case ar_Metadata req of None \<Rightarrow> ''{}'' | Some m \<Rightarrow> m),
      al_webhook_sent = False, al_webhook_sent_at = None\<rparr>"

definition alert_fk_violation :: string where
  "alert_fk_violation = ''pq: insert or update on table alerts violates foreign key constraint''"

text \<open>The count: whether the call goes on to the insert.\<close>

definition alert_wanted :: "alert_env \<Rightarrow> alert_request \<Rightarrow> fleet \<Rightarrow> bool" where
  "alert_wanted ev req db \<longleftrightarrow>
     (let existing = length (filter (recent_open (ae_now ev) req) (fl_alerts db))
      in \<not> (ae_err_count ev = None \<and> existing > 0))"

definition insert_alert ::
  "alert_env \<Rightarrow> alert_request \<Rightarrow> fleet \<Rightarrow> string option \<times> dispatch option \<times> fleet" where
  "insert_alert ev req db =
     (case ae_err_insert ev of
        Some e \<Rightarrow> (Some e, None, db)
      | None \<Rightarrow>
          if \<not> list_ex (\<lambda>d. d_ID d = ar_DeviceID req) (fl_devices db)
          then (Some alert_fk_violation, None, db)
          else (None,
                Some \<lparr>dp_alertID = ae_uuid ev, dp_severity = ar_Severity req, dp_title = ar_Title req,
                      dp_description = ar_Description req, dp_deviceID = ar_DeviceID req\<rparr>,
                db\<lparr>fl_alerts := fl_alerts db @ [new_alert (ae_uuid ev) (ae_now' ev) req]\<rparr>))"

definition CreateAlert ::
  "alert_env \<Rightarrow> alert_request \<Rightarrow> fleet \<Rightarrow> string option \<times> dispatch option \<times> fleet" where
  "CreateAlert ev req db = (if alert_wanted ev req db then insert_alert ev req db else (None, None, db))"

text \<open>The loops of the monitors call \<open>CreateAlert\<close> for each row and drop its result.\<close>

fun create_all :: "(nat \<Rightarrow> alert_env) \<Rightarrow> nat \<Rightarrow> alert_request list \<Rightarrow> fleet \<Rightarrow> dispatch list \<times> fleet" where
  "create_all env n [] db = ([], db)"
| "create_all env n (req # reqs) db =
     (let (_, d, db1) = CreateAlert (env n) req db; (ds, db2) = create_all env (Suc n) reqs db1
      in ((case d of None \<Rightarrow> [] | Some x \<Rightarrow> [x]) @ ds, db2))"

definition offline_request :: "device \<Rightarrow> alert_request" where
  "offline_request d = \<lparr>ar_DeviceID = d_ID d, ar_AlertType = ''device_offline'', ar_Severity = ''medium'',
     ar_Title = ''Device offline: '' @ d_IPAddress d,
     ar_Description = ''Device has not been seen for more than 30 minutes'', ar_Metadata = None\<rparr>"

definition checkOfflineDevices ::
  "string option \<Rightarrow> time \<Rightarrow> (nat \<Rightarrow> alert_env) \<Rightarrow> fleet \<Rightarrow> dispatch list \<times> fleet" where
  "checkOfflineDevices err now env db =
     (if err \<noteq> None then ([], db)
      else create_all env 0 (map offline_request
             (filter (\<lambda>d. d_IsActive d \<and> d_LastSeen d < now - 30 * minute) (fl_devices db))) db)"

definition firmware_request :: "string \<Rightarrow> alert_request" where
  "firmware_request dev = \<lparr>ar_DeviceID = dev, ar_AlertType = ''firmware_review_due'', ar_Severity = ''low'',
     ar_Title = ''Firmware analysis overdue'',
     ar_Description = ''Firmware has not been analyzed in 90+ days'', ar_Metadata = None\<rparr>"

definition checkFirmwareOverdue ::
  "string option \<Rightarrow> time \<Rightarrow> (nat \<Rightarrow> alert_env) \<Rightarrow> fleet \<Rightarrow> dispatch list \<times> fleet" where
  "checkFirmwareOverdue err now env db =
     (if err \<noteq> None then ([], db)
      else create_all env 0 (map firmware_request (List.map_filter fr_device_id
             (filter (\<lambda>r. case fr_analyzed_at r of None \<Rightarrow> True | Some t \<Rightarrow> t < now - 90 * 24 * hour)
                (fl_firmware db)))) db)"

definition critical_request :: "string \<Rightarrow> alert_request" where
  "critical_request dev = \<lparr>ar_DeviceID = dev, ar_AlertType = ''critical_vuln_unresolved'', ar_Severity = ''high'',
     ar_Title = ''Critical vulnerability unresolved for 7+ days'',
     ar_Description = ''A critical severity vulnerability has been open for more than 7 days'', ar_Metadata = None\<rparr>"

definition checkUnresolvedCritical ::
  "string option \<Rightarrow> time \<Rightarrow> (nat \<Rightarrow> alert_env) \<Rightarrow> fleet \<Rightarrow> dispatch list \<times> fleet" where
  "checkUnresolvedCritical err now env db =
     (if err \<noteq> None then ([], db)
      else create_all env 0 (map critical_request (List.map_filter id (remdups (map vu_DeviceID
             (filter (\<lambda>v. vu_Severity v = ''critical'' \<and> \<not> vu_IsResolved v \<and> vu_DiscoveredAt v < now - 7 * 24 * hour)
                (fl_vulns db)))))) db)"

text \<open>One tick of \<open>StartAlertMonitor\<close>: the three checks, one after the other.\<close>

record tick_env =
  tk_err :: "nat \<Rightarrow> string option"
  tk_now :: "nat \<Rightarrow> time"
  tk_env :: "nat \<Rightarrow> nat \<Rightarrow> alert_env"

definition monitor_tick :: "tick_env \<Rightarrow> fleet \<Rightarrow> dispatch list \<times> fleet" where
  "monitor_tick tk db =
     (let (d1, db1) = checkOfflineDevices (tk_err tk 0) (tk_now tk 0) (tk_env tk 0) db;
          (d2, db2) = checkFirmwareOverdue (tk_err tk 1) (tk_now tk 1) (tk_env tk 1) db1;
          (d3, db3) = checkUnresolvedCritical (tk_err tk 2) (tk_now tk 2) (tk_env tk 2) db2
      in (d1 @ d2 @ d3, db3))"

section \<open>Webhooks\<close>

record webhook_config =
  wh_ID :: string
  wh_Name :: string
  wh_URL :: string
  wh_WebhookType :: string
  wh_MinSeverity :: string
  wh_IsActive :: bool
  wh_Secret :: "string option"
  wh_Headers :: string
  wh_last_triggered :: "time option"
  wh_created_at :: time

definition severityLevel :: "string \<Rightarrow> int" where
  "severityLevel sev =
     (let s = toLower sev in
      if s = ''critical'' then 4 else if s = ''high'' then 3 else if s = ''medium'' then 2
      else if s = ''low'' then 1 else 0)"

text \<open>The webhooks for which a delivery is started.\<close>

definition DispatchWebhooks :: "string option \<Rightarrow> string \<Rightarrow> webhook_config list \<Rightarrow> webhook_config list" where
  "DispatchWebhooks err severity whs =
     (if err \<noteq> None then []
      else filter (\<lambda>wh. \<not> severityLevel severity < severityLevel (wh_MinSeverity wh)) (filter wh_IsActive whs))"

subsection \<open>Payloads\<close>

text \<open>\<open>stamp\<close> is the current time in RFC 3339. A map is encoded with its keys in order.\<close>

definition utf8 :: "nat list \<Rightarrow> string" where
  "utf8 bs = map char_of bs"

definition slack_emoji :: "string \<Rightarrow> string" where
  "slack_emoji severity =
     (if severity = ''critical'' then utf8 [240, 159, 148, 180]
      else if severity = ''high'' then utf8 [240, 159, 159, 160]
      else if severity = ''medium'' then utf8 [240, 159, 148, 181]
      else utf8 [226, 154, 170])"

definition newline :: string where "newline = [char_of (10 :: nat)]"

definition buildSlackPayload :: "string \<Rightarrow> string \<Rightarrow> string \<Rightarrow> string \<Rightarrow> string \<Rightarrow> json" where
  "buildSlackPayload stamp severity title description deviceID =
     (let emoji = slack_emoji severity in
      JObj [(''blocks'', JArr
              [JObj [(''text'', JObj [(''text'', JStr (emoji @ '' ['' @ toUpper severity @ ''] '' @ title)),
                                      (''type'', JStr ''plain_text'')]),
                     (''type'', JStr ''header'')],
               JObj [(''text'', JObj [(''text'', JStr (''*Description:* '' @ description @ newline @ ''*Device:* `'' @ deviceID @ ''`''
                                          @ newline @ ''*Severity:* '' @ severity)),
                                      (''type'', JStr ''mrkdwn'')]),
                     (''type'', JStr ''section'')],
               JObj [(''elements'', JArr [JObj [(''text'', JStr (''Seagles Security Platform '' @ utf8 [194, 183] @ '' '' @ stamp)),
                                                (''type'', JStr ''mrkdwn'')]]),
                     (''type'', JStr ''context'')]]),
            (''text'', JStr (emoji @ '' *['' @ toUpper severity @ ''] Seagles Alert*''))])"

definition teams_color :: "string \<Rightarrow> string" where
  "teams_color severity =
     (if severity = ''critical'' then ''FF0000'' else if severity = ''high'' then ''FF8C00''
      else if severity = ''medium'' then ''1C7ED6'' else ''0078D4'')"

definition buildTeamsPayload :: "string \<Rightarrow> string \<Rightarrow> string \<Rightarrow> string \<Rightarrow> string \<Rightarrow> json" where
  "buildTeamsPayload stamp severity title description deviceID =
     JObj [(''@context'', JStr ''http://schema.org/extensions''), (''@type'', JStr ''MessageCard''),
           (''sections'', JArr [JObj
              [(''activityTitle'', JStr (''['' @ toUpper severity @ ''] '' @ title)),
               (''facts'', JArr [JObj [(''name'', JStr ''Severity''), (''value'', JStr severity)],
                                JObj [(''name'', JStr ''Device''), (''value'', JStr deviceID)],
                                JObj [(''name'', JStr ''Description''), (''value'', JStr description)],
                                JObj [(''name'', JStr ''Time''), (''value'', JStr stamp)]])]]),
           (''summary'', JStr (''['' @ toUpper severity @ ''] '' @ title)),
           (''themeColor'', JStr (teams_color severity))]"

definition severityCEF :: "string \<Rightarrow> string" where
  "severityCEF sev =
     (if sev = ''critical'' then ''10'' else if sev = ''high'' then ''7''
      else if sev = ''medium'' then ''4'' else ''1'')"

definition buildGenericPayload :: "string \<Rightarrow> string \<Rightarrow> string \<Rightarrow> string \<Rightarrow> string \<Rightarrow> string \<Rightarrow> json" where
  "buildGenericPayload stamp alertID severity title description deviceID =
     JObj [(''alert'', JObj [(''description'', JStr description), (''device_id'', JStr deviceID), (''id'', JStr alertID),
                            (''severity'', JStr severity), (''timestamp'', JStr stamp), (''title'', JStr title)]),
           (''cef'', JStr (''CEF:0|Seagles|SecurityPlatform|1.0|IoTAlert|'' @ title @ ''|'' @ severityCEF severity
                          @ ''|dst='' @ deviceID @ '' msg='' @ description)),
           (''event_type'', JStr ''security_alert''), (''source'', JStr ''seagles''), (''version'', JStr ''1.0'')]"

definition webhook_payload :: "webhook_config \<Rightarrow> string \<Rightarrow> dispatch \<Rightarrow> json" where
  "webhook_payload wh stamp d =
     (if wh_WebhookType wh = ''slack'' then buildSlackPayload stamp (dp_severity d) (dp_title d) (dp_description d) (dp_deviceID d)
      else if wh_WebhookType wh = ''teams'' then buildTeamsPayload stamp (dp_severity d) (dp_title d) (dp_description d) (dp_deviceID d)
      else buildGenericPayload stamp (dp_alertID d) (dp_severity d) (dp_title d) (dp_description d) (dp_deviceID d))"

subsection \<open>Delivery\<close>

text \<open>
  What happens to an attempt: encoding the payload fails, the URL is malformed, the request gets
  no answer, or it gets one (status and the first bytes of the body).
\<close>

datatype http_outcome = MarshalErr string | NewRequestErr string | DoErr string | Response int string

record delivery =
  dl_webhook_id :: string
  dl_alert_id :: string
  dl_status_code :: int
  dl_response_body :: string
  dl_error :: string

record alerting =
  ag_fleet :: fleet
  ag_webhooks :: "webhook_config list"
  ag_deliveries :: "delivery list"

text \<open>One attempt: what the network answers, the time, and the errors of the statements on the delivery log, the
  alert and the webhook.\<close>

record attempt_env =
  at_http :: http_outcome
  at_now :: time
  at_err_log :: "string option"
  at_err_alert :: "string option"
  at_err_webhook :: "string option"

text \<open>Text that PostgreSQL stores: well-formed UTF-8 without a zero byte.\<close>

definition cont_byte :: "nat \<Rightarrow> bool" where
  "cont_byte b \<longleftrightarrow> 128 \<le> b \<and> b \<le> 191"

fun utf8_valid :: "nat list \<Rightarrow> bool" where
  "utf8_valid [] = True"
| "utf8_valid (a # bs) =
     (if 1 \<le> a \<and> a \<le> 127 then utf8_valid bs
      else if 194 \<le> a \<and> a \<le> 223 then (case bs of b # r \<Rightarrow> cont_byte b \<and> utf8_valid r | _ \<Rightarrow> False)
      else if 224 \<le> a \<and> a \<le> 239
      then (case bs of b # c # r \<Rightarrow> cont_byte b \<and> (a = 224 \<longrightarrow> 160 \<le> b) \<and> (a = 237 \<longrightarrow> b \<le> 159) \<and> cont_byte c \<and> utf8_valid r | _ \<Rightarrow> False)
      else if 240 \<le> a \<and> a \<le> 244
      then (case bs of b # c # d # r \<Rightarrow> cont_byte b \<and> (a = 240 \<longrightarrow> 144 \<le> b) \<and> (a = 244 \<longrightarrow> b \<le> 143) \<and> cont_byte c \<and> cont_byte d \<and>
                utf8_valid r | _ \<Rightarrow> False)
      else False)"

definition pg_text :: "string \<Rightarrow> bool" where
  "pg_text s = utf8_valid (map of_char s)"

text \<open>
  The insert into the log and the two updates are \<open>db.Exec\<close> calls whose errors are ignored. The insert fails when the
  webhook or the alert no longer exists, or when the body, cut off at 1024 bytes, or the error is not text.
\<close>

definition logDelivery :: "string option \<Rightarrow> string \<Rightarrow> string \<Rightarrow> int \<Rightarrow> string \<Rightarrow> string \<Rightarrow> alerting \<Rightarrow> alerting" where
  "logDelivery e webhookID alertID status body err st =
     (if e \<noteq> None \<or> \<not> list_ex (\<lambda>w. wh_ID w = webhookID) (ag_webhooks st) \<or>
         \<not> list_ex (\<lambda>a. al_ID a = alertID) (fl_alerts (ag_fleet st)) \<or> \<not> pg_text body \<or> \<not> pg_text err
      then st
      else st\<lparr>ag_deliveries := ag_deliveries st @
        [\<lparr>dl_webhook_id = webhookID, dl_alert_id = alertID, dl_status_code = status, dl_response_body = body, dl_error = err\<rparr>]\<rparr>)"

definition sent_row :: "time \<Rightarrow> string \<Rightarrow> alert_row \<Rightarrow> alert_row" where
  "sent_row now i a = (if al_ID a = i then a\<lparr>al_webhook_sent := True, al_webhook_sent_at := Some now\<rparr> else a)"

definition mark_sent :: "attempt_env \<Rightarrow> string \<Rightarrow> string \<Rightarrow> alerting \<Rightarrow> alerting" where
  "mark_sent av alertID whID st =
     (let st1 = (if at_err_alert av \<noteq> None then st
                 else st\<lparr>ag_fleet := (ag_fleet st)\<lparr>fl_alerts := map (sent_row (at_now av) alertID) (fl_alerts (ag_fleet st))\<rparr>\<rparr>)
      in if at_err_webhook av \<noteq> None then st1
         else st1\<lparr>ag_webhooks := map (\<lambda>w. if wh_ID w = whID then w\<lparr>wh_last_triggered := Some (at_now av)\<rparr> else w) (ag_webhooks st1)\<rparr>)"

abbreviation maxWebhookRetries :: nat where "maxWebhookRetries \<equiv> 3"

definition deliverWebhook ::
  "attempt_env \<Rightarrow> webhook_config \<Rightarrow> dispatch \<Rightarrow> nat \<Rightarrow> alerting \<Rightarrow> (string + int) \<times> alerting" where
  "deliverWebhook av wh d attempt st =
     (let logd = logDelivery (at_err_log av) (wh_ID wh) (dp_alertID d) in
      case at_http av of
        MarshalErr e \<Rightarrow> (Inl e, logd 0 [] e st)
      | NewRequestErr e \<Rightarrow> (Inl e, logd 0 [] e st)
      | DoErr e \<Rightarrow> (Inl e, if attempt = maxWebhookRetries - 1 then logd 0 [] e st else st)
      | Response sc body \<Rightarrow>
          (let st1 = logd sc body [] st in
           if sc \<ge> 200 \<and> sc < 300 then (Inr sc, mark_sent av (dp_alertID d) (wh_ID wh) st1)
           else (Inl (''HTTP '' @ itoa sc @ '': '' @ body), st1)))"

text \<open>
  The loop over the attempts: the sleeps it made, the status of the successful attempt, and the
  state. \<open>n\<close> counts the attempts left.
\<close>

fun delivery_loop ::
  "nat \<Rightarrow> nat \<Rightarrow> (nat \<Rightarrow> attempt_env) \<Rightarrow> webhook_config \<Rightarrow> dispatch \<Rightarrow> alerting \<Rightarrow>
   duration list \<times> int option \<times> alerting" where
  "delivery_loop 0 attempt av wh d st = ([], None, st)"
| "delivery_loop (Suc n) attempt av wh d st =
     (case deliverWebhook (av attempt) wh d attempt st of
        (Inr sc, st1) \<Rightarrow> ([], Some sc, st1)
      | (Inl e, st1) \<Rightarrow>
          (let sleep = (if attempt < maxWebhookRetries - 1 then [1000 * 2 ^ attempt * millisecond] else []);
               (ds, r, st2) = delivery_loop n (Suc attempt) av wh d st1
           in (sleep @ ds, r, st2)))"

definition deliverWebhookWithRetry ::
  "(nat \<Rightarrow> attempt_env) \<Rightarrow> webhook_config \<Rightarrow> dispatch \<Rightarrow> alerting \<Rightarrow> duration list \<times> int option \<times> alerting" where
  "deliverWebhookWithRetry av wh d st = delivery_loop maxWebhookRetries 0 av wh d st"

section \<open>De-duplication\<close>

text \<open>
  Of two open alerts of the same device and type, the later one came at least a day after the
  earlier one.
\<close>

definition apart :: "alert_row \<Rightarrow> alert_row \<Rightarrow> bool" where
  "apart a b \<longleftrightarrow>
     (al_DeviceID a = al_DeviceID b \<and> al_AlertType a = al_AlertType b \<and> \<not> al_IsAcknowledged a \<and> \<not> al_IsAcknowledged b
      \<longrightarrow> al_TriggeredAt a + 24 * hour \<le> al_TriggeredAt b)"

definition dedup_ok :: "fleet \<Rightarrow> bool" where
  "dedup_ok db \<longleftrightarrow> sorted_wrt apart (fl_alerts db)"

text \<open>No open alert of the device and type of the request is recent.\<close>

definition none_recent :: "alert_env \<Rightarrow> alert_request \<Rightarrow> fleet \<Rightarrow> bool" where
  "none_recent ev req db \<longleftrightarrow> (\<forall>a \<in> set (fl_alerts db). \<not> recent_open (ae_now ev) req a)"

lemma alert_wanted_iff: "ae_err_count ev = None \<Longrightarrow> alert_wanted ev req db \<longleftrightarrow> none_recent ev req db"
  by (auto simp: alert_wanted_def none_recent_def filter_empty_conv)

lemma insert_alert_dedup:
  assumes "dedup_ok db" "none_recent ev req db" "ae_now ev \<le> ae_now' ev"
  shows "dedup_ok (snd (snd (insert_alert ev req db)))"
proof -
  have "\<forall>a \<in> set (fl_alerts db). apart a (new_alert (ae_uuid ev) (ae_now' ev) req)"
    using assms(2,3) by (force simp: apart_def none_recent_def recent_open_def new_alert_def)
  then show ?thesis
    using assms(1) by (auto simp: insert_alert_def dedup_ok_def sorted_wrt_append split: option.splits)
qed

lemma CreateAlert_dedup:
  assumes "dedup_ok db" "ae_err_count ev = None" "ae_now ev \<le> ae_now' ev"
  shows "dedup_ok (snd (snd (CreateAlert ev req db)))"
  using assms insert_alert_dedup by (simp add: CreateAlert_def alert_wanted_iff)

lemma CreateAlert_frame:
  "fl_devices (snd (snd (CreateAlert ev req db))) = fl_devices db"
  "fl_vulns (snd (snd (CreateAlert ev req db))) = fl_vulns db"
  "fl_firmware (snd (snd (CreateAlert ev req db))) = fl_firmware db"
  "fl_scans (snd (snd (CreateAlert ev req db))) = fl_scans db"
  by (simp_all add: CreateAlert_def insert_alert_def split: option.split)

definition env_ok :: "alert_env \<Rightarrow> bool" where
  "env_ok ev \<longleftrightarrow> ae_err_count ev = None \<and> ae_now ev \<le> ae_now' ev"

section \<open>Handlers\<close>

text \<open>
  \<open>err 0\<close> is an error of the statement, \<open>err 1\<close> one while rows are read. A filter is used when its
  query parameter is not empty.
\<close>

definition query_filter :: "string \<Rightarrow> ('a \<Rightarrow> bool) \<Rightarrow> 'a list \<Rightarrow> 'a list" where
  "query_filter v P xs = (if v \<noteq> [] then filter P xs else xs)"

definition ListAlertsHandler :: "uuid_lib \<Rightarrow> (nat \<Rightarrow> string option) \<Rightarrow> fleet handler" where
  "ListAlertsHandler U err c db =
     (case uuid_filter U (err 0) (getQuery c ''device_id'') of
        Inl e \<Rightarrow> (failInternal 500 ''Failed to query alerts: '' e c, db)
      | Inr dev \<Rightarrow>
        (case err 1 of Some e \<Rightarrow> (failInternal 500 ''Failed to iterate alerts: '' e c, db)
         | None \<Rightarrow>
           (let sev = getQuery c ''severity''; ack = getQuery c ''is_acknowledged'';
                rows = query_filter ack (\<lambda>a. al_IsAcknowledged a = parseBool ack)
                         (query_filter (getQuery c ''device_id'') (\<lambda>a. al_DeviceID a = Some dev)
                           (query_filter sev (\<lambda>a. al_Severity a = sev) (fl_alerts db)))
            in (success (JArr (map alert_ToJSON (take 100 (sort_key (\<lambda>a. - al_TriggeredAt a) rows)))) c, db))))"

definition ack_row :: "time \<Rightarrow> string \<Rightarrow> alert_row \<Rightarrow> alert_row" where
  "ack_row now i a = (if al_ID a = i then a\<lparr>al_IsAcknowledged := True, al_AcknowledgedAt := Some now\<rparr> else a)"

definition AckAlertHandler :: "uuid_lib \<Rightarrow> (nat \<Rightarrow> string option) \<Rightarrow> time \<Rightarrow> fleet handler" where
  "AckAlertHandler U err now c db =
     (case uuidParam U ''id'' c of
        Inl c' \<Rightarrow> (c', db)
      | Inr raw \<Rightarrow>
          (case uuid_arg U (err 0) raw of Inl e \<Rightarrow> (failInternal 500 ''Failed to acknowledge alert: '' e c, db)
           | Inr i \<Rightarrow>
               (let db' = db\<lparr>fl_alerts := map (ack_row now i) (fl_alerts db)\<rparr> in
                if \<not> list_ex (\<lambda>a. al_ID a = i) (fl_alerts db) then (fail 404 ''Alert not found'' c, db')
                else (success (JObj [(''message'', JStr ''Alert acknowledged'')]) c, db'))))"

section \<open>Runs\<close>

text \<open>
  The system with the calls of \<open>CreateAlert\<close> that have counted and not yet inserted. \<open>EBegin\<close> is the
  count of a call, \<open>EFinish n\<close> the insert of the \<open>n\<close>-th pending call, so calls of scans, monitors and
  other goroutines interleave at will. \<open>ETick\<close> is a whole turn of the monitors.
\<close>

record alert_sys =
  sy_alerting :: alerting
  sy_pending :: "(alert_env \<times> alert_request) list"

datatype alert_event =
  EBegin alert_env alert_request | EFinish nat | ETick tick_env
| EAck uuid_lib "nat \<Rightarrow> string option" time ctx
| EDeliver "nat \<Rightarrow> attempt_env" webhook_config dispatch

definition on_alerts :: "(fleet \<Rightarrow> fleet) \<Rightarrow> alert_sys \<Rightarrow> alert_sys" where
  "on_alerts f s = s\<lparr>sy_alerting := (sy_alerting s)\<lparr>ag_fleet := f (ag_fleet (sy_alerting s))\<rparr>\<rparr>"

abbreviation sy_fleet :: "alert_sys \<Rightarrow> fleet" where
  "sy_fleet s \<equiv> ag_fleet (sy_alerting s)"

fun alert_next :: "alert_event \<Rightarrow> alert_sys \<Rightarrow> alert_sys" where
  "alert_next (EBegin ev req) s =
     (if alert_wanted ev req (sy_fleet s) then s\<lparr>sy_pending := sy_pending s @ [(ev, req)]\<rparr> else s)"
| "alert_next (EFinish n) s =
     (if n < length (sy_pending s)
      then (let (ev, req) = sy_pending s ! n
            in on_alerts (\<lambda>db. snd (snd (insert_alert ev req db)))
                 (s\<lparr>sy_pending := take n (sy_pending s) @ drop (Suc n) (sy_pending s)\<rparr>))
      else s)"
| "alert_next (ETick tk) s = on_alerts (\<lambda>db. snd (monitor_tick tk db)) s"
| "alert_next (EAck U err now c) s = on_alerts (\<lambda>db. snd (AckAlertHandler U err now c db)) s"
| "alert_next (EDeliver av wh d) s = s\<lparr>sy_alerting := snd (snd (deliverWebhookWithRetry av wh d (sy_alerting s)))\<rparr>"

definition alert_key :: "alert_request \<Rightarrow> string \<times> string" where
  "alert_key req = (ar_DeviceID req, ar_AlertType req)"

definition monitor_types :: "string set" where
  "monitor_types = {''device_offline'', ''firmware_review_due'', ''critical_vuln_unresolved''}"

text \<open>
  The count of recent alerts does not fail, the clock does not go backwards between count and insert, and
  no two calls for the same device and type overlap: none is pending when another one counts.
\<close>

fun event_ok :: "alert_event \<Rightarrow> alert_sys \<Rightarrow> bool" where
  "event_ok (EBegin ev req) s \<longleftrightarrow> env_ok ev \<and> alert_key req \<notin> set (map (alert_key \<circ> snd) (sy_pending s))"
| "event_ok (ETick tk) s \<longleftrightarrow> (\<forall>i k. env_ok (tk_env tk i k)) \<and> list_all (\<lambda>p. ar_AlertType (snd p) \<notin> monitor_types) (sy_pending s)"
| "event_ok _ s \<longleftrightarrow> True"

text \<open>Alerts are never lost or reopened.\<close>

definition alert_le :: "alert_row \<Rightarrow> alert_row \<Rightarrow> bool" where
  "alert_le a b \<longleftrightarrow> al_ID b = al_ID a \<and> al_DeviceID b = al_DeviceID a \<and> al_AlertType b = al_AlertType a \<and>
     al_TriggeredAt b = al_TriggeredAt a \<and> (al_IsAcknowledged a \<longrightarrow> al_IsAcknowledged b)"

definition alerts_le :: "alert_row list \<Rightarrow> alert_row list \<Rightarrow> bool" where
  "alerts_le xs ys \<longleftrightarrow> length xs \<le> length ys \<and> (\<forall>i < length xs. alert_le (xs ! i) (ys ! i))"

lemma alerts_le_refl [simp]: "alerts_le xs xs"
  by (simp add: alerts_le_def alert_le_def)

lemma alerts_le_trans: "alerts_le xs ys \<Longrightarrow> alerts_le ys zs \<Longrightarrow> alerts_le xs zs"
  by (auto simp: alerts_le_def alert_le_def)

lemma alerts_le_append [simp]: "alerts_le xs (xs @ ys)"
  by (simp add: alerts_le_def alert_le_def nth_append)

lemma alerts_le_map: "(\<And>a. alert_le a (f a)) \<Longrightarrow> alerts_le xs (map f xs)"
  by (simp add: alerts_le_def)

lemma apart_map: "(\<And>a. alert_le a (f a)) \<Longrightarrow> sorted_wrt apart xs \<Longrightarrow> sorted_wrt apart (map f xs)"
  unfolding sorted_wrt_map by (rule sorted_wrt_mono_rel) (auto simp: apart_def alert_le_def)

definition grows :: "fleet \<Rightarrow> fleet \<Rightarrow> bool" where
  "grows db db' \<longleftrightarrow> dedup_ok db' \<and> alerts_le (fl_alerts db) (fl_alerts db')"

lemma grows_trans: "grows a b \<Longrightarrow> grows b c \<Longrightarrow> grows a c"
  by (auto simp: grows_def intro: alerts_le_trans)

lemma grows_map:
  "(\<And>a. alert_le a (f a)) \<Longrightarrow> dedup_ok db \<Longrightarrow> grows db (db\<lparr>fl_alerts := map f (fl_alerts db)\<rparr>)"
  by (simp add: grows_def dedup_ok_def apart_map alerts_le_map)

lemma CreateAlert_grows: "dedup_ok db \<Longrightarrow> env_ok ev \<Longrightarrow> grows db (snd (snd (CreateAlert ev req db)))"
  using CreateAlert_dedup [of db ev req]
  by (auto simp: grows_def env_ok_def CreateAlert_def insert_alert_def split: option.splits)

lemma create_all_grows:
  assumes "dedup_ok db" "\<And>k. env_ok (env k)"
  shows "grows db (snd (create_all env n reqs db))"
  using assms(1)
proof (induction reqs arbitrary: n db)
  case (Cons req reqs)
  obtain e d db1 where c: "CreateAlert (env n) req db = (e, d, db1)" by (metis prod_cases3)
  have g: "grows db db1" using CreateAlert_grows [OF Cons.prems assms(2), of n req] c by simp
  then have "grows db1 (snd (create_all env (Suc n) reqs db1))" using Cons.IH by (simp add: grows_def)
  with g show ?case by (simp add: c case_prod_beta Let_def grows_trans)
qed (simp add: grows_def)

lemma monitor_tick_grows:
  assumes "dedup_ok db" "\<And>i k. env_ok (tk_env tk i k)"
  shows "grows db (snd (monitor_tick tk db))"
proof -
  have step: "grows x (snd (if b then ([], x) else create_all (tk_env tk i) 0 reqs x))" if "dedup_ok x" for x b i reqs
    using that create_all_grows [OF that assms(2)] by (simp add: grows_def)
  define db1 where "db1 = snd (checkOfflineDevices (tk_err tk 0) (tk_now tk 0) (tk_env tk 0) db)"
  define db2 where "db2 = snd (checkFirmwareOverdue (tk_err tk 1) (tk_now tk 1) (tk_env tk 1) db1)"
  define db3 where "db3 = snd (checkUnresolvedCritical (tk_err tk 2) (tk_now tk 2) (tk_env tk 2) db2)"
  have g1: "grows db db1" unfolding db1_def checkOfflineDevices_def by (rule step [OF assms(1)])
  then have g2: "grows db1 db2" unfolding db2_def checkFirmwareOverdue_def by (intro step) (simp add: grows_def)
  then have g3: "grows db2 db3" unfolding db3_def checkUnresolvedCritical_def by (intro step) (simp add: grows_def)
  have "snd (monitor_tick tk db) = db3"
    by (simp add: monitor_tick_def db3_def db2_def db1_def case_prod_beta Let_def)
  then show ?thesis using grows_trans [OF g1 grows_trans [OF g2 g3]] by simp
qed

text \<open>What a turn of the monitors adds are alerts of their own types.\<close>

lemma create_all_adds:
  "\<exists>new. fl_alerts (snd (create_all env n reqs db)) = fl_alerts db @ new \<and> al_AlertType ` set new \<subseteq> ar_AlertType ` set reqs"
proof (induction reqs arbitrary: n db)
  case (Cons req reqs)
  obtain e d db1 where c: "CreateAlert (env n) req db = (e, d, db1)" by (metis prod_cases3)
  then have "fl_alerts db1 = fl_alerts db \<or> fl_alerts db1 = fl_alerts db @ [new_alert (ae_uuid (env n)) (ae_now' (env n)) req]"
    by (auto simp: CreateAlert_def insert_alert_def split: if_splits option.splits)
  moreover obtain new where "fl_alerts (snd (create_all env (Suc n) reqs db1)) = fl_alerts db1 @ new"
    "al_AlertType ` set new \<subseteq> ar_AlertType ` set reqs" using Cons by blast
  moreover have "al_AlertType (new_alert u t req) = ar_AlertType req" for u t by (simp add: new_alert_def)
  ultimately show ?case by (auto simp: c case_prod_beta Let_def image_subset_iff)
qed simp

lemma monitor_tick_adds:
  "\<exists>new. fl_alerts (snd (monitor_tick tk db)) = fl_alerts db @ new \<and> al_AlertType ` set new \<subseteq> monitor_types"
proof -
  define db1 where "db1 = snd (checkOfflineDevices (tk_err tk 0) (tk_now tk 0) (tk_env tk 0) db)"
  define db2 where "db2 = snd (checkFirmwareOverdue (tk_err tk 1) (tk_now tk 1) (tk_env tk 1) db1)"
  define db3 where "db3 = snd (checkUnresolvedCritical (tk_err tk 2) (tk_now tk 2) (tk_env tk 2) db2)"
  have adds: "\<exists>new. fl_alerts (snd (if b then ([], x) else create_all env 0 (map f ys) x)) = fl_alerts x @ new \<and>
      al_AlertType ` set new \<subseteq> monitor_types" if "\<And>y. ar_AlertType (f y) \<in> monitor_types" for x b env f ys
    using create_all_adds [of env 0 "map f ys" x] that by (auto simp: image_subset_iff image_iff) metis
  have "\<exists>new. fl_alerts db1 = fl_alerts db @ new \<and> al_AlertType ` set new \<subseteq> monitor_types"
    unfolding db1_def checkOfflineDevices_def by (rule adds) (simp add: offline_request_def monitor_types_def)
  moreover have "\<exists>new. fl_alerts db2 = fl_alerts db1 @ new \<and> al_AlertType ` set new \<subseteq> monitor_types"
    unfolding db2_def checkFirmwareOverdue_def by (rule adds) (simp add: firmware_request_def monitor_types_def)
  moreover have "\<exists>new. fl_alerts db3 = fl_alerts db2 @ new \<and> al_AlertType ` set new \<subseteq> monitor_types"
    unfolding db3_def checkUnresolvedCritical_def by (rule adds) (simp add: critical_request_def monitor_types_def)
  moreover have "snd (monitor_tick tk db) = db3"
    by (simp add: monitor_tick_def db3_def db2_def db1_def case_prod_beta Let_def)
  ultimately show ?thesis by (auto simp: image_Un)
qed

text \<open>Acknowledging and delivering add no alert: every row comes from an earlier one.\<close>

definition no_new :: "fleet \<Rightarrow> fleet \<Rightarrow> bool" where
  "no_new db db' \<longleftrightarrow> (\<forall>b \<in> set (fl_alerts db'). \<exists>a \<in> set (fl_alerts db). alert_le a b)"

lemma no_new_refl: "no_new db db"
  by (auto simp: no_new_def alert_le_def)

lemma no_new_trans: "no_new a b \<Longrightarrow> no_new b c \<Longrightarrow> no_new a c"
  unfolding no_new_def alert_le_def by metis

lemma none_recent_mono: "none_recent ev req db \<Longrightarrow> no_new db db' \<Longrightarrow> none_recent ev req db'"
  unfolding none_recent_def no_new_def alert_le_def recent_open_def by metis

lemma none_recent_append:
  "none_recent ev req (db\<lparr>fl_alerts := fl_alerts db @ new\<rparr>) \<longleftrightarrow>
     none_recent ev req db \<and> (\<forall>a \<in> set new. \<not> recent_open (ae_now ev) req a)"
  by (auto simp: none_recent_def)

lemma AckAlert_grows:
  assumes "dedup_ok db"
  shows "grows db (snd (AckAlertHandler U err now c db)) \<and> no_new db (snd (AckAlertHandler U err now c db))"
proof -
  have "alert_le a (ack_row now i a)" for i a by (simp add: alert_le_def ack_row_def)
  then show ?thesis
    using assms grows_map [of "ack_row now i" for i] no_new_refl [of db]
    by (auto simp: AckAlertHandler_def Let_def grows_def no_new_def split: sum.split)
qed

lemma logDelivery_fleet [simp]:
  "ag_fleet (logDelivery x a b c d e st) = ag_fleet st" "ag_webhooks (logDelivery x a b c d e st) = ag_webhooks st"
  by (simp_all add: logDelivery_def)

lemma mark_sent_grows:
  assumes "dedup_ok (ag_fleet st)"
  shows "grows (ag_fleet st) (ag_fleet (mark_sent av i w st)) \<and> no_new (ag_fleet st) (ag_fleet (mark_sent av i w st))"
proof -
  have le: "alert_le a (sent_row (at_now av) i a)" for a by (simp add: alert_le_def sent_row_def)
  then show ?thesis
    using assms grows_map [of "sent_row (at_now av) i", OF le assms] no_new_refl [of "ag_fleet st"]
    by (auto simp: mark_sent_def Let_def grows_def no_new_def)
qed

lemma deliver_grows:
  assumes "deliverWebhook av wh d n st = (r, st')" "dedup_ok (ag_fleet st)"
  shows "grows (ag_fleet st) (ag_fleet st') \<and> no_new (ag_fleet st) (ag_fleet st')"
  using assms mark_sent_grows [of "logDelivery e (wh_ID wh) (dp_alertID d) sc body [] st" for e sc body] no_new_refl [of "ag_fleet st"]
  by (auto simp: deliverWebhook_def Let_def grows_def split: http_outcome.splits if_splits)

lemma delivery_loop_grows:
  "dedup_ok (ag_fleet st) \<Longrightarrow>
   grows (ag_fleet st) (ag_fleet (snd (snd (delivery_loop n k av wh d st)))) \<and>
   no_new (ag_fleet st) (ag_fleet (snd (snd (delivery_loop n k av wh d st))))"
proof (induction n arbitrary: k st)
  case (Suc n)
  obtain r st1 where d: "deliverWebhook (av k) wh d k st = (r, st1)" by fastforce
  note g = deliver_grows [OF d Suc.prems]
  then have "grows (ag_fleet st1) (ag_fleet (snd (snd (delivery_loop n (Suc k) av wh d st1)))) \<and>
      no_new (ag_fleet st1) (ag_fleet (snd (snd (delivery_loop n (Suc k) av wh d st1))))"
    using Suc.IH by (simp add: grows_def)
  with g d show ?case
    by (auto simp: case_prod_beta Let_def split: sum.split intro: grows_trans no_new_trans)
qed (simp add: grows_def no_new_refl)

text \<open>The invariant of the runs: no duplicates, and no pending call has become superfluous.\<close>

definition sys_ok :: "alert_sys \<Rightarrow> bool" where
  "sys_ok s \<longleftrightarrow> dedup_ok (sy_fleet s) \<and> distinct (map (alert_key \<circ> snd) (sy_pending s)) \<and>
     (\<forall>(ev, req) \<in> set (sy_pending s). env_ok ev \<and> none_recent ev req (sy_fleet s))"

lemma sys_ok_no_new:
  assumes "sys_ok s" "grows (sy_fleet s) (sy_fleet s')" "no_new (sy_fleet s) (sy_fleet s')" "sy_pending s' = sy_pending s"
  shows "sys_ok s'"
  using assms none_recent_mono by (fastforce simp: sys_ok_def grows_def)

lemma sys_ok_finish:
  assumes "sys_ok s" "n < length (sy_pending s)"
  shows "sys_ok (alert_next (EFinish n) s) \<and> alerts_le (fl_alerts (sy_fleet s)) (fl_alerts (sy_fleet (alert_next (EFinish n) s)))"
proof -
  obtain ev req where p: "sy_pending s ! n = (ev, req)" by fastforce
  let ?rest = "take n (sy_pending s) @ drop (Suc n) (sy_pending s)"
  obtain xs ys where pend: "sy_pending s = xs @ (ev, req) # ys" and rest: "?rest = xs @ ys"
    using id_take_nth_drop [OF assms(2)] p by metis
  have "(ev, req) \<in> set (sy_pending s)" using p assms(2) by (metis nth_mem)
  then have ok: "env_ok ev" "none_recent ev req (sy_fleet s)" using assms(1) by (auto simp: sys_ok_def)
  have keys: "distinct (map (alert_key \<circ> snd) ?rest)" "alert_key req \<notin> set (map (alert_key \<circ> snd) ?rest)"
    unfolding rest using assms(1) by (auto simp: sys_ok_def pend)
  have sub: "set ?rest \<subseteq> set (sy_pending s)" unfolding rest by (auto simp: pend)
  let ?db = "snd (snd (insert_alert ev req (sy_fleet s)))"
  have other: "none_recent ev' req' ?db" if "(ev', req') \<in> set ?rest" for ev' req'
  proof -
    have "none_recent ev' req' (sy_fleet s)" using that sub assms(1) by (auto simp: sys_ok_def)
    moreover have "alert_key req' \<noteq> alert_key req" using that keys(2) by force
    then have "\<not> recent_open (ae_now ev') req' (new_alert u t req)" for u t
      by (auto simp: recent_open_def new_alert_def alert_key_def)
    ultimately show ?thesis by (auto simp: insert_alert_def none_recent_append split: option.split)
  qed
  have "dedup_ok ?db" using insert_alert_dedup [OF _ ok(2)] ok(1) assms(1) by (simp add: sys_ok_def env_ok_def)
  moreover have "alerts_le (fl_alerts (sy_fleet s)) (fl_alerts ?db)" by (simp add: insert_alert_def split: option.split)
  ultimately show ?thesis
    using assms(2) keys(1) other sub assms(1) by (auto simp: p on_alerts_def sys_ok_def)
qed

lemma alert_next_ok:
  assumes "sys_ok s" "event_ok e s"
  shows "sys_ok (alert_next e s) \<and> alerts_le (fl_alerts (sy_fleet s)) (fl_alerts (sy_fleet (alert_next e s)))"
proof (cases e)
  case (EBegin ev req)
  then have "env_ok ev" "alert_key req \<notin> set (map (alert_key \<circ> snd) (sy_pending s))" using assms(2) by auto
  then show ?thesis using EBegin assms(1) by (auto simp: sys_ok_def alert_wanted_iff env_ok_def)
next
  case (EFinish n)
  then show ?thesis using assms(1) sys_ok_finish [OF assms(1), of n] by (cases "n < length (sy_pending s)") auto
next
  case (ETick tk)
  obtain new where new: "fl_alerts (snd (monitor_tick tk (sy_fleet s))) = fl_alerts (sy_fleet s) @ new" "al_AlertType ` set new \<subseteq> monitor_types"
    using monitor_tick_adds by blast
  have g: "grows (sy_fleet s) (snd (monitor_tick tk (sy_fleet s)))"
    using ETick assms by (intro monitor_tick_grows) (auto simp: sys_ok_def)
  have "none_recent ev req (snd (monitor_tick tk (sy_fleet s)))" if "(ev, req) \<in> set (sy_pending s)" for ev req
  proof -
    have "ar_AlertType req \<notin> monitor_types" using that ETick assms(2) by (auto simp: list_all_iff)
    moreover have "none_recent ev req (sy_fleet s)" using that assms(1) by (auto simp: sys_ok_def)
    ultimately show ?thesis using new by (auto simp: none_recent_def recent_open_def)
  qed
  with g show ?thesis using ETick assms(1) by (auto simp: on_alerts_def sys_ok_def grows_def)
next
  case (EAck U err now c)
  have "dedup_ok (sy_fleet s)" using assms(1) by (simp add: sys_ok_def)
  note g = AckAlert_grows [OF this, of U err now c]
  have "sys_ok (alert_next e s)"
    by (rule sys_ok_no_new [OF assms(1)]) (use g EAck in \<open>simp_all add: on_alerts_def\<close>)
  with g EAck show ?thesis by (simp add: on_alerts_def grows_def)
next
  case (EDeliver av wh d)
  have "dedup_ok (sy_fleet s)" using assms(1) by (simp add: sys_ok_def)
  note g = delivery_loop_grows [OF this, of maxWebhookRetries 0 av wh d]
  have "sys_ok (alert_next e s)"
    by (rule sys_ok_no_new [OF assms(1)]) (use g EDeliver in \<open>simp_all add: deliverWebhookWithRetry_def\<close>)
  with g EDeliver show ?thesis by (simp add: deliverWebhookWithRetry_def grows_def)
qed

interpretation alerting: growing_system alert_next event_ok sys_ok
  "\<lambda>s s'. alerts_le (fl_alerts (sy_fleet s)) (fl_alerts (sy_fleet s'))"
  by unfold_locales (auto dest: alert_next_ok intro: alerts_le_trans)

primrec alert_run :: "alert_event list \<Rightarrow> alert_sys \<Rightarrow> alert_sys" where
  "alert_run [] s = s"
| "alert_run (e # es) s = alert_run es (alert_next e s)"

primrec alert_run_ok :: "alert_event list \<Rightarrow> alert_sys \<Rightarrow> bool" where
  "alert_run_ok [] s = True"
| "alert_run_ok (e # es) s \<longleftrightarrow> event_ok e s \<and> alert_run_ok es (alert_next e s)"

lemma alert_run_eq: "alerting.run es s = alert_run es s" "alerting.pre_run es s = alert_run_ok es s"
  by (induction es arbitrary: s) simp_all

lemma overlapping_calls_insert_twice:
  assumes "env_ok ev" "env_ok ev'" "ae_err_insert ev = None" "ae_err_insert ev' = None"
    and "ar_DeviceID req \<in> d_ID ` set (fl_devices (ag_fleet st))" "none_recent ev req (ag_fleet st)" "none_recent ev' req (ag_fleet st)"
  shows "fl_alerts (sy_fleet (alert_run [EBegin ev req, EBegin ev' req, EFinish 0, EFinish 0] \<lparr>sy_alerting = st, sy_pending = []\<rparr>)) =
    fl_alerts (ag_fleet st) @ [new_alert (ae_uuid ev) (ae_now' ev) req, new_alert (ae_uuid ev') (ae_now' ev') req]"
proof -
  have "list_ex (\<lambda>d. d_ID d = ar_DeviceID req) (fl_devices (ag_fleet st))" using assms(5) by (auto simp: list_ex_iff)
  then show ?thesis
    using assms by (simp add: alert_wanted_iff env_ok_def on_alerts_def insert_alert_def)
qed

section \<open>Deliveries\<close>

definition http_ok :: "http_outcome \<Rightarrow> bool" where
  "http_ok out = (case out of Response sc body \<Rightarrow> 200 \<le> sc \<and> sc < 300 | _ \<Rightarrow> False)"

text \<open>The row an attempt writes, and when the database takes it.\<close>

definition attempt_row :: "webhook_config \<Rightarrow> dispatch \<Rightarrow> http_outcome \<Rightarrow> delivery" where
  "attempt_row wh d out =
     \<lparr>dl_webhook_id = wh_ID wh, dl_alert_id = dp_alertID d,
      dl_status_code = (case out of Response sc _ \<Rightarrow> sc | _ \<Rightarrow> 0), dl_response_body = (case out of Response _ body \<Rightarrow> body | _ \<Rightarrow> []),
      dl_error = (case out of Response _ _ \<Rightarrow> [] | MarshalErr e \<Rightarrow> e | NewRequestErr e \<Rightarrow> e | DoErr e \<Rightarrow> e)\<rparr>"

definition log_accepted :: "attempt_env \<Rightarrow> webhook_config \<Rightarrow> dispatch \<Rightarrow> alerting \<Rightarrow> bool" where
  "log_accepted av wh d st \<longleftrightarrow> at_err_log av = None \<and> wh_ID wh \<in> wh_ID ` set (ag_webhooks st) \<and>
     dp_alertID d \<in> al_ID ` set (fl_alerts (ag_fleet st)) \<and>
     pg_text (dl_response_body (attempt_row wh d (at_http av))) \<and> pg_text (dl_error (attempt_row wh d (at_http av)))"

lemma logDelivery_rows:
  "out = at_http av \<Longrightarrow> r = attempt_row wh d out \<Longrightarrow>
   ag_deliveries (logDelivery (at_err_log av) (wh_ID wh) (dp_alertID d) (dl_status_code r) (dl_response_body r) (dl_error r) st) =
     ag_deliveries st @ (if log_accepted av wh d st then [r] else [])"
  by (auto simp: logDelivery_def log_accepted_def list_ex_iff attempt_row_def split: http_outcome.splits intro: rev_image_eqI)

lemma pg_text_Nil [simp]: "pg_text []"
  by (simp add: pg_text_def)

definition sent_alerts :: "attempt_env \<Rightarrow> dispatch \<Rightarrow> alert_row list \<Rightarrow> alert_row list" where
  "sent_alerts av d as = (if at_err_alert av = None then map (sent_row (at_now av) (dp_alertID d)) as else as)"

lemma deliver_success:
  assumes "http_ok (at_http av)"
  obtains sc st' where "deliverWebhook av wh d n st = (Inr sc, st')"
    "ag_deliveries st' = ag_deliveries st @ (if log_accepted av wh d st then [attempt_row wh d (at_http av)] else [])"
    "fl_alerts (ag_fleet st') = sent_alerts av d (fl_alerts (ag_fleet st))"
  using assms that logDelivery_rows [OF refl refl, of av wh d st]
  by (auto simp: http_ok_def deliverWebhook_def Let_def mark_sent_def sent_alerts_def attempt_row_def split: http_outcome.splits)

lemma deliver_failure:
  assumes "\<not> http_ok (at_http av)"
  obtains e st' rows where "deliverWebhook av wh d n st = (Inl e, st')" "ag_fleet st' = ag_fleet st" "ag_webhooks st' = ag_webhooks st"
    "ag_deliveries st' = ag_deliveries st @ rows" "length rows \<le> 1"
    "n = 2 \<Longrightarrow> log_accepted av wh d st \<Longrightarrow> rows = [attempt_row wh d (at_http av)]"
  using assms that logDelivery_rows [OF refl refl, of av wh d st]
  by (cases "n = 2") (auto simp: http_ok_def deliverWebhook_def Let_def attempt_row_def split: http_outcome.splits)

lemma log_accepted_cong:
  "ag_fleet st' = ag_fleet st \<Longrightarrow> ag_webhooks st' = ag_webhooks st \<Longrightarrow> log_accepted av wh d st' = log_accepted av wh d st"
  by (simp add: log_accepted_def)

section \<open>Properties\<close>

text \<open>C15: No alert storm: whatever alerts are raised by scans and by the monitors, acknowledged and
  delivered in whatever order, two open alerts of the same device and type are at least 24 hours
  apart, as long as the count of recent alerts does not fail, the clock does not go back between count and
  insertion, and no two calls of \<open>CreateAlert\<close> for the same device and type overlap (for the turn of a monitor:
  no call for a type of the monitors is under way). The last condition is needed, and nothing in the code
  ensures it: two calls that both count before either inserts leave two open alerts of the same device and
  type, however close in time.\<close>

theorem alerts_deduplicated:
  assumes "fl_alerts (ag_fleet st) = []"
  shows "(\<forall>es as i j. alert_run_ok es \<lparr>sy_alerting = st, sy_pending = []\<rparr> \<and>
       as = fl_alerts (sy_fleet (alert_run es \<lparr>sy_alerting = st, sy_pending = []\<rparr>)) \<and> i < j \<and> j < length as \<and>
       al_DeviceID (as ! i) = al_DeviceID (as ! j) \<and> al_AlertType (as ! i) = al_AlertType (as ! j) \<and>
       \<not> al_IsAcknowledged (as ! i) \<and> \<not> al_IsAcknowledged (as ! j) \<longrightarrow>
       al_TriggeredAt (as ! i) + 24 * hour \<le> al_TriggeredAt (as ! j)) \<and>
    (\<forall>ev ev' req. env_ok ev \<and> env_ok ev' \<and> ae_err_insert ev = None \<and> ae_err_insert ev' = None \<and>
       ar_DeviceID req \<in> d_ID ` set (fl_devices (ag_fleet st)) \<longrightarrow>
       fl_alerts (sy_fleet (alert_run [EBegin ev req, EBegin ev' req, EFinish 0, EFinish 0] \<lparr>sy_alerting = st, sy_pending = []\<rparr>)) =
         [new_alert (ae_uuid ev) (ae_now' ev) req, new_alert (ae_uuid ev') (ae_now' ev') req])"
proof (intro conjI allI impI; elim conjE)
  fix es as i j
  assume run: "alert_run_ok es \<lparr>sy_alerting = st, sy_pending = []\<rparr>"
    and as: "as = fl_alerts (sy_fleet (alert_run es \<lparr>sy_alerting = st, sy_pending = []\<rparr>))" "i < j" "j < length as"
    and same: "al_DeviceID (as ! i) = al_DeviceID (as ! j)" "al_AlertType (as ! i) = al_AlertType (as ! j)"
      "\<not> al_IsAcknowledged (as ! i)" "\<not> al_IsAcknowledged (as ! j)"
  have "sys_ok \<lparr>sy_alerting = st, sy_pending = []\<rparr>" using assms by (simp add: sys_ok_def dedup_ok_def)
  then have "dedup_ok (sy_fleet (alert_run es \<lparr>sy_alerting = st, sy_pending = []\<rparr>))"
    using alerting.run_inv [of _ es, unfolded alert_run_eq] run by (simp add: sys_ok_def)
  then have "apart (as ! i) (as ! j)" using as by (auto simp: dedup_ok_def sorted_wrt_iff_nth_less)
  with same show "al_TriggeredAt (as ! i) + 24 * hour \<le> al_TriggeredAt (as ! j)" by (simp add: apart_def)
next
  fix ev ev' and req :: alert_request
  assume a: "env_ok ev" "env_ok ev'" "ae_err_insert ev = None" "ae_err_insert ev' = None" "ar_DeviceID req \<in> d_ID ` set (fl_devices (ag_fleet st))"
  have "none_recent e req (ag_fleet st)" for e using assms by (simp add: none_recent_def)
  with overlapping_calls_insert_twice [OF a] assms
  show "fl_alerts (sy_fleet (alert_run [EBegin ev req, EBegin ev' req, EFinish 0, EFinish 0] \<lparr>sy_alerting = st, sy_pending = []\<rparr>)) =
    [new_alert (ae_uuid ev) (ae_now' ev) req, new_alert (ae_uuid ev') (ae_now' ev') req]" by simp
qed

definition demo_device :: device where
  "demo_device = \<lparr>d_ID = ''d1'', d_IPAddress = ''10.0.0.7'', d_MACAddress = None, d_Hostname = None, d_Vendor = None,
     d_DeviceType = ''camera'', d_OSFingerprint = None, d_FirmwareVersion = None, d_FirstSeen = 0, d_LastSeen = 0,
     d_RiskScore = 0, d_IsActive = True, d_Tags = None, d_RawNmap = []\<rparr>"

definition demo_alerting :: alerting where
  "demo_alerting = \<lparr>ag_fleet = \<lparr>fl_devices = [demo_device], fl_scans = [], fl_vulns = [], fl_firmware = [], fl_alerts = []\<rparr>,
     ag_webhooks = [], ag_deliveries = []\<rparr>"

definition demo_alert_env :: "time \<Rightarrow> alert_env" where
  "demo_alert_env t = \<lparr>ae_now = t, ae_now' = t, ae_uuid = itoa t, ae_err_count = None, ae_err_insert = None\<rparr>"

definition demo_alert_run :: "alert_event list" where
  "demo_alert_run = [EBegin (demo_alert_env 0) (offline_request demo_device), EFinish 0,
     EBegin (demo_alert_env hour) (offline_request demo_device),
     EBegin (demo_alert_env (25 * hour)) (offline_request demo_device), EFinish 0]"

abbreviation demo_sys :: alert_sys where
  "demo_sys \<equiv> \<lparr>sy_alerting = demo_alerting, sy_pending = []\<rparr>"

lemmas demo_alert_defs = demo_alert_run_def demo_alerting_def alert_wanted_def insert_alert_def on_alerts_def recent_open_def new_alert_def
  offline_request_def demo_alert_env_def demo_device_def env_ok_def

lemma demo_alerts:
  "fl_alerts (sy_fleet (alert_run demo_alert_run demo_sys)) =
     [new_alert (itoa 0) 0 (offline_request demo_device), new_alert (itoa (25 * hour)) (25 * hour) (offline_request demo_device)]"
  by (simp add: demo_alert_defs Let_def)

lemma demo_alert_run_ok: "alert_run_ok demo_alert_run demo_sys"
  by (simp add: demo_alert_defs Let_def)

theorem alerts_deduplicated_witness:
  "al_TriggeredAt (new_alert (itoa 0) 0 (offline_request demo_device)) + 24 * hour
   \<le> al_TriggeredAt (new_alert (itoa (25 * hour)) (25 * hour) (offline_request demo_device)) \<and>
   length (fl_alerts (sy_fleet (alert_run [EBegin (demo_alert_env 0) (offline_request demo_device),
     EBegin (demo_alert_env 1) (offline_request demo_device), EFinish 0, EFinish 0] demo_sys))) = 2"
proof -
  have "fl_alerts (ag_fleet demo_alerting) = []" by (simp add: demo_alerting_def)
  note dd = alerts_deduplicated [OF this]
  have "env_ok (demo_alert_env t)" "ae_err_insert (demo_alert_env t) = None" for t by (simp_all add: demo_alert_env_def env_ok_def)
  moreover have "ar_DeviceID (offline_request demo_device) \<in> d_ID ` set (fl_devices (ag_fleet demo_alerting))"
    by (simp add: offline_request_def demo_alerting_def)
  ultimately show ?thesis
    using dd [THEN conjunct1, rule_format, of demo_alert_run "fl_alerts (sy_fleet (alert_run demo_alert_run demo_sys))" 0 1]
      dd [THEN conjunct2, rule_format, of "demo_alert_env 0" "demo_alert_env 1" "offline_request demo_device"] demo_alert_run_ok
    unfolding demo_alerts by (simp add: new_alert_def del: alert_run.simps)
qed

text \<open>No alert is swallowed: when its statements succeed and its device exists, raising an
  alert leaves an open alert of that device and type less than 24 hours old; a new row is
  dispatched to the webhooks exactly when there was none before.\<close>

theorem alert_is_open:
  assumes "ae_err_count ev = None" "ae_err_insert ev = None" "ae_now ev \<le> ae_now' ev" "ae_now' ev < ae_now ev + 24 * hour"
    and "d_ID dev = ar_DeviceID req" "dev \<in> set (fl_devices db)"
  shows "case CreateAlert ev req db of (e, dp, db') \<Rightarrow>
    e = None \<and> (\<exists>a \<in> set (fl_alerts db'). recent_open (ae_now ev) req a) \<and>
    (dp = None \<longleftrightarrow> (\<exists>a \<in> set (fl_alerts db). recent_open (ae_now ev) req a))"
proof (cases "\<exists>a \<in> set (fl_alerts db). recent_open (ae_now ev) req a")
  case True
  then have "\<not> none_recent ev req db" by (auto simp: none_recent_def)
  with True assms show ?thesis by (auto simp: CreateAlert_def alert_wanted_iff)
next
  case False
  then have "none_recent ev req db" by (simp add: none_recent_def)
  moreover have "list_ex (\<lambda>d. d_ID d = ar_DeviceID req) (fl_devices db)" using assms(5,6) by (auto simp: list_ex_iff)
  moreover have "recent_open (ae_now ev) req (new_alert (ae_uuid ev) (ae_now' ev) req)"
    using assms(3,4) by (simp add: recent_open_def new_alert_def)
  ultimately show ?thesis using False assms(1,2) by (simp add: CreateAlert_def alert_wanted_iff insert_alert_def)
qed

theorem alert_is_open_witness:
  "case CreateAlert (demo_alert_env 0) (offline_request demo_device) (ag_fleet demo_alerting) of (e, dp, db') \<Rightarrow>
    e = None \<and> (\<exists>a \<in> set (fl_alerts db'). recent_open (ae_now (demo_alert_env 0)) (offline_request demo_device) a) \<and>
    (dp = None \<longleftrightarrow> (\<exists>a \<in> set (fl_alerts (ag_fleet demo_alerting)). recent_open (ae_now (demo_alert_env 0)) (offline_request demo_device) a))"
  by (rule alert_is_open [where dev = demo_device])
     (simp_all add: demo_alert_env_def demo_device_def offline_request_def demo_alerting_def)

text \<open>C27: Delivery to a webhook makes at most three attempts, waits one second and then two between
  them, and reports success exactly when one of them is answered with a 2xx status. After a
  success, and if the statement for it succeeds, the alert is marked as sent with the time of that
  attempt; otherwise the alerts stay as they were. The delivery log only grows, by at most
  three rows; the last attempt is logged, with its status, body and error, if the statement succeeds, which
  takes a webhook and an alert that still exist and a body and an error message that are valid text.\<close>

theorem webhook_delivery:
  "case deliverWebhookWithRetry av wh d st of (sleeps, res, st') \<Rightarrow>
     let ok = (\<lambda>n. http_ok (at_http (av n))); k = (if ok 0 then 0 else if ok 1 then 1 else 2) in
     (res \<noteq> None \<longleftrightarrow> ok 0 \<or> ok 1 \<or> ok 2) \<and>
     sleeps = (if ok 0 then [] else if ok 1 then [second] else [second, 2 * second]) \<and>
     fl_alerts (ag_fleet st') =
       map (\<lambda>a. if res \<noteq> None \<and> at_err_alert (av k) = None \<and> al_ID a = dp_alertID d
                then a\<lparr>al_webhook_sent := True, al_webhook_sent_at := Some (at_now (av k))\<rparr> else a) (fl_alerts (ag_fleet st)) \<and>
     (\<exists>rows. ag_deliveries st' = ag_deliveries st @ rows \<and> length rows \<le> 3 \<and>
        (log_accepted (av k) wh d st \<longrightarrow>
           (\<exists>rest. rows = rest @ [\<lparr>dl_webhook_id = wh_ID wh, dl_alert_id = dp_alertID d,
              dl_status_code = (case at_http (av k) of Response sc _ \<Rightarrow> sc | _ \<Rightarrow> 0),
              dl_response_body = (case at_http (av k) of Response _ body \<Rightarrow> body | _ \<Rightarrow> []),
              dl_error = (case at_http (av k) of Response _ _ \<Rightarrow> [] | MarshalErr e \<Rightarrow> e | NewRequestErr e \<Rightarrow> e | DoErr e \<Rightarrow> e)\<rparr>])))"
proof -
  note loop = deliverWebhookWithRetry_def numeral_3_eq_3
  note row = attempt_row_def [symmetric]
  have sent: "map (\<lambda>a. if at_err_alert v = None \<and> al_ID a = dp_alertID d
      then a\<lparr>al_webhook_sent := True, al_webhook_sent_at := Some (at_now v)\<rparr> else a) as = sent_alerts v d as" for v as
    by (auto simp: sent_alerts_def sent_row_def)
  show ?thesis
  proof (cases "http_ok (at_http (av 0))")
    case True
    show ?thesis
      by (rule deliver_success [OF True, of wh d 0 st]) (use True in \<open>simp add: loop row sent Let_def\<close>)
  next
    case f0: False
    obtain e0 st0 r0 where 0: "deliverWebhook (av 0) wh d 0 st = (Inl e0, st0)" "ag_fleet st0 = ag_fleet st" "ag_webhooks st0 = ag_webhooks st"
      "ag_deliveries st0 = ag_deliveries st @ r0" "length r0 \<le> 1"
      using deliver_failure [OF f0] by metis
    note acc0 = log_accepted_cong [OF 0(2,3)]
    show ?thesis
    proof (cases "http_ok (at_http (av 1))")
      case True
      show ?thesis
        by (rule deliver_success [OF True, of wh d 1 st0]) (use True f0 0 in \<open>simp add: loop row sent acc0 Let_def cong: if_cong\<close>)
    next
      case f1: False
      obtain e1 st1 r1 where 1: "deliverWebhook (av 1) wh d 1 st0 = (Inl e1, st1)" "ag_fleet st1 = ag_fleet st0" "ag_webhooks st1 = ag_webhooks st0"
        "ag_deliveries st1 = ag_deliveries st0 @ r1" "length r1 \<le> 1"
        using deliver_failure [OF f1] by metis
      note acc1 = log_accepted_cong [OF 1(2,3)]
      show ?thesis
      proof (cases "http_ok (at_http (av 2))")
        case True
        show ?thesis
          by (rule deliver_success [OF True, of wh d 2 st1])
             (use True f0 f1 0 1 in \<open>simp add: loop row sent acc0 acc1 Let_def numeral_2_eq_2 cong: if_cong\<close>)
      next
        case f2: False
        obtain e2 st2 r2 where 2: "deliverWebhook (av 2) wh d 2 st1 = (Inl e2, st2)" "ag_fleet st2 = ag_fleet st1"
          "ag_deliveries st2 = ag_deliveries st1 @ r2" "length r2 \<le> 1"
          "log_accepted (av 2) wh d st1 \<Longrightarrow> r2 = [attempt_row wh d (at_http (av 2))]"
          using deliver_failure [OF f2, of wh d 2 st1] by (metis refl)
        then show ?thesis using f0 f1 f2 0 1 by (simp add: loop row acc0 acc1 Let_def numeral_2_eq_2 cong: if_cong)
      qed
    qed
  qed
qed

definition demo_webhook :: webhook_config where
  "demo_webhook = \<lparr>wh_ID = ''w1'', wh_Name = ''ops'', wh_URL = ''http://hooks'', wh_WebhookType = ''slack'',
     wh_MinSeverity = ''high'', wh_IsActive = True, wh_Secret = None, wh_Headers = [], wh_last_triggered = None,
     wh_created_at = 0\<rparr>"

definition demo_attempt :: "nat \<Rightarrow> attempt_env" where
  "demo_attempt n = \<lparr>at_http = (if n < 2 then DoErr ''timeout'' else Response 200 ''ok''), at_now = 0, at_err_log = None,
     at_err_alert = None, at_err_webhook = None\<rparr>"

definition demo_sent :: alerting where
  "demo_sent = demo_alerting\<lparr>ag_fleet := (ag_fleet demo_alerting)\<lparr>fl_alerts := [new_alert ''a1'' 0 (offline_request demo_device)]\<rparr>,
     ag_webhooks := [demo_webhook]\<rparr>"

theorem webhook_delivery_witness:
  "ag_deliveries (snd (snd (deliverWebhookWithRetry demo_attempt demo_webhook
      \<lparr>dp_alertID = ''a1'', dp_severity = ''high'', dp_title = [], dp_description = [], dp_deviceID = ''d1''\<rparr> demo_sent))) \<noteq> []"
proof -
  let ?d = "\<lparr>dp_alertID = ''a1'', dp_severity = ''high'', dp_title = [], dp_description = [], dp_deviceID = ''d1''\<rparr>"
  have "log_accepted (demo_attempt 2) demo_webhook ?d demo_sent"
    by (simp add: log_accepted_def demo_attempt_def demo_sent_def attempt_row_def pg_text_def new_alert_def)
  then show ?thesis
    using webhook_delivery [where av = demo_attempt and wh = demo_webhook and st = demo_sent and d = ?d]
    by (auto simp: demo_attempt_def http_ok_def Let_def split: prod.splits)
qed

end
