(* ===== verification/Safelist.thy ===== *)
theory Safelist
  imports Alerts
begin

text \<open>
  Safelists, scan scopes, scan profiles and the webhook table: \<open>backend/api/safelists.go\<close>.

  \<open>err n\<close> is the error of a handler's \<open>n\<close>-th statement; an error while the rows of a query are
  read is the next one. PostgreSQL's \<open>ip::inet <<= value::cidr\<close> is the parameter \<open>inet_in\<close>, with
  the value \<open>None\<close> when one of the casts fails. The pair of type and value of a safelist entry is
  unique (migration 007, and per tenant since migration 015).
\<close>

section \<open>Tables\<close>

record safelist_row =
  se_id :: string
  se_entry_type :: string
  se_value :: string
  se_reason :: "string option"
  se_created_by :: "string option"
  se_created_at :: time
  se_is_active :: bool

record scan_profile =
  sp_id :: string
  sp_name :: string
  sp_description :: "string option"
  sp_skip_credential_test :: bool
  sp_skip_protocol_probe :: bool
  sp_max_port_count :: int
  sp_timeout_seconds :: int
  sp_is_default :: bool

record scan_scope =
  sc_id :: string
  sc_cidr :: string
  sc_label :: "string option"
  sc_is_active :: bool
  sc_created_at :: time

record scan_admin =
  sa_safelists :: "safelist_row list"
  sa_profiles :: "scan_profile list"
  sa_scopes :: "scan_scope list"

section \<open>Safelists\<close>

definition safelist_json :: "safelist_row \<Rightarrow> json" where
  "safelist_json r = JObj
     [(''id'', JStr (se_id r)), (''entry_type'', JStr (se_entry_type r)), (''value'', JStr (se_value r)),
      (''reason'', jstr_opt (se_reason r)), (''created_by'', jstr_opt (se_created_by r)),
      (''created_at'', JNum (se_created_at r)), (''is_active'', JBool (se_is_active r))]"

definition ListSafelistHandler :: "(nat \<Rightarrow> string option) \<Rightarrow> scan_admin handler" where
  "ListSafelistHandler err c w =
     (case err 0 of Some e \<Rightarrow> (failInternal 500 ''Failed to query safelists: '' e c, w)
      | None \<Rightarrow>
        (case err 1 of Some e \<Rightarrow> (failInternal 500 ''Failed to iterate safelists: '' e c, w)
         | None \<Rightarrow> (success (JArr (map safelist_json (sort_key (\<lambda>r. - se_created_at r) (sa_safelists w)))) c, w)))"

record create_safelist_request =
  cs_EntryType :: string
  cs_Value :: string
  cs_Reason :: string

definition valid_safelist :: "create_safelist_request \<Rightarrow> bool" where
  "valid_safelist r \<longleftrightarrow> cs_EntryType r \<in> {''ip'', ''cidr'', ''mac''} \<and> len_between 1 255 (cs_Value r) \<and> runes (cs_Reason r) \<le> 500"

definition insert_safelist ::
  "string \<Rightarrow> time \<Rightarrow> create_safelist_request \<Rightarrow> string option \<Rightarrow> scan_admin \<Rightarrow> (string + scan_admin)" where
  "insert_safelist uuid now r creator w =
     (if list_ex (\<lambda>x. se_entry_type x = cs_EntryType r \<and> se_value x = cs_Value r) (sa_safelists w)
      then Inl ''pq: duplicate key value violates unique constraint''
      else Inr (w\<lparr>sa_safelists := sa_safelists w @
             [\<lparr>se_id = uuid, se_entry_type = cs_EntryType r, se_value = cs_Value r, se_reason = nullableString (cs_Reason r),
               se_created_by = creator, se_created_at = now, se_is_active = True\<rparr>]\<rparr>))"

definition CreateSafelistHandler ::
  "(nat \<Rightarrow> string option) \<Rightarrow> string \<Rightarrow> time \<Rightarrow> create_safelist_request option \<Rightarrow> scan_admin handler" where
  "CreateSafelistHandler err uuid now body c w =
     (case body of None \<Rightarrow> (failInternal 400 ''Invalid request body'' [] c, w)
      | Some r \<Rightarrow>
        if \<not> valid_safelist r then (failInternal 400 ''Invalid request body'' [] c, w)
        else case (case err 0 of Some e \<Rightarrow> Inl e
                   | None \<Rightarrow> insert_safelist uuid now r (Option.bind (cx_keys c ''user_id'') as_string) w) of
               Inl e \<Rightarrow> (failInternal 500 ''Failed to create safelist entry: '' e c, w)
             | Inr w' \<Rightarrow> (success (JObj [(''id'', JStr uuid), (''message'', JStr ''Safelist entry created'')]) c, w'))"

definition off_row :: "string \<Rightarrow> safelist_row \<Rightarrow> safelist_row" where
  "off_row i r = (if se_id r = i then r\<lparr>se_is_active := False\<rparr> else r)"

definition DeleteSafelistHandler :: "uuid_lib \<Rightarrow> (nat \<Rightarrow> string option) \<Rightarrow> scan_admin handler" where
  "DeleteSafelistHandler U err c w =
     (case uuidParam U ''id'' c of Inl c' \<Rightarrow> (c', w)
      | Inr raw \<Rightarrow>
        (case uuid_arg U (err 0) raw of Inl e \<Rightarrow> (failInternal 500 ''Failed to delete safelist entry: '' e c, w)
         | Inr i \<Rightarrow>
           (let w' = w\<lparr>sa_safelists := map (off_row i) (sa_safelists w)\<rparr> in
            if \<not> list_ex (\<lambda>r. se_id r = i) (sa_safelists w) then (fail 404 ''Safelist entry not found'' c, w')
            else (success (JObj [(''message'', JStr ''Safelist entry deactivated'')]) c, w'))))"

text \<open>
  \<open>IsSafelisted\<close> ignores the error of its query: the count then stays 0. \<open>row_match\<close> is the
  condition of the query on one active row.
\<close>

definition row_match :: "(string \<Rightarrow> string \<Rightarrow> bool option) \<Rightarrow> string \<Rightarrow> safelist_row \<Rightarrow> bool option" where
  "row_match inet_in ip r =
     (if se_entry_type r = ''ip'' \<and> se_value r = ip then Some True
      else if se_entry_type r = ''cidr'' then inet_in ip (se_value r) else Some False)"

definition IsSafelisted :: "(string \<Rightarrow> string \<Rightarrow> bool option) \<Rightarrow> string option \<Rightarrow> scan_admin \<Rightarrow> string \<Rightarrow> bool" where
  "IsSafelisted inet_in err w ip =
     (let rows = filter se_is_active (sa_safelists w); ms = map (row_match inet_in ip) rows;
          count = (if err \<noteq> None \<or> None \<in> set ms then 0 else length (filter (\<lambda>m. m = Some True) ms))
      in count > 0)"

section \<open>Scan profiles and scopes\<close>

definition profile_json :: "scan_profile \<Rightarrow> json" where
  "profile_json p = JObj
     [(''id'', JStr (sp_id p)), (''name'', JStr (sp_name p)),
      (''description'', JStr (case sp_description p of None \<Rightarrow> [] | Some d \<Rightarrow> d)),
      (''skip_credential_test'', JBool (sp_skip_credential_test p)), (''skip_protocol_probe'', JBool (sp_skip_protocol_probe p)),
      (''max_port_count'', JNum (sp_max_port_count p)), (''timeout_seconds'', JNum (sp_timeout_seconds p)),
      (''is_default'', JBool (sp_is_default p))]"

text \<open>\<open>ORDER BY name\<close> follows the collation of the database, the parameter \<open>name_le\<close>.\<close>

fun insert_by :: "('a \<Rightarrow> 'a \<Rightarrow> bool) \<Rightarrow> 'a \<Rightarrow> 'a list \<Rightarrow> 'a list" where
  "insert_by le x [] = [x]"
| "insert_by le x (y # ys) = (if le x y then x # y # ys else y # insert_by le x ys)"

definition sort_by :: "('a \<Rightarrow> 'a \<Rightarrow> bool) \<Rightarrow> 'a list \<Rightarrow> 'a list" where
  "sort_by le xs = foldr (insert_by le) xs []"

definition ListScanProfilesHandler :: "(string \<Rightarrow> string \<Rightarrow> bool) \<Rightarrow> (nat \<Rightarrow> string option) \<Rightarrow> scan_admin handler" where
  "ListScanProfilesHandler name_le err c w =
     (if err 0 \<noteq> None then (fail 500 ''Failed to query scan profiles'' c, w)
      else if err 1 \<noteq> None then (fail 500 ''Failed to iterate scan profiles'' c, w)
      else (success (JArr (map profile_json (sort_by (\<lambda>p q. name_le (sp_name p) (sp_name q)) (sa_profiles w)))) c, w))"

definition scope_json :: "scan_scope \<Rightarrow> json" where
  "scope_json s = JObj [(''id'', JStr (sc_id s)), (''cidr'', JStr (sc_cidr s)),
     (''label'', JStr (case sc_label s of None \<Rightarrow> [] | Some l \<Rightarrow> l)), (''is_active'', JBool (sc_is_active s))]"

definition ListScanScopesHandler :: "(nat \<Rightarrow> string option) \<Rightarrow> scan_admin handler" where
  "ListScanScopesHandler err c w =
     (if err 0 \<noteq> None then (fail 500 ''Failed to query scan scopes'' c, w)
      else if err 1 \<noteq> None then (fail 500 ''Failed to iterate scan scopes'' c, w)
      else (success (JArr (map scope_json (sort_key (\<lambda>s. - sc_created_at s) (sa_scopes w)))) c, w))"

record create_scope_request =
  co_CIDR :: string
  co_Label :: string

text \<open>The validator's \<open>cidr\<close> tag is the parameter \<open>is_cidr\<close>.\<close>

definition CreateScanScopeHandler ::
  "(string \<Rightarrow> bool) \<Rightarrow> (nat \<Rightarrow> string option) \<Rightarrow> string \<Rightarrow> time \<Rightarrow> create_scope_request option \<Rightarrow> scan_admin handler" where
  "CreateScanScopeHandler is_cidr err uuid now body c w =
     (case body of None \<Rightarrow> (failInternal 400 ''Invalid request body'' [] c, w)
      | Some r \<Rightarrow>
        if co_CIDR r = [] \<or> \<not> is_cidr (co_CIDR r) \<or> runes (co_Label r) > 200
        then (failInternal 400 ''Invalid request body'' [] c, w)
        else case err 0 of Some e \<Rightarrow> (failInternal 500 ''Failed to create scan scope: '' e c, w)
             | None \<Rightarrow>
               (success (JObj [(''id'', JStr uuid), (''message'', JStr ''Scan scope created'')]) c,
                w\<lparr>sa_scopes := sa_scopes w @ [\<lparr>sc_id = uuid, sc_cidr = co_CIDR r, sc_label = nullableString (co_Label r),
                     sc_is_active = True, sc_created_at = now\<rparr>]\<rparr>))"

definition DeleteScanScopeHandler :: "uuid_lib \<Rightarrow> (nat \<Rightarrow> string option) \<Rightarrow> scan_admin handler" where
  "DeleteScanScopeHandler U err c w =
     (case uuidParam U ''id'' c of Inl c' \<Rightarrow> (c', w)
      | Inr raw \<Rightarrow>
        (case uuid_arg U (err 0) raw of Inl _ \<Rightarrow> (fail 500 ''Failed to delete scan scope'' c, w)
        | Inr i \<Rightarrow> (let w' = w\<lparr>sa_scopes := map (\<lambda>s. if sc_id s = i then s\<lparr>sc_is_active := False\<rparr> else s) (sa_scopes w)\<rparr> in
              if \<not> list_ex (\<lambda>s. sc_id s = i) (sa_scopes w) then (fail 404 ''Scan scope not found'' c, w')
              else (success (JObj [(''message'', JStr ''Scan scope deactivated'')]) c, w'))))"

section \<open>Webhooks\<close>

definition webhook_info_json :: "webhook_config \<Rightarrow> json" where
  "webhook_info_json h = JObj
     [(''id'', JStr (wh_ID h)), (''name'', JStr (wh_Name h)), (''url'', JStr (wh_URL h)), (''webhook_type'', JStr (wh_WebhookType h)),
      (''min_severity'', JStr (wh_MinSeverity h)), (''is_active'', JBool (wh_IsActive h)),
      (''last_triggered'', jtime_opt (wh_last_triggered h))]"

definition ListWebhooksHandler :: "(nat \<Rightarrow> string option) \<Rightarrow> alerting handler" where
  "ListWebhooksHandler err c w =
     (if err 0 \<noteq> None then (fail 500 ''Failed to query webhooks'' c, w)
      else if err 1 \<noteq> None then (fail 500 ''Failed to iterate webhooks'' c, w)
      else (success (JArr (map webhook_info_json (sort_key (\<lambda>h. - wh_created_at h) (ag_webhooks w)))) c, w))"

record create_webhook_request =
  cw_Name :: string
  cw_URL :: string
  cw_WebhookType :: string
  cw_MinSeverity :: string

definition valid_webhook :: "(string \<Rightarrow> bool) \<Rightarrow> create_webhook_request \<Rightarrow> bool" where
  "valid_webhook is_url r \<longleftrightarrow> len_between 1 100 (cw_Name r) \<and> cw_URL r \<noteq> [] \<and> is_url (cw_URL r) \<and>
     cw_WebhookType r \<in> {''slack'', ''teams'', ''generic''} \<and>
     cw_MinSeverity r \<in> {[], ''critical'', ''high'', ''medium'', ''low''}"

definition CreateWebhookHandler ::
  "(string \<Rightarrow> bool) \<Rightarrow> (nat \<Rightarrow> string option) \<Rightarrow> string \<Rightarrow> time \<Rightarrow> create_webhook_request option \<Rightarrow> alerting handler" where
  "CreateWebhookHandler is_url err uuid now body c w =
     (case body of None \<Rightarrow> (failInternal 400 ''Invalid request body'' [] c, w)
      | Some r \<Rightarrow>
        if \<not> valid_webhook is_url r then (failInternal 400 ''Invalid request body'' [] c, w)
        else (let sev = (if cw_MinSeverity r = [] then ''high'' else cw_MinSeverity r) in
              case err 0 of Some e \<Rightarrow> (failInternal 500 ''Failed to create webhook: '' e c, w)
              | None \<Rightarrow>
                (success (JObj [(''id'', JStr uuid), (''message'', JStr (''Webhook '' @ [char_of (39 :: nat)] @ cw_Name r @ [char_of (39 :: nat)] @ '' created''))]) c,
                 w\<lparr>ag_webhooks := ag_webhooks w @
                     [\<lparr>wh_ID = uuid, wh_Name = cw_Name r, wh_URL = cw_URL r, wh_WebhookType = cw_WebhookType r, wh_MinSeverity = sev,
                       wh_IsActive = True, wh_Secret = None, wh_Headers = ''{}'', wh_last_triggered = None, wh_created_at = now\<rparr>]\<rparr>)))"

text \<open>Deleting a webhook deletes its delivery log too (\<open>ON DELETE CASCADE\<close>).\<close>

definition DeleteWebhookHandler :: "uuid_lib \<Rightarrow> (nat \<Rightarrow> string option) \<Rightarrow> alerting handler" where
  "DeleteWebhookHandler U err c w =
     (case uuidParam U ''id'' c of Inl c' \<Rightarrow> (c', w)
      | Inr raw \<Rightarrow>
        (case uuid_arg U (err 0) raw of Inl _ \<Rightarrow> (fail 500 ''Failed to delete webhook'' c, w)
        | Inr i \<Rightarrow> (let w' = w\<lparr>ag_webhooks := filter (\<lambda>h. wh_ID h \<noteq> i) (ag_webhooks w),
                          ag_deliveries := filter (\<lambda>d. dl_webhook_id d \<noteq> i) (ag_deliveries w)\<rparr> in
              if \<not> list_ex (\<lambda>h. wh_ID h = i) (ag_webhooks w) then (fail 404 ''Webhook not found'' c, w')
              else (success (JObj [(''message'', JStr ''Webhook deleted'')]) c, w'))))"

text \<open>The result of the test request is a parameter: the URL it is sent to gives its error, if any.\<close>

definition TestWebhookHandler ::
  "uuid_lib \<Rightarrow> (nat \<Rightarrow> string option) \<Rightarrow> (string \<Rightarrow> string option) \<Rightarrow> alerting handler" where
  "TestWebhookHandler U err post c w =
     (case uuidParam U ''id'' c of Inl c' \<Rightarrow> (c', w)
      | Inr raw \<Rightarrow>
        (case (case uuid_arg U (err 0) raw of Inl _ \<Rightarrow> None | Inr i \<Rightarrow> find (\<lambda>h. wh_ID h = i) (ag_webhooks w)) of
           None \<Rightarrow> (fail 404 ''Webhook not found'' c, w)
         | Some h \<Rightarrow>
           (case post (wh_URL h) of
              Some e \<Rightarrow> (failInternal 502 ''Failed to send test webhook'' e c, w)
            | None \<Rightarrow> (success (JObj [(''status'', JStr ''test_webhook_sent'')]) c, w))))"

section \<open>Lemmas\<close>

text \<open>Every active network entry can be compared with the address.\<close>

definition comparable :: "(string \<Rightarrow> string \<Rightarrow> bool option) \<Rightarrow> string \<Rightarrow> scan_admin \<Rightarrow> bool" where
  "comparable inet_in ip w \<longleftrightarrow>
     list_all (\<lambda>r. se_is_active r \<and> se_entry_type r = ''cidr'' \<longrightarrow> inet_in ip (se_value r) \<noteq> None) (sa_safelists w)"

lemma IsSafelisted_iff:
  assumes "comparable inet_in ip w"
  shows "IsSafelisted inet_in None w ip \<longleftrightarrow>
    (\<exists>r \<in> set (sa_safelists w). se_is_active r \<and> row_match inet_in ip r = Some True)"
proof -
  have "None \<notin> set (map (row_match inet_in ip) (filter se_is_active (sa_safelists w)))"
    using assms by (auto simp: comparable_def list_all_iff row_match_def split: if_splits)
  then show ?thesis by (auto simp: IsSafelisted_def Let_def filter_empty_conv)
qed

lemma IsSafelisted_malformed:
  "r \<in> set (sa_safelists w) \<Longrightarrow> se_is_active r \<Longrightarrow> se_entry_type r = ''cidr'' \<Longrightarrow> inet_in ip (se_value r) = None \<Longrightarrow>
   \<not> IsSafelisted inet_in err w ip"
proof -
  assume "r \<in> set (sa_safelists w)" "se_is_active r" "se_entry_type r = ''cidr''" "inet_in ip (se_value r) = None"
  then have "None \<in> set (map (row_match inet_in ip) (filter se_is_active (sa_safelists w)))"
    by (auto simp: row_match_def image_iff intro!: bexI [of _ r])
  then show ?thesis by (simp add: IsSafelisted_def Let_def)
qed

lemma set_off_row: "set (map (off_row i) rs) = off_row i ` set rs"
  by simp

lemma off_row_simps [simp]:
  "se_id (off_row i r) = se_id r" "se_entry_type (off_row i r) = se_entry_type r" "se_value (off_row i r) = se_value r"
  "se_is_active (off_row i r) \<longleftrightarrow> se_is_active r \<and> se_id r \<noteq> i"
  by (auto simp: off_row_def)

lemma row_match_off [simp]: "row_match inet_in ip (off_row i r) = row_match inet_in ip r"
  by (simp add: row_match_def)

text \<open>A deactivated entry keeps its place in the unique index: the same entry cannot be created again.\<close>

lemma deactivated_entry_blocks:
  assumes "r \<in> set (sa_safelists w)" "se_entry_type r = cs_EntryType q" "se_value r = cs_Value q" "valid_safelist q"
  shows "cx_status (fst (CreateSafelistHandler err uuid now (Some q) c w)) = 500 \<and>
         snd (CreateSafelistHandler err uuid now (Some q) c w) = w"
proof -
  have "list_ex (\<lambda>x. se_entry_type x = cs_EntryType q \<and> se_value x = cs_Value q) (sa_safelists w)"
    using assms by (auto simp: list_ex_iff)
  with assms(4) show ?thesis
    by (cases "err 0") (simp_all add: CreateSafelistHandler_def insert_safelist_def failInternal_def)
qed

section \<open>Properties\<close>

text \<open>C11: As long as every active network entry can be compared with the address, an address is
  safelisted exactly by the active entries that name it or a network around it; creating an entry
  for an address makes it safelisted, and deactivating every such entry ends that.\<close>

theorem safelist_protects:
  assumes "comparable inet_in ip w"
  shows "(IsSafelisted inet_in None w ip \<longleftrightarrow>
            (\<exists>r \<in> set (sa_safelists w). se_is_active r \<and>
               (se_entry_type r = ''ip'' \<and> se_value r = ip \<or> se_entry_type r = ''cidr'' \<and> inet_in ip (se_value r) = Some True))) \<and>
         (case CreateSafelistHandler err uuid now (Some \<lparr>cs_EntryType = ''ip'', cs_Value = ip, cs_Reason = why\<rparr>) c w of
            (c', w') \<Rightarrow> cx_status c' \<noteq> 200 \<or> IsSafelisted inet_in None w' ip) \<and>
         (case DeleteSafelistHandler U err c w of
            (c', w') \<Rightarrow> cx_status c' \<noteq> 200 \<or>
              (IsSafelisted inet_in None w' ip \<longleftrightarrow>
                 (\<exists>r \<in> set (sa_safelists w). se_is_active r \<and> uu_pg U (getParam c ''id'') \<noteq> Some (se_id r) \<and> row_match inet_in ip r = Some True)))"
proof -
  have match: "row_match inet_in ip r = Some True \<longleftrightarrow>
      se_entry_type r = ''ip'' \<and> se_value r = ip \<or> se_entry_type r = ''cidr'' \<and> inet_in ip (se_value r) = Some True" for r
    by (auto simp: row_match_def)
  have created: "IsSafelisted inet_in None w' ip" if "insert_safelist uuid now \<lparr>cs_EntryType = ''ip'', cs_Value = ip, cs_Reason = why\<rparr> u w = Inr w'" for u w'
  proof -
    have "comparable inet_in ip w'" using assms that by (auto simp: comparable_def insert_safelist_def split: if_splits)
    then show ?thesis using that by (auto simp: IsSafelisted_iff match insert_safelist_def split: if_splits)
  qed
  have deleted: "IsSafelisted inet_in None (w\<lparr>sa_safelists := map (off_row i) (sa_safelists w)\<rparr>) ip \<longleftrightarrow>
      (\<exists>r \<in> set (sa_safelists w). se_is_active r \<and> se_id r \<noteq> i \<and> row_match inet_in ip r = Some True)" for i
  proof -
    have "comparable inet_in ip (w\<lparr>sa_safelists := map (off_row i) (sa_safelists w)\<rparr>)"
      using assms by (auto simp: comparable_def list_all_iff)
    then show ?thesis by (auto simp: IsSafelisted_iff)
  qed
  show ?thesis
    using created deleted
    by (auto simp: IsSafelisted_iff [OF assms] match CreateSafelistHandler_def DeleteSafelistHandler_def failInternal_def uuidParam_def uuid_arg_def
        Let_def split: option.split sum.split)
qed

text \<open>C39: The safelist fails open: the create handler stores any text as a network entry, and one
  active entry that PostgreSQL cannot read as a network makes every address unprotected.\<close>

theorem malformed_entry_disables_safelist:
  assumes "valid_safelist q" "cs_EntryType q = ''cidr''" "\<And>a. inet_in a (cs_Value q) = None"
    and "\<not> list_ex (\<lambda>x. se_entry_type x = ''cidr'' \<and> se_value x = cs_Value q) (sa_safelists w)"
  shows "case CreateSafelistHandler (\<lambda>_. None) uuid now (Some q) c w of
           (c', w') \<Rightarrow> cx_status c' = 200 \<and> (\<forall>ip. \<not> IsSafelisted inet_in err w' ip)"
proof -
  let ?u = "Option.bind (cx_keys c ''user_id'') as_string"
  obtain w' where w': "insert_safelist uuid now q ?u w = Inr w'"
    using assms by (auto simp: insert_safelist_def)
  then have "\<exists>r \<in> set (sa_safelists w'). se_is_active r \<and> se_entry_type r = ''cidr'' \<and> se_value r = cs_Value q"
    using assms(2) by (auto simp: insert_safelist_def split: if_splits)
  then have "\<not> IsSafelisted inet_in err w' ip" for ip
    using IsSafelisted_malformed assms(3) by metis
  with w' assms(1) show ?thesis by (simp add: CreateSafelistHandler_def)
qed

definition demo_inet :: "string \<Rightarrow> string \<Rightarrow> bool option" where
  "demo_inet ip net = (if net = ''10.0.0.0/8'' then Some (hasPrefix ip ''10.'') else None)"

definition demo_admin :: scan_admin where
  "demo_admin = \<lparr>sa_safelists = [\<lparr>se_id = ''s1'', se_entry_type = ''cidr'', se_value = ''10.0.0.0/8'', se_reason = None,
     se_created_by = None, se_created_at = 0, se_is_active = True\<rparr>], sa_profiles = [], sa_scopes = []\<rparr>"

theorem safelist_protects_witness: "IsSafelisted demo_inet None demo_admin ''10.0.0.7''"
proof -
  have "comparable demo_inet ''10.0.0.7'' demo_admin" by (simp add: comparable_def demo_admin_def demo_inet_def)
  from safelist_protects [OF this, THEN conjunct1] show ?thesis
    by (simp add: demo_admin_def demo_inet_def hasPrefix_def)
qed

theorem malformed_entry_disables_safelist_witness:
  "case CreateSafelistHandler (\<lambda>_. None) ''s2'' 1 (Some \<lparr>cs_EntryType = ''cidr'', cs_Value = ''lab'', cs_Reason = []\<rparr>)
          (bare_request ''POST'' ''/api/v1/safelists'') demo_admin of
     (c', w') \<Rightarrow> cx_status c' = 200 \<and> (\<forall>ip. \<not> IsSafelisted demo_inet None w' ip)"
  by (rule malformed_entry_disables_safelist)
     (simp_all add: valid_safelist_def len_between_def runes_def demo_inet_def demo_admin_def)

end
