(* ===== verification/Nmap.thy ===== *)
theory Nmap
  imports Go_Prelude
begin

text \<open>
  The nmap driver, \<open>backend/scanner/nmap.go\<close>: the checks on addresses that reach a command line,
  and the result of a scan as assembled from nmap's report.

  \<open>net.ParseIP\<close> (for addresses with a colon) and the XML decoder are parameters; what running the
  command gives is an argument (\<open>exec_outcome\<close>). The pool of twenty workers only delays scans and is
  not modelled.
\<close>

section \<open>Checks on addresses\<close>

datatype scan_error = ErrInvalidCIDR | ErrInvalidIP | ErrSuspicious

definition suspiciousPatterns :: "string list" where
  "suspiciousPatterns = [''`'', ''$('', '';'', ''|'', ''&&'', ''||'', [char_of (10 :: nat)], [char_of (13 :: nat)],
     ''>'', ''<'', ''..'']"

text \<open>One octet: a number for \<open>strconv.Atoi\<close>, at most the bound.\<close>

definition number_upto :: "int \<Rightarrow> string \<Rightarrow> bool" where
  "number_upto m p \<longleftrightarrow> snd (atoi p) \<and> 0 \<le> fst (atoi p) \<and> fst (atoi p) \<le> m"

definition sanitizeCIDR :: "string \<Rightarrow> scan_error option" where
  "sanitizeCIDR cidr =
     (if length cidr > 50 then Some ErrInvalidCIDR
      else if list_ex (contains cidr) suspiciousPatterns then Some ErrSuspicious
      else case split CHR ''/'' cidr of
             [addr, pre] \<Rightarrow>
               if length (split CHR ''.'' addr) \<noteq> 4 then Some ErrInvalidCIDR
               else if \<not> list_all (number_upto 255) (split CHR ''.'' addr) then Some ErrInvalidCIDR
               else if \<not> number_upto 32 pre then Some ErrInvalidCIDR
               else None
           | _ \<Rightarrow> Some ErrInvalidCIDR)"

definition sanitizeIP :: "(string \<Rightarrow> bool) \<Rightarrow> string \<Rightarrow> scan_error option" where
  "sanitizeIP parseIP ip =
     (if length ip > 45 then Some ErrInvalidIP
      else if list_ex (contains ip) suspiciousPatterns then Some ErrSuspicious
      else if contains ip '':'' then (if parseIP ip then None else Some ErrInvalidIP)
      else if length (split CHR ''.'' ip) \<noteq> 4 then Some ErrInvalidIP
      else if \<not> list_all (number_upto 255) (split CHR ''.'' ip) then Some ErrInvalidIP
      else None)"

section \<open>Reports\<close>

record port =
  po_Number :: int
  po_Protocol :: string
  po_State :: string

record service =
  sv_Name :: string
  sv_Version :: string
  sv_Banner :: string

record host =
  ho_IP :: string
  ho_MAC :: string
  ho_Hostname :: string
  ho_Vendor :: string
  ho_OSMatch :: string
  ho_OpenPorts :: "port list"
  ho_Services :: "int \<rightharpoonup> service"
  ho_RawXML :: string

record nmap_addr =
  na_Addr :: string
  na_AddrType :: string
  na_Vendor :: string

record nmap_port =
  np_PortID :: int
  np_Protocol :: string
  np_State :: string
  np_Service :: service

record nmap_os_match =
  nm_Name :: string
  nm_Accuracy :: string

record nmap_host =
  nh_Addresses :: "nmap_addr list"
  nh_Hostnames :: "string list"
  nh_Ports :: "nmap_port list"
  nh_OSMatches :: "nmap_os_match list"
  nh_Status :: string

type_synonym nmap_run = "nmap_host list"

text \<open>
  How running the command ends: with its output; with an exit code (the output so far, the standard error
  and the text of the error); because nmap is not installed; or with another error (the output so far and
  its text).
\<close>

datatype exec_outcome = ExecOk string | ExitError string string string | ExecNotFound | ExecFailed string string

datatype nmap_error =
  InvalidTarget scan_error | NmapFailed string | NmapNotFound | XMLFailed

fun first_ipv4 :: "nmap_addr list \<Rightarrow> string list" where
  "first_ipv4 [] = []"
| "first_ipv4 (a # as) = (if na_AddrType a = ''ipv4'' then [na_Addr a] else first_ipv4 as)"

definition up_hosts :: "nmap_run \<Rightarrow> string list" where
  "up_hosts run = concat (map (\<lambda>h. if nh_Status h \<noteq> ''up'' then [] else first_ipv4 (nh_Addresses h)) run)"

definition DiscoverHosts ::
  "(string \<Rightarrow> nmap_run option) \<Rightarrow> exec_outcome \<Rightarrow> string \<Rightarrow> nmap_error + string list" where
  "DiscoverHosts parse out cidr =
     (case sanitizeCIDR cidr of
        Some e \<Rightarrow> Inl (InvalidTarget e)
      | None \<Rightarrow>
          (case out of
             ExitError output stderr e \<Rightarrow> Inl (NmapFailed stderr)
           | ExecNotFound \<Rightarrow> Inl NmapNotFound
           | ExecFailed output e \<Rightarrow> Inl (NmapFailed e)
           | ExecOk output \<Rightarrow>
               (case parse output of None \<Rightarrow> Inl XMLFailed | Some run \<Rightarrow> Inr (up_hosts run))))"

text \<open>The loops of \<open>DeepScan\<close> over addresses, operating systems and ports.\<close>

definition apply_addr :: "nmap_addr \<Rightarrow> host \<Rightarrow> host" where
  "apply_addr a h =
     (if na_AddrType a = ''mac''
      then h\<lparr>ho_MAC := na_Addr a, ho_Vendor := (if na_Vendor a \<noteq> [] then na_Vendor a else ho_Vendor h)\<rparr> else h)"

definition better_os :: "nmap_os_match \<Rightarrow> nmap_os_match \<Rightarrow> nmap_os_match" where
  "better_os m best = (if fst (atoi (nm_Accuracy m)) > fst (atoi (nm_Accuracy best)) then m else best)"

definition apply_port :: "nmap_port \<Rightarrow> host \<Rightarrow> host" where
  "apply_port p h =
     (let h1 = h\<lparr>ho_OpenPorts := ho_OpenPorts h @
            [\<lparr>po_Number = np_PortID p, po_Protocol = np_Protocol p, po_State = np_State p\<rparr>]\<rparr>
      in if np_State p = ''open'' then h1\<lparr>ho_Services := (ho_Services h1)(np_PortID p \<mapsto> np_Service p)\<rparr> else h1)"

definition best_os :: "nmap_os_match list \<Rightarrow> string" where
  "best_os ms = (case ms of [] \<Rightarrow> [] | m # _ \<Rightarrow> nm_Name (fold better_os ms m))"

definition build_host :: "string \<Rightarrow> string \<Rightarrow> nmap_run \<Rightarrow> host" where
  "build_host ip output run =
     (let h0 = \<lparr>ho_IP = ip, ho_MAC = [], ho_Hostname = [], ho_Vendor = [], ho_OSMatch = [], ho_OpenPorts = [],
               ho_Services = Map.empty, ho_RawXML = output\<rparr>
      in case run of
           [] \<Rightarrow> h0
         | nh # _ \<Rightarrow>
             (let h1 = fold apply_addr (nh_Addresses nh) h0;
                  h2 = (case nh_Hostnames nh of [] \<Rightarrow> h1 | n # _ \<Rightarrow> h1\<lparr>ho_Hostname := n\<rparr>);
                  h3 = (if nh_OSMatches nh \<noteq> [] then h2\<lparr>ho_OSMatch := best_os (nh_OSMatches nh)\<rparr> else h2)
              in fold apply_port (nh_Ports nh) h3))"

text \<open>A scan that fails after printing a report is used all the same.\<close>

definition DeepScan ::
  "(string \<Rightarrow> bool) \<Rightarrow> (string \<Rightarrow> nmap_run option) \<Rightarrow> exec_outcome \<Rightarrow> string \<Rightarrow> nmap_error + host" where
  "DeepScan parseIP parse out ip =
     (case sanitizeIP parseIP ip of
        Some e \<Rightarrow> Inl (InvalidTarget e)
      | None \<Rightarrow>
          (let use = (\<lambda>output. case parse output of None \<Rightarrow> Inl XMLFailed | Some run \<Rightarrow> Inr (build_host ip output run)) in
           case out of
             ExecOk output \<Rightarrow> use output
           | ExecNotFound \<Rightarrow> Inl NmapNotFound
           | ExecFailed output e \<Rightarrow> if output = [] then Inl (NmapFailed e) else use output
           | ExitError output stderr e \<Rightarrow> if output = [] then Inl (NmapFailed e) else use output))"

text \<open>One goroutine per address, each writing its own slot.\<close>

definition BatchDeepScan ::
  "(string \<Rightarrow> bool) \<Rightarrow> (string \<Rightarrow> nmap_run option) \<Rightarrow> (nat \<Rightarrow> exec_outcome) \<Rightarrow> string list \<Rightarrow>
   (string \<times> (nmap_error + host)) list" where
  "BatchDeepScan parseIP parse out ips = map (\<lambda>(i, ip). (ip, DeepScan parseIP parse (out i) ip)) (enumerate 0 ips)"

section \<open>Lemmas\<close>

definition dotted :: "int list \<Rightarrow> string" where
  "dotted ns = join CHR ''.'' (map itoa ns)"

lemma itoa_digits: "0 \<le> n \<Longrightarrow> list_all is_digit (itoa n) \<and> itoa n \<noteq> []"
  using nat_digits_digits [of "nat n"] by (auto simp: itoa_def)

lemma itoa_no_char: "0 \<le> n \<Longrightarrow> \<not> is_digit ch \<Longrightarrow> ch \<notin> set (itoa n)"
  using itoa_digits [of n] by (auto simp: list_all_iff)

lemma number_upto_itoa: "0 \<le> n \<Longrightarrow> n \<le> m \<Longrightarrow> m \<le> 255 \<Longrightarrow> number_upto m (itoa n)"
  by (simp add: number_upto_def atoi_itoa)

lemma length_nat_digits: "n < 1000 \<Longrightarrow> length (nat_digits n) \<le> 3"
proof -
  assume "n < 1000"
  have d: "length (nat_digits k) = (if k < 10 then 1 else length (nat_digits (k div 10)) + 1)" for k
    by (subst nat_digits.simps) simp
  have "n div 10 < 100" "n div 10 div 10 < 10" using \<open>n < 1000\<close> by auto
  then show ?thesis using d [of n] d [of "n div 10"] d [of "n div 10 div 10"] by (auto split: if_splits)
qed

lemma length_itoa: "0 \<le> n \<Longrightarrow> n \<le> 255 \<Longrightarrow> length (itoa n) \<le> 3"
  using length_nat_digits [of "nat n"] by (simp add: itoa_def)

lemma dotted_4: "dotted [a, b, c, d] = itoa a @ ''.'' @ itoa b @ ''.'' @ itoa c @ ''.'' @ itoa d"
  by (simp add: dotted_def)

text \<open>A pattern is absent when one of its characters is.\<close>

lemma contains_set: "contains s p \<Longrightarrow> set p \<subseteq> set s"
  by (auto simp: contains_iff)

lemma not_digit_consts:
  "\<not> is_digit CHR ''.''" "\<not> is_digit CHR ''/''" "\<not> is_digit CHR '':''" "\<not> is_digit CHR ''`''" "\<not> is_digit CHR ''$''"
  "\<not> is_digit CHR '';''" "\<not> is_digit CHR ''|''" "\<not> is_digit CHR ''&''" "\<not> is_digit CHR ''>''" "\<not> is_digit CHR ''<''"
  "\<not> is_digit (char_of (10 :: nat))" "\<not> is_digit (char_of (13 :: nat))"
  by (simp_all add: is_digit_def)

lemma no_dotdot:
  assumes "split CHR ''.'' s = ps" "\<forall>p \<in> set ps. p \<noteq> []"
  shows "\<not> contains s ''..''"
proof
  assume "contains s ''..''"
  then obtain u v where s: "s = u @ ''..'' @ v" by (auto simp: contains_iff)
  have j: "join CHR ''.'' (split CHR ''.'' u @ [[]] @ split CHR ''.'' v) = s"
  proof -
    have app: "join ch (xs @ ys) = join ch xs @ ch # join ch ys" if "xs \<noteq> []" "ys \<noteq> []" for ch xs ys
      using that
    proof (induction ch xs rule: join.induct)
      case (2 c s)
      then show ?case by (cases ys) auto
    qed auto
    have ne: "split ch w \<noteq> []" for ch w
      by (cases w) (auto simp: split_def split: prod.splits option.splits)
    have "join CHR ''.'' ([[]] @ split CHR ''.'' v) = CHR ''.'' # v"
      using app [of "[[]]" "split CHR ''.'' v" "CHR ''.''"] ne by (simp add: split_parts)
    then show ?thesis using ne by (simp add: app split_parts s)
  qed
  have "split CHR ''.'' s = split CHR ''.'' u @ [[]] @ split CHR ''.'' v"
    unfolding j [symmetric] by (rule split_join) (auto dest: split_parts(2))
  then have "[] \<in> set ps" using assms(1) by auto
  with assms(2) show False by auto
qed

definition octets :: "int list \<Rightarrow> bool" where
  "octets ns \<longleftrightarrow> length ns = 4 \<and> list_all (\<lambda>n. 0 \<le> n \<and> n \<le> 255) ns"

lemma split_dotted: "octets ns \<Longrightarrow> split CHR ''.'' (dotted ns) = map itoa ns"
  unfolding dotted_def
  by (rule split_join) (auto simp: octets_def list_all_iff itoa_no_char not_digit_consts)

lemma dotted_chars: "octets ns \<Longrightarrow> ch \<in> set (dotted ns) \<Longrightarrow> is_digit ch \<or> ch = CHR ''.''"
proof -
  have j: "ch \<in> set (join c ps) \<Longrightarrow> ch = c \<or> (\<exists>p \<in> set ps. ch \<in> set p)" for c ps
    by (induction c ps rule: join.induct) auto
  assume "octets ns" "ch \<in> set (dotted ns)"
  then show ?thesis
    using j [of "CHR ''.''" "map itoa ns"] itoa_no_char by (auto simp: dotted_def octets_def list_all_iff)
qed

lemma dotted_not_suspicious:
  assumes "octets ns" "\<forall>ch \<in> set t. is_digit ch \<or> ch = CHR ''/''" "t = [] \<or> hd t = CHR ''/''"
  shows "\<not> list_ex (contains (dotted ns @ t)) suspiciousPatterns"
proof -
  have chars: "is_digit ch \<or> ch = CHR ''.'' \<or> ch = CHR ''/''" if "ch \<in> set (dotted ns @ t)" for ch
    using that dotted_chars [OF assms(1)] assms(2) by auto
  have "\<not> contains (dotted ns) ''..''"
  proof (rule no_dotdot [OF split_dotted [OF assms(1)]])
    show "\<forall>p \<in> set (map itoa ns). p \<noteq> []"
      using assms(1) itoa_digits by (simp add: octets_def list_all_iff)
  qed
  moreover have "contains (dotted ns) ''..''" if ct: "contains (dotted ns @ t) ''..''"
  proof -
    obtain u v where uv: "dotted ns @ t = u @ ''..'' @ v" using ct by (auto simp: contains_iff)
    have t: "CHR ''.'' \<notin> set t" using assms(2) not_digit_consts(1) by auto
    have "length u + 2 \<le> length (dotted ns)"
    proof (rule ccontr)
      assume "\<not> length u + 2 \<le> length (dotted ns)"
      then have i: "length (dotted ns) \<le> Suc (length u)" by simp
      have "(dotted ns @ t) ! Suc (length u) = CHR ''.''" by (simp add: uv nth_append)
      moreover have "Suc (length u) < length (dotted ns @ t)" by (simp add: uv)
      ultimately have "t ! (Suc (length u) - length (dotted ns)) = CHR ''.''" "Suc (length u) - length (dotted ns) < length t"
        using i by (auto simp: nth_append)
      then have "CHR ''.'' \<in> set t" by (metis nth_mem)
      with t show False ..
    qed
    then have "take (length u + 2) (dotted ns) = u @ ''..''"
      using arg_cong [OF uv, of "take (length u + 2)"] by simp
    then have "dotted ns = u @ ''..'' @ drop (length u + 2) (dotted ns)"
      using append_take_drop_id [of "length u + 2" "dotted ns"] by simp
    then show ?thesis unfolding contains_iff by blast
  qed
  ultimately have dd: "\<not> contains (dotted ns @ t) ''..''" by blast
  have bad: "\<not> contains (dotted ns @ t) p" if "ch \<in> set p" "\<not> is_digit ch" "ch \<noteq> CHR ''.''" "ch \<noteq> CHR ''/''" for ch p
    using chars that contains_set [of "dotted ns @ t" p] by auto
  show ?thesis
    unfolding suspiciousPatterns_def
    using dd bad [of "CHR ''`''" "''`''"] bad [of "CHR ''$''" "''$(''"] bad [of "CHR '';''" "'';''"] bad [of "CHR ''|''" "''|''"]
      bad [of "CHR ''&''" "''&&''"] bad [of "CHR ''|''" "''||''"] bad [of "char_of (10 :: nat)" "[char_of (10 :: nat)]"]
      bad [of "char_of (13 :: nat)" "[char_of (13 :: nat)]"] bad [of "CHR ''>''" "''>''"] bad [of "CHR ''<''" "''<''"]
      not_digit_consts
    by (simp add: char_of_def bit_0)
qed

lemma length_dotted: "octets ns \<Longrightarrow> length (dotted ns) \<le> 15"
proof -
  assume o: "octets ns"
  then obtain a b c d where ns: "ns = [a, b, c, d]"
    by (auto simp: octets_def numeral_eq_Suc length_Suc_conv)
  then show ?thesis
    using o length_itoa [of a] length_itoa [of b] length_itoa [of c] length_itoa [of d]
    by (simp add: octets_def dotted_4)
qed

text \<open>What \<open>strconv.Atoi\<close> accepts has only digits after an optional sign.\<close>

lemma atoi_chars: "snd (atoi p) \<Longrightarrow> ch \<in> set p \<Longrightarrow> is_digit ch \<or> ch = CHR ''+'' \<or> ch = CHR ''-''"
proof -
  assume a: "snd (atoi p)" and ch: "ch \<in> set p"
  define ds where "ds = (if hasPrefix p ''-'' \<or> hasPrefix p ''+'' then tl p else p)"
  have d: "list_all is_digit ds"
    using a by (auto simp: atoi_def Let_def ds_def split: if_splits)
  have "p = ds \<or> p = CHR ''-'' # ds \<or> p = CHR ''+'' # ds"
    by (cases p) (auto simp: ds_def hasPrefix_def)
  then show ?thesis using d ch by (auto simp: list_all_iff)
qed

lemma join_chars: "ch \<in> set (join c ps) \<Longrightarrow> ch = c \<or> (\<exists>p \<in> set ps. ch \<in> set p)"
  by (induction c ps rule: join.induct) auto

lemma split_chars: "ch \<in> set s \<Longrightarrow> ch = c \<or> (\<exists>p \<in> set (split c s). ch \<in> set p)"
  using join_chars [of ch c "split c s"] by (simp add: split_parts)

text \<open>A number up to \<open>m\<close> as \<open>strconv.Atoi\<close> reads it: digits after an optional sign, a minus sign only in front of
  zero. There may be leading zeros.\<close>

definition number_text :: "int \<Rightarrow> string \<Rightarrow> bool" where
  "number_text m p \<longleftrightarrow> (\<exists>sign ds. p = sign @ ds \<and> sign \<in> {[], ''+'', ''-''} \<and> ds \<noteq> [] \<and> list_all is_digit ds \<and>
     (if sign = ''-'' then digits_value ds = 0 else digits_value ds \<le> m))"

lemma digits_value_nonneg: "list_all is_digit ds \<Longrightarrow> 0 \<le> digits_value ds"
proof -
  have "0 \<le> a \<Longrightarrow> list_all is_digit ds \<Longrightarrow> 0 \<le> foldl (\<lambda>a c. a * 10 + (int (of_char c) - 48)) a ds" for a
    by (induction ds arbitrary: a) (auto simp: is_digit_def Let_def)
  then show "list_all is_digit ds \<Longrightarrow> 0 \<le> digits_value ds" by (simp add: digits_value_def)
qed

lemma digit_no_sign: "list_all is_digit ds \<Longrightarrow> \<not> hasPrefix ds ''-''" "list_all is_digit ds \<Longrightarrow> \<not> hasPrefix ds ''+''"
  by (cases ds; simp add: hasPrefix_def; auto simp: is_digit_def)+

lemma number_upto_iff:
  assumes "0 \<le> m" "m \<le> 255"
  shows "number_upto m p \<longleftrightarrow> number_text m p"
proof
  assume n: "number_upto m p"
  let ?neg = "hasPrefix p ''-''"
  define ds where "ds = (if ?neg \<or> hasPrefix p ''+'' then tl p else p)"
  have ds: "ds \<noteq> []" "list_all is_digit ds" "0 \<le> (if ?neg then - digits_value ds else digits_value ds)"
    "(if ?neg then - digits_value ds else digits_value ds) \<le> m"
    using n by (auto simp: number_upto_def atoi_def Let_def ds_def split: if_splits)
  have sign: "?neg \<and> p = ''-'' @ ds \<or> \<not> ?neg \<and> (p = ''+'' @ ds \<or> p = ds)"
    by (cases p) (auto simp: ds_def hasPrefix_def)
  then show "number_text m p"
    using ds digits_value_nonneg [OF ds(2)] unfolding number_text_def
    by (elim disjE conjE) (rule exI [of _ "''-''"], force, rule exI [of _ "''+''"], force, rule exI [of _ "[]"], force)
next
  assume "number_text m p"
  then obtain sign ds where p: "p = sign @ ds" "sign \<in> {[], ''+'', ''-''}" "ds \<noteq> []" "list_all is_digit ds"
    "if sign = ''-'' then digits_value ds = 0 else digits_value ds \<le> m" by (auto simp: number_text_def)
  then show "number_upto m p"
    using digits_value_nonneg [OF p(4)] digit_no_sign [OF p(4)] assms
    by (auto simp: number_upto_def atoi_def Let_def hasPrefix_def split: if_splits)
qed

lemma number_text_chars: "number_text m p \<Longrightarrow> ch \<in> set p \<Longrightarrow> is_digit ch \<or> ch = CHR ''+'' \<or> ch = CHR ''-''"
  by (auto simp: number_text_def list_all_iff)

lemma number_text_plain: "number_text m p \<Longrightarrow> p \<noteq> [] \<and> CHR ''.'' \<notin> set p \<and> CHR ''/'' \<notin> set p \<and> CHR '':'' \<notin> set p"
  using number_text_chars [of m p] not_digit_consts by (auto simp: number_text_def)

text \<open>Four numbers with dots between them, and what may follow them.\<close>

definition dotted_quad :: "string \<Rightarrow> bool" where
  "dotted_quad s \<longleftrightarrow> (\<exists>a b c d. s = a @ ''.'' @ b @ ''.'' @ c @ ''.'' @ d \<and>
     number_text 255 a \<and> number_text 255 b \<and> number_text 255 c \<and> number_text 255 d)"

lemma dotted_quad_iff:
  "dotted_quad s \<longleftrightarrow> length (split CHR ''.'' s) = 4 \<and> list_all (number_upto 255) (split CHR ''.'' s)"
proof
  assume "dotted_quad s"
  then obtain a b c d where s: "s = join CHR ''.'' [a, b, c, d]" and n: "list_all (number_text 255) [a, b, c, d]"
    by (auto simp: dotted_quad_def)
  have "split CHR ''.'' s = [a, b, c, d]"
    unfolding s using n number_text_plain by (intro split_join) auto
  then show "length (split CHR ''.'' s) = 4 \<and> list_all (number_upto 255) (split CHR ''.'' s)"
    using n by (simp add: number_upto_iff)
next
  assume r: "length (split CHR ''.'' s) = 4 \<and> list_all (number_upto 255) (split CHR ''.'' s)"
  then obtain a b c d where sp: "split CHR ''.'' s = [a, b, c, d]" by (auto simp: numeral_eq_Suc length_Suc_conv)
  then have "s = join CHR ''.'' [a, b, c, d]" using split_parts(1) [of "CHR ''.''" s] by simp
  then show "dotted_quad s" using r sp by (auto simp: dotted_quad_def number_upto_iff)
qed

lemma not_suspicious:
  assumes "\<forall>ch \<in> set s. is_digit ch \<or> ch \<in> {CHR ''.'', CHR ''/'', CHR ''+'', CHR ''-''}" "\<not> contains s ''..''"
  shows "\<not> list_ex (contains s) suspiciousPatterns"
proof -
  have bad: "\<not> contains s p" if "ch \<in> set p" "\<not> is_digit ch" "ch \<notin> {CHR ''.'', CHR ''/'', CHR ''+'', CHR ''-''}" for ch p
    using assms(1) that contains_set [of s p] by auto
  show ?thesis
    unfolding suspiciousPatterns_def
    using assms(2) bad [of "CHR ''`''" "''`''"] bad [of "CHR ''$''" "''$(''"] bad [of "CHR '';''" "'';''"] bad [of "CHR ''|''" "''|''"]
      bad [of "CHR ''&''" "''&&''"] bad [of "CHR ''|''" "''||''"] bad [of "char_of (10 :: nat)" "[char_of (10 :: nat)]"]
      bad [of "char_of (13 :: nat)" "[char_of (13 :: nat)]"] bad [of "CHR ''>''" "''>''"] bad [of "CHR ''<''" "''<''"]
      not_digit_consts
    by (simp add: char_of_def bit_0)
qed

lemma dotted_quad_plain:
  assumes "dotted_quad s" "k = [] \<or> (\<exists>n. k = ''/'' @ n \<and> number_text 32 n)"
  shows "\<not> list_ex (contains (s @ k)) suspiciousPatterns" "CHR ''/'' \<notin> set s" "CHR '':'' \<notin> set s"
proof -
  obtain a b c d where s: "s = a @ ''.'' @ b @ ''.'' @ c @ ''.'' @ d"
    and n: "number_text 255 a" "number_text 255 b" "number_text 255 c" "number_text 255 d"
    using assms(1) by (auto simp: dotted_quad_def)
  note plain = n [THEN number_text_plain]
  show "CHR ''/'' \<notin> set s" "CHR '':'' \<notin> set s" using plain by (auto simp: s)
  have kdot: "CHR ''.'' \<notin> set k" using assms(2) number_text_plain by auto
  have "split CHR ''.'' (join CHR ''.'' [a, b, c, d @ k]) = [a, b, c, d @ k]"
    using plain kdot by (intro split_join) auto
  then have "\<not> contains (s @ k) ''..''"
    using plain by (intro no_dotdot [of _ "[a, b, c, d @ k]"]) (auto simp: s)
  moreover have "\<forall>ch \<in> set (s @ k). is_digit ch \<or> ch \<in> {CHR ''.'', CHR ''/'', CHR ''+'', CHR ''-''}"
    using n [THEN number_text_chars] assms(2) number_text_chars [of 32] by (fastforce simp: s)
  ultimately show "\<not> list_ex (contains (s @ k)) suspiciousPatterns" by (intro not_suspicious)
qed

text \<open>A service is listed for exactly the open ports.\<close>

definition services_ok :: "host \<Rightarrow> bool" where
  "services_ok h \<longleftrightarrow> dom (ho_Services h) = po_Number ` set (filter (\<lambda>p. po_State p = ''open'') (ho_OpenPorts h))"

lemma apply_port_ok: "services_ok h \<Longrightarrow> services_ok (apply_port p h)"
  by (auto simp: services_ok_def apply_port_def Let_def set_filter image_def)

lemma services_ok_empty: "ho_OpenPorts h = [] \<Longrightarrow> ho_Services h = Map.empty \<Longrightarrow> services_ok h"
  by (simp add: services_ok_def)

lemma fold_apply_port:
  "ho_IP (fold apply_port ps h) = ho_IP h" "services_ok h \<Longrightarrow> services_ok (fold apply_port ps h)"
  by (induction ps arbitrary: h) (auto simp: apply_port_ok, simp add: apply_port_def Let_def)

lemma fold_apply_addr:
  "ho_IP (fold apply_addr as h) = ho_IP h" "ho_OpenPorts (fold apply_addr as h) = ho_OpenPorts h"
  "ho_Services (fold apply_addr as h) = ho_Services h"
  by (induction as arbitrary: h) (auto simp: apply_addr_def)

section \<open>Properties\<close>

text \<open>Every IPv4 address and every IPv4 network in the usual notation passes the checks.\<close>

theorem addresses_accepted:
  assumes "octets ns" "0 \<le> k" "k \<le> 32"
  shows "sanitizeIP parseIP (dotted ns) = None \<and> sanitizeCIDR (dotted ns @ ''/'' @ itoa k) = None"
proof -
  have nums: "list_all (number_upto 255) (map itoa ns)" "length (map itoa ns) = 4"
    using assms(1) by (auto simp: octets_def list_all_iff number_upto_itoa)
  have colon: "\<not> contains (dotted ns) '':''"
    using dotted_chars [OF assms(1), of "CHR '':''"] not_digit_consts(3) by (auto simp: contains_char_iff)
  have slash: "CHR ''/'' \<notin> set (dotted ns)" "CHR ''/'' \<notin> set (itoa k)"
    using dotted_chars [OF assms(1), of "CHR ''/''"] itoa_no_char [OF assms(2), of "CHR ''/''"] not_digit_consts(2) by auto
  have sp: "split CHR ''/'' (dotted ns @ ''/'' @ itoa k) = [dotted ns, itoa k]"
    using split_join [of "[dotted ns, itoa k]" "CHR ''/''"] slash by simp
  have susp: "\<not> list_ex (contains (dotted ns)) suspiciousPatterns"
    "\<not> list_ex (contains (dotted ns @ ''/'' @ itoa k)) suspiciousPatterns"
    using dotted_not_suspicious [OF assms(1), of "[]"] dotted_not_suspicious [OF assms(1), of "''/'' @ itoa k"]
      itoa_digits [OF assms(2)] by (auto simp: list_all_iff)
  have "length (itoa k) \<le> 3" using assms(2,3) by (intro length_itoa) auto
  then have len: "\<not> 45 < length (dotted ns)" "\<not> 50 < length (dotted ns @ ''/'' @ itoa k)"
    using length_dotted [OF assms(1)] by auto
  have "number_upto 32 (itoa k)" using assms(2,3) by (simp add: number_upto_itoa)
  then show ?thesis
    using nums colon sp susp len split_dotted [OF assms(1)] by (simp add: sanitizeIP_def sanitizeCIDR_def)
qed

theorem addresses_accepted_witness:
  "sanitizeIP (\<lambda>_. False) (dotted [10, 0, 0, 1]) = None \<and> sanitizeCIDR (dotted [10, 0, 0, 1] @ ''/'' @ itoa 24) = None"
  by (rule addresses_accepted) (simp_all add: octets_def)

text \<open>C37: The checks on targets accept exactly this: a network of at most 50 characters, written as four numbers
  up to 255 with dots between them, a slash and a number up to 32; an address of at most 45 characters,
  written as four such numbers, or, if it has a colon, one that \<open>net.ParseIP\<close> reads and in which none of the listed
  patterns occurs. A number is a row of digits, but a sign may stand in front of it (a minus sign in front
  of zero), so an accepted target may begin with a minus sign, which nmap takes for an option:
  \<open>-0.0.0.0\<close> is accepted as an address and \<open>-0.0.0.0/0\<close> as a network.\<close>

theorem accepted_targets_exact:
  "(sanitizeCIDR s = None \<longleftrightarrow>
      length s \<le> 50 \<and>
      (\<exists>a b c d k. s = a @ ''.'' @ b @ ''.'' @ c @ ''.'' @ d @ ''/'' @ k \<and> number_text 255 a \<and> number_text 255 b \<and>
         number_text 255 c \<and> number_text 255 d \<and> number_text 32 k)) \<and>
   (sanitizeIP parseIP s = None \<longleftrightarrow>
      length s \<le> 45 \<and>
      (if CHR '':'' \<in> set s then parseIP s \<and> \<not> list_ex (contains s) suspiciousPatterns
       else \<exists>a b c d. s = a @ ''.'' @ b @ ''.'' @ c @ ''.'' @ d \<and> number_text 255 a \<and> number_text 255 b \<and>
              number_text 255 c \<and> number_text 255 d)) \<and>
   sanitizeIP parseIP ''-0.0.0.0'' = None \<and> sanitizeCIDR ''-0.0.0.0/0'' = None"
proof -
  have net: "sanitizeCIDR s = None \<longleftrightarrow> length s \<le> 50 \<and> (\<exists>q k. s = q @ ''/'' @ k \<and> dotted_quad q \<and> number_text 32 k)" for s
  proof
    assume ok: "sanitizeCIDR s = None"
    then obtain q k where sp: "split CHR ''/'' s = [q, k]" and r: "dotted_quad q" "number_text 32 k"
      by (auto simp: sanitizeCIDR_def dotted_quad_iff number_upto_iff split: if_splits list.splits)
    have "s = q @ ''/'' @ k" using split_parts(1) [of "CHR ''/''" s] sp by simp
    then show "length s \<le> 50 \<and> (\<exists>q k. s = q @ ''/'' @ k \<and> dotted_quad q \<and> number_text 32 k)"
      using ok r by (auto simp: sanitizeCIDR_def split: if_splits)
  next
    assume "length s \<le> 50 \<and> (\<exists>q k. s = q @ ''/'' @ k \<and> dotted_quad q \<and> number_text 32 k)"
    then obtain q k where s: "length s \<le> 50" "s = q @ ''/'' @ k" and r: "dotted_quad q" "number_text 32 k" by blast
    have "split CHR ''/'' (join CHR ''/'' [q, k]) = [q, k]"
      using dotted_quad_plain(2) [OF r(1), of "[]"] number_text_plain [OF r(2)] by (intro split_join) auto
    then have "split CHR ''/'' s = [q, k]" by (simp add: s)
    moreover have "\<not> list_ex (contains s) suspiciousPatterns"
      using dotted_quad_plain(1) [OF r(1), of "''/'' @ k"] r(2) s by simp
    ultimately show "sanitizeCIDR s = None"
      using s(1) r by (simp add: sanitizeCIDR_def dotted_quad_iff number_upto_iff)
  qed
  have addr: "sanitizeIP parseIP s = None \<longleftrightarrow> length s \<le> 45 \<and>
      (if CHR '':'' \<in> set s then parseIP s \<and> \<not> list_ex (contains s) suspiciousPatterns else dotted_quad s)"
    using dotted_quad_plain(1) [of s "[]"] by (auto simp: sanitizeIP_def contains_char_iff dotted_quad_iff)
  have zero: "number_text m ''0''" "number_text m ''-0''" if "0 \<le> m" for m
    using that unfolding number_text_def
    by (rule_tac exI [of _ "[]"], simp add: is_digit_def digits_value_def)
       (rule_tac exI [of _ "''-''"], simp add: is_digit_def digits_value_def)
  have "dotted_quad ''-0.0.0.0''"
    unfolding dotted_quad_def using zero [of 255]
    by (intro exI [of _ "''-0''"] exI [of _ "''0''"]) simp
  then have "sanitizeCIDR ''-0.0.0.0/0'' = None"
    unfolding net using zero(1) [of 32] by (intro conjI exI [of _ "''-0.0.0.0''"] exI [of _ "''0''"]) simp_all
  moreover have "sanitizeIP parseIP ''-0.0.0.0'' = None"
    by (simp add: sanitizeIP_def suspiciousPatterns_def hasPrefix_def split_def number_upto_def atoi_def is_digit_def
        digits_value_def Let_def char_of_def bit_0)
  moreover have "(\<exists>q k. s = q @ ''/'' @ k \<and> dotted_quad q \<and> number_text 32 k) \<longleftrightarrow>
      (\<exists>a b c d k. s = a @ ''.'' @ b @ ''.'' @ c @ ''.'' @ d @ ''/'' @ k \<and> number_text 255 a \<and> number_text 255 b \<and>
         number_text 255 c \<and> number_text 255 d \<and> number_text 32 k)"
    unfolding dotted_quad_def by (simp only: ex_simps [symmetric] append_assoc) (metis append_assoc)
  ultimately show ?thesis using net [of s] addr unfolding dotted_quad_def by simp
qed

text \<open>A scan reports on the host it was asked for: its ports are those of nmap's report in order,
  and it lists a service for exactly the ports that are open.\<close>

theorem deep_scan_services:
  assumes "DeepScan parseIP parse out ip = Inr h"
  shows "ho_IP h = ip \<and> dom (ho_Services h) = po_Number ` set (filter (\<lambda>p. po_State p = ''open'') (ho_OpenPorts h))"
proof -
  obtain xml run where "h = build_host ip xml run"
    using assms by (auto simp: DeepScan_def Let_def split: option.splits exec_outcome.splits if_splits)
  then have "ho_IP h = ip \<and> services_ok h"
    by (simp add: build_host_def Let_def fold_apply_port fold_apply_addr services_ok_empty split: list.split)
  then show ?thesis by (simp only: services_ok_def)
qed

definition demo_report :: nmap_run where
  "demo_report = [\<lparr>nh_Addresses = [], nh_Hostnames = [''cam''],
     nh_Ports = [\<lparr>np_PortID = 23, np_Protocol = ''tcp'', np_State = ''open'', np_Service = \<lparr>sv_Name = ''telnet'', sv_Version = [], sv_Banner = []\<rparr>\<rparr>],
     nh_OSMatches = [], nh_Status = ''up''\<rparr>]"

theorem deep_scan_services_witness:
  "ho_IP (build_host ''10.0.0.1'' ''x'' demo_report) = ''10.0.0.1'' \<and>
   dom (ho_Services (build_host ''10.0.0.1'' ''x'' demo_report)) =
     po_Number ` set (filter (\<lambda>p. po_State p = ''open'') (ho_OpenPorts (build_host ''10.0.0.1'' ''x'' demo_report)))"
proof (rule deep_scan_services)
  show "DeepScan (\<lambda>_. False) (\<lambda>_. Some demo_report) (ExecOk ''x'') ''10.0.0.1'' = Inr (build_host ''10.0.0.1'' ''x'' demo_report)"
    by (simp add: DeepScan_def sanitizeIP_def suspiciousPatterns_def hasPrefix_def split_def number_upto_def atoi_def is_digit_def
        digits_value_def Let_def char_of_def bit_0)
qed

end
