(* ===== verification/Risk.thy ===== *)
theory Risk
  imports Models
begin

text \<open>
  The risk score of a device, from \<open>backend/risk/scorer.go\<close>: the factors read from the tables, the
  score, its breakdown and the severity label. All arithmetic is that of \<open>float64\<close>, rounded after
  every operation (\<open>fl\<close>). The proofs use only the contract \<open>rounding\<close>.
\<close>

section \<open>Factors and score\<close>

record risk_factors =
  HasDefaultCreds :: bool
  HasTelnet :: bool
  HasADB :: bool
  HasModbus :: bool
  HasUnauthRTSP :: bool
  HasPlaintextMQTT :: bool
  HasHTTPMgmt :: bool
  HasWeakTLS :: bool
  KnownCVECount :: int
  KEVMatchCount :: int
  FirmwareOutdated :: bool
  HighEntropyFirmware :: bool
  DaysSinceLastScan :: int

text \<open>One conditional addition, \<open>if b { score += p }\<close>.\<close>

definition add_if :: "bool \<Rightarrow> rat \<Rightarrow> rat \<Rightarrow> rat" where
  "add_if b p score = (if b then fl (score + p) else score)"

definition cve_points :: "risk_factors \<Rightarrow> rat" where
  "cve_points f = min (fl (fl (of_int (KnownCVECount f)) * (1 / 2))) 3"

definition kev_points :: "risk_factors \<Rightarrow> rat" where
  "kev_points f = min (fl (fl (of_int (KEVMatchCount f)) * 2)) 4"

definition day_points :: "risk_factors \<Rightarrow> rat" where
  "day_points f = min (fl (fl (fl (of_int (DaysSinceLastScan f)) / 30) * fl (1 / 10))) 1"

definition CalculateRiskScore :: "risk_factors \<Rightarrow> rat" where
  "CalculateRiskScore f =
     (let s1 = add_if (HasDefaultCreds f) 4 0;
          s2 = add_if (HasTelnet f) 3 s1;
          s3 = add_if (HasADB f) (7 / 2) s2;
          s4 = add_if (HasModbus f) (5 / 2) s3;
          s5 = add_if (HasUnauthRTSP f) 2 s4;
          s6 = add_if (HasPlaintextMQTT f) (3 / 2) s5;
          s7 = add_if (HasHTTPMgmt f) 1 s6;
          s8 = add_if (HasWeakTLS f) (3 / 2) s7;
          s9 = fl (s8 + cve_points f);
          s10 = fl (s9 + kev_points f);
          s11 = add_if (FirmwareOutdated f) 1 s10;
          s12 = add_if (HighEntropyFirmware f) 2 s11;
          s13 = fl (s12 + day_points f)
      in min s13 10)"

definition SeverityFromScore :: "rat \<Rightarrow> string" where
  "SeverityFromScore score =
     (if score \<ge> 8 then ''critical'' else if score \<ge> 6 then ''high''
      else if score \<ge> 3 then ''medium'' else ''low'')"

text \<open>The map of contributions, as an association list in the order of the assignments.\<close>

definition ScoreBreakdown :: "risk_factors \<Rightarrow> (string \<times> rat) list" where
  "ScoreBreakdown f =
     (if HasDefaultCreds f then [(''default_credentials'', 4)] else []) @
     (if HasTelnet f then [(''telnet_exposed'', 3)] else []) @
     (if HasADB f then [(''adb_exposed'', 7 / 2)] else []) @
     (if HasModbus f then [(''modbus_detected'', 5 / 2)] else []) @
     (if HasUnauthRTSP f then [(''unauth_rtsp'', 2)] else []) @
     (if HasPlaintextMQTT f then [(''plaintext_mqtt'', 3 / 2)] else []) @
     (if HasHTTPMgmt f then [(''http_management'', 1)] else []) @
     (if HasWeakTLS f then [(''weak_tls'', 3 / 2)] else []) @
     (if cve_points f > 0 then [(''known_cves'', cve_points f)] else []) @
     (if kev_points f > 0 then [(''kev_matches'', kev_points f)] else []) @
     (if FirmwareOutdated f then [(''firmware_outdated'', 1)] else []) @
     (if HighEntropyFirmware f then [(''high_entropy_firmware'', 2)] else []) @
     (if day_points f > 0 then [(''scan_age'', day_points f)] else [])"

section \<open>Factors from the tables\<close>

definition no_factors :: risk_factors where
  "no_factors = \<lparr>HasDefaultCreds = False, HasTelnet = False, HasADB = False, HasModbus = False,
     HasUnauthRTSP = False, HasPlaintextMQTT = False, HasHTTPMgmt = False, HasWeakTLS = False,
     KnownCVECount = 0, KEVMatchCount = 0, FirmwareOutdated = False, HighEntropyFirmware = False,
     DaysSinceLastScan = 0\<rparr>"

text \<open>The body of the loop over the titles of the open vulnerabilities.\<close>

definition title_factors :: "string \<Rightarrow> risk_factors \<Rightarrow> risk_factors" where
  "title_factors title f =
     (let t = toLower title in
      f\<lparr>HasTelnet := HasTelnet f \<or> contains t ''telnet'',
        HasADB := HasADB f \<or> contains t ''adb'' \<or> contains t ''android debug'',
        HasModbus := HasModbus f \<or> contains t ''modbus'',
        HasUnauthRTSP := HasUnauthRTSP f \<or> contains t ''rtsp'',
        HasPlaintextMQTT := HasPlaintextMQTT f \<or> contains t ''mqtt'',
        HasHTTPMgmt := HasHTTPMgmt f \<or> contains t ''http'',
        HasDefaultCreds := HasDefaultCreds f \<or> contains t ''default credentials'',
        HasWeakTLS := HasWeakTLS f \<or> contains t ''tls''\<rparr>)"

definition open_vulns :: "string \<Rightarrow> vuln_row list \<Rightarrow> vuln_row list" where
  "open_vulns dev vs = filter (\<lambda>v. vu_DeviceID v = Some dev \<and> \<not> vu_IsResolved v) vs"

text \<open>
  \<open>ORDER BY analyzed_at DESC LIMIT 1\<close>: PostgreSQL sorts NULL before every value in descending
  order, so a row that was never analysed comes first.
\<close>

fun newest_firmware :: "firmware_row list \<Rightarrow> firmware_row option" where
  "newest_firmware [] = None"
| "newest_firmware (r # rs) =
     (case newest_firmware rs of
        None \<Rightarrow> Some r
      | Some b \<Rightarrow>
          (case (fr_analyzed_at r, fr_analyzed_at b) of
             (None, _) \<Rightarrow> Some r
           | (Some t, None) \<Rightarrow> Some b
           | (Some t, Some u) \<Rightarrow> if u \<le> t then Some r else Some b))"

definition last_scan :: "string \<Rightarrow> scan list \<Rightarrow> time option" where
  "last_scan dev ss =
     (let ts = map s_StartedAt (filter (\<lambda>s. s_DeviceID s = Some dev) ss)
      in if ts = [] then None else Some (Max (set ts)))"

text \<open>
  \<open>int(d.Hours() / 24)\<close>. \<open>Hours\<close> adds the whole hours and the rest as a fraction; the division
  and the remainder of Go, and the conversion to \<open>int\<close>, go towards zero.
\<close>

definition go_div :: "int \<Rightarrow> int \<Rightarrow> int" where
  "go_div a b = (if (a < 0) = (b < 0) then \<bar>a\<bar> div \<bar>b\<bar> else - (\<bar>a\<bar> div \<bar>b\<bar>))"

definition duration_Hours :: "duration \<Rightarrow> rat" where
  "duration_Hours d =
     (let h = go_div d hour; nsec = d - h * hour
      in fl (fl (of_int h) + fl (fl (of_int nsec) / 3600000000000)))"

definition int_of_float :: "rat \<Rightarrow> int" where
  "int_of_float x = (if x < 0 then - \<lfloor>- x\<rfloor> else \<lfloor>x\<rfloor>)"

definition days_since :: "time \<Rightarrow> time \<Rightarrow> int" where
  "days_since now t = int_of_float (fl (duration_Hours (time_sub now t) / 24))"

text \<open>
  The error of the \<open>n\<close>-th statement is \<open>err n\<close>: 0 the query for titles, 1 an error while its rows
  are read, then the two counts, the firmware and the last scan, whose errors the code ignores: the
  variable keeps its zero value.
\<close>

definition BuildRiskFactors ::
  "(nat \<Rightarrow> string option) \<Rightarrow> time \<Rightarrow> fleet \<Rightarrow> string \<Rightarrow> string + risk_factors" where
  "BuildRiskFactors err now db dev =
     (case err 0 of Some e \<Rightarrow> Inl e
      | None \<Rightarrow>
        (let f = fold title_factors (map vu_Title (open_vulns dev (fl_vulns db))) no_factors in
         case err 1 of Some e \<Rightarrow> Inl (''iterate scans: '' @ e)
         | None \<Rightarrow>
           (let cves = (if err 2 = None then int (length (filter (\<lambda>v. vu_CVEID v \<noteq> None) (open_vulns dev (fl_vulns db)))) else 0);
                kevs = (if err 3 = None then int (length (filter vu_IsKEV (open_vulns dev (fl_vulns db)))) else 0);
                entropy = (if err 4 = None
                           then Option.bind (newest_firmware (filter (\<lambda>r. fr_device_id r = Some dev) (fl_firmware db))) fr_entropy_score
                           else None);
                high = (case entropy of None \<Rightarrow> False | Some x \<Rightarrow> x > fl (72 / 10));
                days = (if err 5 = None
                        then (case last_scan dev (fl_scans db) of None \<Rightarrow> 0 | Some t \<Rightarrow> days_since now t) else 0)
            in Inr (f\<lparr>KnownCVECount := cves, KEVMatchCount := kevs, HighEntropyFirmware := high,
                      DaysSinceLastScan := days\<rparr>))))"

text \<open>
  The column \<open>risk_score\<close> is \<open>NUMERIC(3,1)\<close>: the stored value is the decimal text of the score, rounded
  to one decimal, halves away from zero.
\<close>

definition numeric_1 :: "rat \<Rightarrow> rat" where
  "numeric_1 x = (let y = shortest x in if y < 0 then - (of_int \<lfloor>- y * 10 + 1 / 2\<rfloor> / 10) else of_int \<lfloor>y * 10 + 1 / 2\<rfloor> / 10)"

definition UpdateDeviceRiskScore ::
  "(nat \<Rightarrow> string option) \<Rightarrow> time \<Rightarrow> string \<Rightarrow> fleet \<Rightarrow> string option \<times> fleet" where
  "UpdateDeviceRiskScore err now dev db =
     (case BuildRiskFactors err now db dev of
        Inl e \<Rightarrow> (Some e, db)
      | Inr f \<Rightarrow>
          (case err 7 of Some e \<Rightarrow> (Some e, db)
           | None \<Rightarrow> (None, db\<lparr>fl_devices := map (\<lambda>d. if d_ID d = dev then d\<lparr>d_RiskScore := numeric_1 (CalculateRiskScore f)\<rparr> else d)
                                   (fl_devices db)\<rparr>)))"

definition factors_json :: "risk_factors \<Rightarrow> json" where
  "factors_json f = JObj
     [(''has_default_creds'', JBool (HasDefaultCreds f)), (''has_telnet'', JBool (HasTelnet f)),
      (''has_adb'', JBool (HasADB f)), (''has_modbus'', JBool (HasModbus f)),
      (''has_unauth_rtsp'', JBool (HasUnauthRTSP f)), (''has_plaintext_mqtt'', JBool (HasPlaintextMQTT f)),
      (''has_http_mgmt'', JBool (HasHTTPMgmt f)), (''has_weak_tls'', JBool (HasWeakTLS f)),
      (''known_cve_count'', JNum (KnownCVECount f)), (''kev_match_count'', JNum (KEVMatchCount f)),
      (''firmware_outdated'', JBool (FirmwareOutdated f)), (''high_entropy_firmware'', JBool (HighEntropyFirmware f)),
      (''days_since_last_scan'', JNum (DaysSinceLastScan f))]"

definition GetRiskBreakdown ::
  "(nat \<Rightarrow> string option) \<Rightarrow> time \<Rightarrow> fleet \<Rightarrow> string \<Rightarrow> string + json" where
  "GetRiskBreakdown err now db dev =
     (case BuildRiskFactors err now db dev of
        Inl e \<Rightarrow> Inl e
      | Inr f \<Rightarrow>
          (let score = CalculateRiskScore f
           in Inr (JObj [(''total_score'', JFloat score), (''severity'', JStr (SeverityFromScore score)),
                (''factors'', factors_json f),
                (''score_breakdown'', JObj (map (\<lambda>(k, p). (k, JFloat p)) (ScoreBreakdown f)))])))"

section \<open>The score in half points\<close>

text \<open>Everything but the age of the last scan is a whole number of half points.\<close>

definition halves :: "risk_factors \<Rightarrow> int" where
  "halves f =
     (if HasDefaultCreds f then 8 else 0) + (if HasTelnet f then 6 else 0) + (if HasADB f then 7 else 0) +
     (if HasModbus f then 5 else 0) + (if HasUnauthRTSP f then 4 else 0) + (if HasPlaintextMQTT f then 3 else 0) +
     (if HasHTTPMgmt f then 2 else 0) + (if HasWeakTLS f then 3 else 0) +
     min (KnownCVECount f) 6 + 4 * min (KEVMatchCount f) 2 +
     (if FirmwareOutdated f then 2 else 0) + (if HighEntropyFirmware f then 4 else 0)"

definition half_points :: "rat \<Rightarrow> int \<Rightarrow> int \<Rightarrow> bool" where
  "half_points x n bound \<longleftrightarrow> x = of_int n / 2 \<and> 0 \<le> n \<and> n \<le> bound \<and> bound \<le> 100"

lemma half_points_add:
  assumes "half_points x n bound" "p = of_int k / 2" "0 \<le> k" "k \<le> m" "bound + m \<le> 100"
  shows "half_points (fl (x + p)) (n + k) (bound + m)"
proof -
  have x: "x = of_int n / 2" and n: "0 \<le> n" "n \<le> bound" using assms(1) by (auto simp: half_points_def)
  have "fl (of_int (n + k) / 2) = of_int (n + k) / 2" using assms(3-5) n by (intro f64.half) simp
  moreover have "x + p = of_int (n + k) / 2" unfolding x assms(2) by (simp add: add_divide_distrib)
  ultimately have "fl (x + p) = of_int (n + k) / 2" by (simp only:)
  then show ?thesis using assms(3-5) n unfolding half_points_def by simp
qed

lemma half_points_add_if:
  assumes "half_points x n bound" "p = of_int k / 2" "0 \<le> k" "bound + k \<le> 100"
  shows "half_points (add_if b p x) (n + (if b then k else 0)) (bound + k)"
proof (cases b)
  case True
  then show ?thesis using half_points_add [OF assms(1,2,3) order.refl assms(4)] by (simp add: add_if_def)
next
  case False
  then show ?thesis using assms by (auto simp: add_if_def half_points_def)
qed

lemma cve_points_halves:
  assumes "0 \<le> KnownCVECount f"
  shows "cve_points f = of_int (min (KnownCVECount f) 6) / 2"
proof (cases "KnownCVECount f \<le> 6")
  case True
  with assms have "fl (of_int (KnownCVECount f)) = of_int (KnownCVECount f)"
    "fl (of_int (KnownCVECount f) / 2) = of_int (KnownCVECount f) / 2"
    by (simp_all add: f64.int f64.half)
  with True show ?thesis by (simp add: cve_points_def)
next
  case False
  then have "(of_int 6 :: rat) \<le> of_int (KnownCVECount f)" by (simp only: of_int_le_iff)
  then have "6 \<le> fl (of_int (KnownCVECount f))" using f64.lower [of 6 "of_int (KnownCVECount f)"] by simp
  then have "3 \<le> fl (fl (of_int (KnownCVECount f)) * (1 / 2))"
    using f64.lower [of 3 "fl (of_int (KnownCVECount f)) * (1 / 2)"] by simp
  with False show ?thesis by (simp add: cve_points_def)
qed

lemma kev_points_halves:
  assumes "0 \<le> KEVMatchCount f"
  shows "kev_points f = of_int (4 * min (KEVMatchCount f) 2) / 2"
proof (cases "KEVMatchCount f \<le> 2")
  case True
  with assms have "fl (of_int (KEVMatchCount f)) = of_int (KEVMatchCount f)"
    "fl (of_int (2 * KEVMatchCount f)) = of_int (2 * KEVMatchCount f)"
    by (auto intro!: f64.int simp del: of_int_mult)
  moreover have "(of_int (KEVMatchCount f) :: rat) \<le> 2" using True by (simp add: of_int_le_numeral_iff)
  ultimately show ?thesis using True by (simp add: kev_points_def mult.commute)
next
  case False
  then have "(of_int 2 :: rat) \<le> of_int (KEVMatchCount f)" by (simp only: of_int_le_iff)
  then have "2 \<le> fl (of_int (KEVMatchCount f))" using f64.lower [of 2 "of_int (KEVMatchCount f)"] by simp
  then have "4 \<le> fl (fl (of_int (KEVMatchCount f)) * 2)"
    using f64.lower [of 4 "fl (of_int (KEVMatchCount f)) * 2"] by simp
  with False show ?thesis by (simp add: kev_points_def)
qed

definition counts_ok :: "risk_factors \<Rightarrow> bool" where
  "counts_ok f \<longleftrightarrow> 0 \<le> KnownCVECount f \<and> 0 \<le> KEVMatchCount f \<and> 0 \<le> DaysSinceLastScan f"

lemma halves_range:
  assumes "counts_ok f"
  shows "0 \<le> halves f" "halves f \<le> 58"
proof -
  have c: "0 \<le> min (KnownCVECount f) 6" "min (KnownCVECount f) 6 \<le> 6"
    "0 \<le> min (KEVMatchCount f) 2" "min (KEVMatchCount f) 2 \<le> 2"
    using assms by (auto simp: counts_ok_def)
  have pts: "0 \<le> (if b then k else 0)" "(if b then k else 0) \<le> k" if "0 \<le> k" for b and k :: int
    using that by auto
  show "0 \<le> halves f" unfolding halves_def by (intro add_nonneg_nonneg pts) (use c in auto)
  have "halves f \<le> 8 + 6 + 7 + 5 + 4 + 3 + 2 + 3 + 6 + 4 * 2 + 2 + 4"
    unfolding halves_def by (intro add_mono pts) (use c in auto)
  then show "halves f \<le> 58" by simp
qed

lemma score_eq:
  assumes "0 \<le> KnownCVECount f" "0 \<le> KEVMatchCount f"
  shows "CalculateRiskScore f = min (fl (of_int (halves f) / 2 + day_points f)) 10"
proof -
  have c: "0 \<le> min (KnownCVECount f) 6" "min (KnownCVECount f) 6 \<le> 6"
    "0 \<le> 4 * min (KEVMatchCount f) 2" "4 * min (KEVMatchCount f) 2 \<le> 8"
    using assms by auto
  have cve: "cve_points f = of_int (min (KnownCVECount f) 6) / 2" and kev: "kev_points f = of_int (4 * min (KEVMatchCount f) 2) / 2"
    using assms cve_points_halves [of f] kev_points_halves [of f] by (simp_all only:)
  let ?s12 = "add_if (HighEntropyFirmware f) 2 (add_if (FirmwareOutdated f) 1 (fl (fl (
     add_if (HasWeakTLS f) (3 / 2) (add_if (HasHTTPMgmt f) 1 (add_if (HasPlaintextMQTT f) (3 / 2) (
     add_if (HasUnauthRTSP f) 2 (add_if (HasModbus f) (5 / 2) (add_if (HasADB f) (7 / 2) (
     add_if (HasTelnet f) 3 (add_if (HasDefaultCreds f) 4 0))))))) + cve_points f) + kev_points f)))"
  have h0: "half_points 0 0 0" by (simp add: half_points_def)
  have "half_points ?s12 (0 + (if HasDefaultCreds f then 8 else 0) + (if HasTelnet f then 6 else 0) +
     (if HasADB f then 7 else 0) + (if HasModbus f then 5 else 0) + (if HasUnauthRTSP f then 4 else 0) +
     (if HasPlaintextMQTT f then 3 else 0) + (if HasHTTPMgmt f then 2 else 0) + (if HasWeakTLS f then 3 else 0) +
     min (KnownCVECount f) 6 + 4 * min (KEVMatchCount f) 2 +
     (if FirmwareOutdated f then 2 else 0) + (if HighEntropyFirmware f then 4 else 0))
     (0 + 8 + 6 + 7 + 5 + 4 + 3 + 2 + 3 + 6 + 8 + 2 + 4)"
    by (intro half_points_add_if half_points_add h0 cve kev c) simp_all
  then have "?s12 = of_int (halves f) / 2"
    by (simp only: half_points_def halves_def add_0)
  then show ?thesis by (simp only: CalculateRiskScore_def Let_def)
qed

section \<open>Order on factors\<close>

definition factors_le :: "risk_factors \<Rightarrow> risk_factors \<Rightarrow> bool" where
  "factors_le f g \<longleftrightarrow>
     (HasDefaultCreds f \<longrightarrow> HasDefaultCreds g) \<and> (HasTelnet f \<longrightarrow> HasTelnet g) \<and> (HasADB f \<longrightarrow> HasADB g) \<and>
     (HasModbus f \<longrightarrow> HasModbus g) \<and> (HasUnauthRTSP f \<longrightarrow> HasUnauthRTSP g) \<and>
     (HasPlaintextMQTT f \<longrightarrow> HasPlaintextMQTT g) \<and> (HasHTTPMgmt f \<longrightarrow> HasHTTPMgmt g) \<and>
     (HasWeakTLS f \<longrightarrow> HasWeakTLS g) \<and> KnownCVECount f \<le> KnownCVECount g \<and> KEVMatchCount f \<le> KEVMatchCount g \<and>
     (FirmwareOutdated f \<longrightarrow> FirmwareOutdated g) \<and> (HighEntropyFirmware f \<longrightarrow> HighEntropyFirmware g) \<and>
     DaysSinceLastScan f \<le> DaysSinceLastScan g"

lemma halves_mono: "factors_le f g \<Longrightarrow> halves f \<le> halves g"
proof -
  assume le: "factors_le f g"
  have pts: "(if a then k else 0) \<le> (if b then k else 0)" if "a \<longrightarrow> b" "0 \<le> k" for a b and k :: int
    using that by auto
  show ?thesis
    unfolding halves_def using le unfolding factors_le_def
    by (intro add_mono pts min.mono mult_left_mono) auto
qed

lemma day_points_mono: "DaysSinceLastScan f \<le> DaysSinceLastScan g \<Longrightarrow> day_points f \<le> day_points g"
  unfolding day_points_def
  by (intro min.mono f64.mono mult_right_mono divide_right_mono) (auto intro: f64.nonneg)

lemma day_points_nonneg: "0 \<le> DaysSinceLastScan f \<Longrightarrow> 0 \<le> day_points f"
  unfolding day_points_def by (auto intro!: f64.nonneg mult_nonneg_nonneg divide_nonneg_nonneg)

lemma score_mono:
  assumes "0 \<le> KnownCVECount f" "0 \<le> KEVMatchCount f" "factors_le f g"
  shows "CalculateRiskScore f \<le> CalculateRiskScore g"
proof -
  have g: "0 \<le> KnownCVECount g" "0 \<le> KEVMatchCount g" using assms by (auto simp: factors_le_def)
  have "of_int (halves f) / 2 + day_points f \<le> of_int (halves g) / 2 + day_points g"
    using halves_mono [OF assms(3)] day_points_mono [of f g] assms(3)
    by (intro add_mono divide_right_mono) (auto simp: factors_le_def)
  then show ?thesis unfolding score_eq [OF assms(1,2)] score_eq [OF g] by (intro min.mono f64.mono) auto
qed

lemma sum_if_list: "sum_list (map snd (if b then [(k, p)] else [])) = (if b then p else (0 :: rat))"
  by simp

lemma breakdown_sum:
  assumes "counts_ok f"
  shows "sum_list (map snd (ScoreBreakdown f)) = of_int (halves f) / 2 + day_points f"
proof -
  have cve: "cve_points f = of_int (min (KnownCVECount f) 6) / 2" and kev: "kev_points f = of_int (4 * min (KEVMatchCount f) 2) / 2"
    using assms cve_points_halves [of f] kev_points_halves [of f] by (simp_all only: counts_ok_def)
  have pos: "(if 0 < x then x else 0) = x" if "0 \<le> x" for x :: rat using that by auto
  have "0 \<le> cve_points f" "0 \<le> kev_points f" using assms unfolding cve kev by (auto simp: counts_ok_def)
  moreover have "0 \<le> day_points f" using assms by (intro day_points_nonneg) (simp add: counts_ok_def)
  moreover have half: "(of_int (if b then k else 0) :: rat) = (if b then of_int k else 0)" for b k by simp
  have dist: "(if b then x else 0) / 2 = (if b then x / 2 else (0 :: rat))" for b x by simp
  ultimately show ?thesis
    unfolding ScoreBreakdown_def map_append sum_list_append sum_if_list pos halves_def of_int_add add_divide_distrib half dist
    by (simp add: pos cve kev add_divide_distrib)
qed

text \<open>The factors found in the titles.\<close>

lemma fold_title_factors:
  "HasTelnet (fold title_factors ts f) \<longleftrightarrow> HasTelnet f \<or> (\<exists>t \<in> set ts. contains (toLower t) ''telnet'')"
  "HasADB (fold title_factors ts f) \<longleftrightarrow> HasADB f \<or> (\<exists>t \<in> set ts. contains (toLower t) ''adb'' \<or> contains (toLower t) ''android debug'')"
  "HasModbus (fold title_factors ts f) \<longleftrightarrow> HasModbus f \<or> (\<exists>t \<in> set ts. contains (toLower t) ''modbus'')"
  "HasUnauthRTSP (fold title_factors ts f) \<longleftrightarrow> HasUnauthRTSP f \<or> (\<exists>t \<in> set ts. contains (toLower t) ''rtsp'')"
  "HasPlaintextMQTT (fold title_factors ts f) \<longleftrightarrow> HasPlaintextMQTT f \<or> (\<exists>t \<in> set ts. contains (toLower t) ''mqtt'')"
  "HasHTTPMgmt (fold title_factors ts f) \<longleftrightarrow> HasHTTPMgmt f \<or> (\<exists>t \<in> set ts. contains (toLower t) ''http'')"
  "HasDefaultCreds (fold title_factors ts f) \<longleftrightarrow> HasDefaultCreds f \<or> (\<exists>t \<in> set ts. contains (toLower t) ''default credentials'')"
  "HasWeakTLS (fold title_factors ts f) \<longleftrightarrow> HasWeakTLS f \<or> (\<exists>t \<in> set ts. contains (toLower t) ''tls'')"
  "FirmwareOutdated (fold title_factors ts f) \<longleftrightarrow> FirmwareOutdated f"
  by (induction ts arbitrary: f) (auto simp: title_factors_def Let_def)

section \<open>Properties\<close>

text \<open>C19: For non-negative counts and ages, the score lies between 0 and 10, whatever the factors.\<close>

theorem score_range:
  assumes "counts_ok f"
  shows "0 \<le> CalculateRiskScore f \<and> CalculateRiskScore f \<le> 10"
proof -
  have counts: "0 \<le> KnownCVECount f" "0 \<le> KEVMatchCount f" using assms by (simp_all add: counts_ok_def)
  have "0 \<le> of_int (halves f) / 2 + day_points f"
    using halves_range(1) [OF assms] day_points_nonneg [of f] assms by (auto simp: counts_ok_def)
  then show ?thesis unfolding score_eq [OF counts] using f64.nonneg by auto
qed

theorem score_range_witness: "0 \<le> CalculateRiskScore no_factors \<and> CalculateRiskScore no_factors \<le> 10"
  by (rule score_range) (simp add: counts_ok_def no_factors_def)

text \<open>C20: Whatever the age of the last scan, the score never falls when a factor is added or a count grows, in spite of the rounding of
  the floating-point additions and of the caps.\<close>

theorem score_monotone:
  assumes "0 \<le> KnownCVECount f" "0 \<le> KEVMatchCount f" "factors_le f g"
  shows "CalculateRiskScore f \<le> CalculateRiskScore g"
  by (rule score_mono [OF assms])

theorem score_monotone_witness:
  "CalculateRiskScore (no_factors\<lparr>DaysSinceLastScan := 7\<rparr>)
   \<le> CalculateRiskScore (no_factors\<lparr>HasTelnet := True, DaysSinceLastScan := 8\<rparr>)"
  by (rule score_monotone) (simp_all add: factors_le_def no_factors_def)

text \<open>The breakdown explains the score: the score is the sum of the contributions listed,
  rounded once to a floating-point number and capped at ten.\<close>

theorem breakdown_explains_score:
  assumes "counts_ok f"
  shows "CalculateRiskScore f = min (fl (sum_list (map snd (ScoreBreakdown f)))) 10"
  unfolding breakdown_sum [OF assms] using assms by (intro score_eq) (simp_all add: counts_ok_def)

theorem breakdown_explains_score_witness:
  "CalculateRiskScore (no_factors\<lparr>HasADB := True, KEVMatchCount := 1\<rparr>) = min (fl (7 / 2 + 2)) 10"
proof -
  let ?f = "no_factors\<lparr>HasADB := True, KEVMatchCount := 1\<rparr>"
  have c: "counts_ok ?f" by (simp add: counts_ok_def no_factors_def)
  have "cve_points ?f = 0" "kev_points ?f = 2" "day_points ?f = 0"
    using cve_points_halves [of ?f] kev_points_halves [of ?f] by (simp_all add: no_factors_def day_points_def)
  then have "ScoreBreakdown ?f = [(''adb_exposed'', 7 / 2), (''kev_matches'', 2)]"
    by (simp add: ScoreBreakdown_def) (simp add: no_factors_def)
  then show ?thesis using breakdown_explains_score [OF c] by simp
qed

end
