(* ===== verification/Probes.thy ===== *)
theory Probes
  imports Risk
begin

text \<open>
  The protocol probes of \<open>backend/scanner/protocols.go\<close>, the TLS check of
  \<open>backend/scanner/tls.go\<close> and the port tables of \<open>backend/scanner/ports.go\<close>.

  The network is a parameter. For the probed host it gives, for every port, the connection a dial
  returns (\<open>None\<close> when the dial fails). A connection says whether a write succeeds, and what the
  next read delivers after the bytes written so far: the bytes available and whether the read
  reports an error; a read into a buffer of \<open>n\<close> bytes delivers at most \<open>n\<close> of them.
\<close>

section \<open>Connections\<close>

record conn =
  cn_write_ok :: "string \<Rightarrow> bool"
  cn_reply :: "string \<Rightarrow> string"
  cn_read_err :: "string \<Rightarrow> bool"

type_synonym net = "int \<Rightarrow> conn option"

definition conn_read :: "conn \<Rightarrow> string \<Rightarrow> nat \<Rightarrow> string" where
  "conn_read cn sent n = take n (cn_reply cn sent)"

section \<open>Findings\<close>

record protocol_finding =
  pf_Protocol :: string
  pf_Port :: int
  pf_Risk :: string
  pf_Description :: string
  pf_Evidence :: string

definition detectTelnet :: "net \<Rightarrow> int \<Rightarrow> protocol_finding option" where
  "detectTelnet net p =
     (case net p of
        None \<Rightarrow> None
      | Some cn \<Rightarrow>
          (let banner = conn_read cn [] 1024;
               evidence = (if 0 < length banner then ''Banner: '' @ trimSpace banner else ''TCP connection accepted'')
           in if length banner = 0 \<or> contains (toLower banner) ''login'' \<or> contains (toLower banner) ''telnet'' \<or>
                 contains (toLower banner) ''username''
              then Some \<lparr>pf_Protocol = ''Telnet'', pf_Port = p, pf_Risk = ''critical'',
                         pf_Description = ''Telnet exposes credentials in plaintext'', pf_Evidence = evidence\<rparr>
              else None))"

definition detectADB :: "net \<Rightarrow> int \<Rightarrow> protocol_finding option" where
  "detectADB net p =
     (case net p of
        None \<Rightarrow> None
      | Some cn \<Rightarrow>
          (let buf = conn_read cn [] 4;
               evidence = (if 4 \<le> length buf \<and> take 4 buf = ''CNXN'' then ''ADB CNXN banner detected''
                           else ''TCP connection accepted on ADB port'')
           in Some \<lparr>pf_Protocol = ''ADB'', pf_Port = p, pf_Risk = ''critical'',
                    pf_Description = ''Android Debug Bridge exposed - BadBox 2.0 indicator'', pf_Evidence = evidence\<rparr>))"

definition mqttConnect :: string where
  "mqttConnect = map char_of [16 :: nat, 13, 0, 4, 77, 81, 84, 84, 4, 2, 0, 60, 0, 1, 0]"

definition detectMQTT :: "net \<Rightarrow> int \<Rightarrow> protocol_finding option" where
  "detectMQTT net p =
     (case net p of
        None \<Rightarrow> None
      | Some cn \<Rightarrow>
          if \<not> cn_write_ok cn mqttConnect then None
          else (let resp = conn_read cn mqttConnect 4 in
                if cn_read_err cn mqttConnect \<or> length resp = 0 then None
                else if hd resp = char_of (32 :: nat)
                then Some \<lparr>pf_Protocol = ''MQTT-plaintext'', pf_Port = p, pf_Risk = ''high'',
                           pf_Description = ''MQTT broker without TLS - credentials transmitted in cleartext'',
                           pf_Evidence = ''CONNACK response received on plaintext port''\<rparr>
                else None))"

definition modbusReq :: string where
  "modbusReq = map char_of [0 :: nat, 1, 0, 0, 0, 6, 1, 17, 0, 0, 0, 0]"

definition detectModbus :: "net \<Rightarrow> int \<Rightarrow> protocol_finding option" where
  "detectModbus net p =
     (case net p of
        None \<Rightarrow> None
      | Some cn \<Rightarrow>
          if \<not> cn_write_ok cn modbusReq then None
          else (let resp = conn_read cn modbusReq 256 in
                if cn_read_err cn modbusReq \<or> length resp = 0 then None
                else Some \<lparr>pf_Protocol = ''Modbus'', pf_Port = p, pf_Risk = ''critical'',
                           pf_Description = ''Industrial Modbus protocol detected - no authentication by design'',
                           pf_Evidence = ''Received '' @ itoa (int (length resp)) @ '' byte response to Modbus query''\<rparr>))"

definition crlf :: string where "crlf = map char_of [13 :: nat, 10]"

definition detectRTSP :: "net \<Rightarrow> string \<Rightarrow> int \<Rightarrow> protocol_finding option" where
  "detectRTSP net ip p =
     (case net p of
        None \<Rightarrow> None
      | Some cn \<Rightarrow>
          (let request = ''OPTIONS rtsp://'' @ ip @ '':'' @ itoa p @ ''/ RTSP/1.0'' @ crlf @ ''CSeq: 1'' @ crlf @ crlf in
           if \<not> cn_write_ok cn request then None
           else (let response = conn_read cn request 1024 in
                 if cn_read_err cn request \<or> length response = 0 then None
                 else if contains response ''200 OK'' \<and> \<not> contains response ''401''
                 then Some \<lparr>pf_Protocol = ''RTSP-unauth'', pf_Port = p, pf_Risk = ''high'',
                            pf_Description = ''Camera stream accessible without authentication'',
                            pf_Evidence = ''RTSP OPTIONS returned 200 OK without authentication challenge''\<rparr>
                 else None)))"

text \<open>\<open>detectTLS\<close> opens no connection: it reports the first of the two ports that is open.\<close>

definition detectTLS :: "int list \<Rightarrow> protocol_finding option" where
  "detectTLS openPorts =
     (case find (\<lambda>p. p \<in> set openPorts) [8443, 8883] of
        None \<Rightarrow> None
      | Some p \<Rightarrow> Some \<lparr>pf_Protocol = ''TLS-service'', pf_Port = p, pf_Risk = ''medium'',
                        pf_Description = ''TLS service on port '' @ itoa p @ '' - verify certificate and cipher strength'',
                        pf_Evidence = ''Port '' @ itoa p @ '' is open''\<rparr>)"

definition opt_list :: "'a option \<Rightarrow> 'a list" where
  "opt_list x = (case x of None \<Rightarrow> [] | Some a \<Rightarrow> [a])"

definition DetectProtocols :: "net \<Rightarrow> string \<Rightarrow> int list \<Rightarrow> protocol_finding list" where
  "DetectProtocols net ip openPorts =
     (let has = (\<lambda>p. p \<in> set openPorts) in
      (if has 23 then opt_list (detectTelnet net 23) else []) @
      (if has 5555 then opt_list (detectADB net 5555) else []) @
      (if has 1883 then opt_list (detectMQTT net 1883) else []) @
      (if has 502 then opt_list (detectModbus net 502) else []) @
      (if has 554 then opt_list (detectRTSP net ip 554) else []) @
      (if has 8443 \<or> has 8883 then opt_list (detectTLS openPorts) else []))"

section \<open>Port tables\<close>

definition CommonIoTPorts :: "int list" where
  "CommonIoTPorts = [22, 23, 80, 443, 554, 1883, 1884, 5555, 8883, 47808, 502]"

definition PortRisk :: "int \<rightharpoonup> string" where
  "PortRisk = [23 \<mapsto> ''critical'', 5555 \<mapsto> ''critical'', 502 \<mapsto> ''critical'', 1883 \<mapsto> ''high'', 554 \<mapsto> ''high'',
     47808 \<mapsto> ''high'', 80 \<mapsto> ''medium'', 443 \<mapsto> ''low'', 22 \<mapsto> ''low'']"

section \<open>TLS check\<close>

text \<open>
  A handshake with the versions limited to one either fails or gives the cipher suite and the end
  of validity of every certificate the peer sent; cipher suites are named by their TLS numbers.
\<close>

record tls_state =
  ts_CipherSuite :: nat
  ts_NotAfter :: "time list"

record tls_result =
  SupportsTLS10 :: bool
  SupportsTLS11 :: bool
  SupportsTLS12 :: bool
  SupportsTLS13 :: bool
  WeakCiphers :: "string list"
  CertExpired :: bool
  CertError :: string

definition weakCipherNames :: "nat \<rightharpoonup> string" where
  "weakCipherNames = [0x0005 \<mapsto> ''RC4-SHA'', 0x000a \<mapsto> ''3DES-EDE-CBC-SHA'', 0xc011 \<mapsto> ''ECDHE-RSA-RC4-SHA'',
     0xc007 \<mapsto> ''ECDHE-ECDSA-RC4-SHA'', 0xc012 \<mapsto> ''ECDHE-RSA-3DES-EDE-CBC-SHA'', 0x002f \<mapsto> ''AES128-CBC-SHA'',
     0x0035 \<mapsto> ''AES256-CBC-SHA'']"

datatype tls_version = VersionTLS10 | VersionTLS11 | VersionTLS12 | VersionTLS13

type_synonym tls_peer = "tls_version \<Rightarrow> tls_state option"

definition note_state :: "time \<Rightarrow> tls_state \<Rightarrow> tls_result \<Rightarrow> tls_result" where
  "note_state now st r =
     (let r1 = (case weakCipherNames (ts_CipherSuite st) of
                  Some name \<Rightarrow> r\<lparr>WeakCiphers := WeakCiphers r @ [name]\<rparr> | None \<Rightarrow> r)
      in if list_ex (\<lambda>t. now > t) (ts_NotAfter st) then r1\<lparr>CertExpired := True\<rparr> else r1)"

definition CheckTLS :: "tls_peer \<Rightarrow> time \<Rightarrow> tls_result" where
  "CheckTLS peer now =
     (let r0 = \<lparr>SupportsTLS10 = False, SupportsTLS11 = False, SupportsTLS12 = False, SupportsTLS13 = False,
                WeakCiphers = [], CertExpired = False, CertError = []\<rparr>;
          r1 = (case peer VersionTLS10 of None \<Rightarrow> r0 | Some st \<Rightarrow> note_state now st (r0\<lparr>SupportsTLS10 := True\<rparr>));
          r2 = (case peer VersionTLS11 of None \<Rightarrow> r1 | Some st \<Rightarrow> note_state now st (r1\<lparr>SupportsTLS11 := True\<rparr>));
          r3 = (case peer VersionTLS12 of None \<Rightarrow> r2 | Some st \<Rightarrow> note_state now st (r2\<lparr>SupportsTLS12 := True\<rparr>))
      in if peer VersionTLS13 = None then r3 else r3\<lparr>SupportsTLS13 := True\<rparr>)"

text \<open>The condition under which a scan reports the TLS configuration.\<close>

definition tls_weak :: "tls_result \<Rightarrow> bool" where
  "tls_weak r \<longleftrightarrow> SupportsTLS10 r \<or> SupportsTLS11 r \<or> 0 < length (WeakCiphers r)"

section \<open>Lemmas\<close>

lemma set_opt_list [simp]: "set (opt_list x) = set_option x"
  by (cases x) (simp_all add: opt_list_def)

lemma map_opt_list: "map f (opt_list x) = opt_list (map_option f x)"
  by (cases x) (simp_all add: opt_list_def)

lemma distinct_opt_list [simp]: "distinct (opt_list x)"
  by (cases x) (simp_all add: opt_list_def)

lemmas detect_defs = detectTelnet_def detectADB_def detectMQTT_def detectModbus_def detectRTSP_def Let_def

lemma detect_Some:
  "detectTelnet net p = Some f \<Longrightarrow> pf_Protocol f = ''Telnet'' \<and> pf_Port f = p \<and> pf_Risk f = ''critical'' \<and> net p \<noteq> None"
  "detectADB net p = Some f \<Longrightarrow> pf_Protocol f = ''ADB'' \<and> pf_Port f = p \<and> pf_Risk f = ''critical'' \<and> net p \<noteq> None"
  "detectMQTT net p = Some f \<Longrightarrow> pf_Protocol f = ''MQTT-plaintext'' \<and> pf_Port f = p \<and> pf_Risk f = ''high'' \<and> net p \<noteq> None"
  "detectModbus net p = Some f \<Longrightarrow> pf_Protocol f = ''Modbus'' \<and> pf_Port f = p \<and> pf_Risk f = ''critical'' \<and> net p \<noteq> None"
  "detectRTSP net ip p = Some f \<Longrightarrow> pf_Protocol f = ''RTSP-unauth'' \<and> pf_Port f = p \<and> pf_Risk f = ''high'' \<and> net p \<noteq> None"
  by (auto simp: detect_defs split: option.splits if_splits)

lemma detectTLS_Some:
  "detectTLS ps = Some f \<Longrightarrow> pf_Protocol f = ''TLS-service'' \<and> pf_Port f \<in> {8443, 8883} \<inter> set ps \<and> pf_Risk f = ''medium''"
  by (auto simp: detectTLS_def split: if_splits)

text \<open>What each protocol's finding is about: its port and its risk.\<close>

definition probe_table :: "(string \<times> int \<times> string) list" where
  "probe_table = [(''Telnet'', 23, ''critical''), (''ADB'', 5555, ''critical''), (''MQTT-plaintext'', 1883, ''high''),
     (''Modbus'', 502, ''critical''), (''RTSP-unauth'', 554, ''high''),
     (''TLS-service'', 8443, ''medium''), (''TLS-service'', 8883, ''medium'')]"

lemma finding_in_table:
  "f \<in> set (DetectProtocols net ip ps) \<Longrightarrow>
   (pf_Protocol f, pf_Port f, pf_Risk f) \<in> set probe_table \<and> pf_Port f \<in> set ps"
  by (auto simp: DetectProtocols_def probe_table_def Let_def split: if_splits dest!: detect_Some detectTLS_Some)

lemma distinct_protocols: "distinct (map pf_Protocol (DetectProtocols net ip ps))"
proof -
  have "set_option (map_option pf_Protocol (detectTelnet net 23)) \<subseteq> {''Telnet''}"
    "set_option (map_option pf_Protocol (detectADB net 5555)) \<subseteq> {''ADB''}"
    "set_option (map_option pf_Protocol (detectMQTT net 1883)) \<subseteq> {''MQTT-plaintext''}"
    "set_option (map_option pf_Protocol (detectModbus net 502)) \<subseteq> {''Modbus''}"
    "set_option (map_option pf_Protocol (detectRTSP net ip 554)) \<subseteq> {''RTSP-unauth''}"
    "set_option (map_option pf_Protocol (detectTLS ps)) \<subseteq> {''TLS-service''}"
    using detect_Some detectTLS_Some by fastforce+
  then show ?thesis
    by (auto simp: DetectProtocols_def Let_def map_opt_list)
qed

lemma note_state_simps [simp]:
  "SupportsTLS10 (note_state now st r) = SupportsTLS10 r" "SupportsTLS11 (note_state now st r) = SupportsTLS11 r"
  "WeakCiphers (note_state now st r) = WeakCiphers r @ opt_list (weakCipherNames (ts_CipherSuite st))"
  "CertExpired (note_state now st r) \<longleftrightarrow> CertExpired r \<or> (\<exists>t \<in> set (ts_NotAfter st). t < now)"
  by (auto simp: note_state_def Let_def opt_list_def list_ex_iff split: option.split)

section \<open>Properties\<close>

text \<open>The protocol probes report at most one finding per protocol, only on ports that are open,
  and rate a port as the port table does wherever the table rates it.\<close>

theorem protocol_findings_sound:
  "distinct (map pf_Protocol (DetectProtocols net ip ps)) \<and>
   list_all (\<lambda>f. pf_Port f \<in> set ps \<and> (pf_Protocol f, pf_Port f, pf_Risk f) \<in> set probe_table \<and>
                 (PortRisk (pf_Port f) = None \<or> PortRisk (pf_Port f) = Some (pf_Risk f)))
            (DetectProtocols net ip ps)"
proof -
  have "list_all (\<lambda>(pr, po, ri). PortRisk po = None \<or> PortRisk po = Some ri) probe_table"
    by (simp add: probe_table_def PortRisk_def)
  then show ?thesis
    using finding_in_table distinct_protocols by (fastforce simp: list_all_iff)
qed

text \<open>The TLS check reports a weak configuration exactly when the peer completes a handshake with
  TLS 1.0 or 1.1, or one with TLS 1.2 using a cipher suite of the weak list; and an expired
  certificate exactly when the peer sent one in a handshake below TLS 1.3.\<close>

theorem tls_check_exact:
  "(tls_weak (CheckTLS peer now) \<longleftrightarrow>
      peer VersionTLS10 \<noteq> None \<or> peer VersionTLS11 \<noteq> None \<or>
      (\<exists>st. peer VersionTLS12 = Some st \<and> ts_CipherSuite st \<in> dom weakCipherNames)) \<and>
   (CertExpired (CheckTLS peer now) \<longleftrightarrow>
      (\<exists>v st t. v \<noteq> VersionTLS13 \<and> peer v = Some st \<and> t \<in> set (ts_NotAfter st) \<and> t < now))"
proof -
  have 3: "(\<exists>v st t. v \<noteq> VersionTLS13 \<and> peer v = Some st \<and> P st t) \<longleftrightarrow>
        (\<exists>st t. peer VersionTLS10 = Some st \<and> P st t) \<or> (\<exists>st t. peer VersionTLS11 = Some st \<and> P st t) \<or>
        (\<exists>st t. peer VersionTLS12 = Some st \<and> P st t)" for P
    by (metis tls_version.exhaust tls_version.distinct)
  have "length (opt_list x) = 0 \<longleftrightarrow> x = None" for x :: "string option"
    by (cases x) (simp_all add: opt_list_def)
  then show ?thesis
    unfolding 3 by (auto simp: CheckTLS_def tls_weak_def Let_def split: option.splits)
qed

end
