(* ===== verification/Credentials.thy ===== *)
theory Credentials
  imports Go_Prelude
begin

text \<open>
  The default-credential tests of \<open>backend/scanner/credentials.go\<close>.

  The three tests share one loop over the credential list: it logs an attempt, makes it, and acts
  on the answer. \<open>cred_loop\<close> is that loop, and each test supplies the text it logs and its reading
  of the answer. The device is a parameter: the outcome of the attempt with a given index and
  credential. Pauses between attempts are not part of the result and are left out.
\<close>

section \<open>The credential file\<close>

record credential =
  cr_Username :: string
  cr_Password :: string

text \<open>One line of the file; comments, blank lines and lines without a colon hold no credential.\<close>

definition parse_line :: "string \<Rightarrow> credential option" where
  "parse_line text =
     (let line = trimSpace text in
      if line = [] \<or> hasPrefix line ''#'' then None
      else case splitN 2 CHR '':'' line of
             [user, pass] \<Rightarrow> Some \<lparr>cr_Username = user, cr_Password = (if pass = ''(blank)'' then [] else pass)\<rparr>
           | _ \<Rightarrow> None)"

fun load_loop :: "string list \<Rightarrow> credential list \<Rightarrow> credential list" where
  "load_loop [] creds = creds"
| "load_loop (l # ls) creds =
     (case parse_line l of
        None \<Rightarrow> load_loop ls creds
      | Some c \<Rightarrow> (let creds1 = creds @ [c] in if 100 \<le> length creds1 then creds1 else load_loop ls creds1))"

text \<open>The file as the scanner delivers it: its lines and the error that ended the scan, if any.\<close>

definition LoadCredentials :: "string \<Rightarrow> (string list \<times> string option) option \<Rightarrow> credential list \<times> string option" where
  "LoadCredentials path file =
     (case file of
        None \<Rightarrow> ([], Some (''credential file not found: '' @ path))
      | Some (ls, err) \<Rightarrow> (load_loop ls [], err))"

section \<open>The tests\<close>

record credential_result =
  re_Tested :: nat
  re_Found :: bool
  re_Username :: string
  re_Password :: string
  re_Method :: string
  re_LockedOut :: bool
  re_AuditLog :: "string list"

datatype verdict = Accepted | Locked | Refused | GiveUp

definition pair_limit :: "int \<Rightarrow> credential list \<Rightarrow> nat" where
  "pair_limit maxPairs creds =
     (let l1 = (if maxPairs > 50 then 50 else maxPairs) in nat (if l1 > int (length creds) then int (length creds) else l1))"

fun cred_loop ::
  "(nat \<Rightarrow> credential \<Rightarrow> verdict) \<Rightarrow> (credential \<Rightarrow> string) \<Rightarrow> nat \<Rightarrow> credential list \<Rightarrow> credential_result \<Rightarrow> credential_result" where
  "cred_loop attempt entry i [] r = r"
| "cred_loop attempt entry i (c # cs) r =
     (let r1 = r\<lparr>re_Tested := re_Tested r + 1, re_AuditLog := re_AuditLog r @ [entry c]\<rparr> in
      case attempt i c of
        Accepted \<Rightarrow> r1\<lparr>re_Found := True, re_Username := cr_Username c, re_Password := cr_Password c\<rparr>
      | Locked \<Rightarrow> r1\<lparr>re_LockedOut := True\<rparr>
      | Refused \<Rightarrow> cred_loop attempt entry (Suc i) cs r1
      | GiveUp \<Rightarrow> r1)"

definition no_result :: "string \<Rightarrow> credential_result" where
  "no_result meth = \<lparr>re_Tested = 0, re_Found = False, re_Username = [], re_Password = [], re_Method = meth,
     re_LockedOut = False, re_AuditLog = []\<rparr>"

text \<open>SSH: the error of the dial, if it fails.\<close>

definition ssh_verdict :: "string option \<Rightarrow> verdict" where
  "ssh_verdict out =
     (case out of
        None \<Rightarrow> Accepted
      | Some err \<Rightarrow> if contains (toLower err) ''too many'' \<or> contains (toLower err) ''locked'' then Locked else Refused)"

definition TestSSHCreds ::
  "(nat \<Rightarrow> credential \<Rightarrow> string option) \<Rightarrow> string \<Rightarrow> credential list \<Rightarrow> int \<Rightarrow> credential_result" where
  "TestSSHCreds dial addr creds maxPairs =
     cred_loop (\<lambda>i c. ssh_verdict (dial i c)) (\<lambda>c. ''[CRED-TEST] SSH '' @ addr @ '' user='' @ cr_Username c) 0
       (take (pair_limit maxPairs creds) creds) (no_result ''ssh'')"

text \<open>HTTP: the request cannot be built or sent, or is answered with a status and a body.\<close>

datatype http_try = RequestFailed | Answered int string

definition http_verdict :: "http_try \<Rightarrow> verdict" where
  "http_verdict out =
     (case out of
        RequestFailed \<Rightarrow> Refused
      | Answered sc body \<Rightarrow>
          (let bodyStr = toLower (take 1024 body) in
           if sc = 429 then Locked
           else if contains bodyStr ''locked'' \<or> contains bodyStr ''disabled'' then Locked
           else if sc = 200 then Accepted else Refused))"

definition http_url :: "string \<Rightarrow> int \<Rightarrow> string \<Rightarrow> string" where
  "http_url ip p path = (if p = 443 then ''https'' else ''http'') @ ''://'' @ ip @ '':'' @ itoa p @ path"

definition TestHTTPBasicCreds ::
  "(nat \<Rightarrow> credential \<Rightarrow> http_try) \<Rightarrow> string \<Rightarrow> int \<Rightarrow> string \<Rightarrow> credential list \<Rightarrow> int \<Rightarrow> credential_result" where
  "TestHTTPBasicCreds http ip p path creds maxPairs =
     cred_loop (\<lambda>i c. http_verdict (http i c))
       (\<lambda>c. ''[CRED-TEST] HTTP-BASIC '' @ http_url ip p path @ '' user='' @ cr_Username c) 0
       (take (pair_limit maxPairs creds) creds) (no_result ''http-basic'')"

text \<open>Telnet: the dial fails, or the bytes read after the password was sent.\<close>

datatype telnet_try = DialFailed | Replied string

definition telnet_verdict :: "telnet_try \<Rightarrow> verdict" where
  "telnet_verdict out =
     (case out of
        DialFailed \<Rightarrow> GiveUp
      | Replied bytes \<Rightarrow>
          if bytes = [] then Refused
          else (let response = toLower (take 1024 bytes);
                    rejected = list_ex (contains response) [''incorrect'', ''failed'', ''denied'', ''invalid'', ''wrong''];
                    reprompt = list_ex (contains response) [''password:'', ''login:'', ''username:'']
                in if \<not> rejected \<and> \<not> reprompt then Accepted else Refused))"

definition TestTelnetCreds ::
  "(nat \<Rightarrow> credential \<Rightarrow> telnet_try) \<Rightarrow> string \<Rightarrow> credential list \<Rightarrow> int \<Rightarrow> credential_result" where
  "TestTelnetCreds telnet addr creds maxPairs =
     cred_loop (\<lambda>i c. telnet_verdict (telnet i c)) (\<lambda>c. ''[CRED-TEST] TELNET '' @ addr @ '' user='' @ cr_Username c) 0
       (take (pair_limit maxPairs creds) creds) (no_result ''telnet'')"

section \<open>Lemmas\<close>

lemma pair_limit_bound: "pair_limit m cs \<le> 50" "int (pair_limit m cs) \<le> max 0 m" "pair_limit m cs \<le> length cs"
  by (auto simp: pair_limit_def Let_def)

text \<open>
  The run of the loop, seen from outside: it tries a prefix of the list, refused on all but the
  last entry of it, logs the tried entries, and what it reports is the verdict on the last one.
\<close>

definition first_stop :: "(nat \<Rightarrow> credential \<Rightarrow> verdict) \<Rightarrow> nat \<Rightarrow> credential list \<Rightarrow> nat option" where
  "first_stop attempt i cs = find (\<lambda>k. attempt (i + k) (cs ! k) \<noteq> Refused) [0..<length cs]"

lemma first_stop_Cons:
  "first_stop attempt i (c # cs) =
     (if attempt i c \<noteq> Refused then Some 0 else map_option Suc (first_stop attempt (Suc i) cs))"
proof -
  have "find P (map Suc xs) = map_option Suc (find (P \<circ> Suc) xs)" for P xs by (induction xs) auto
  from this [of "\<lambda>k. attempt (i + k) ((c # cs) ! k) \<noteq> Refused" "[0..<length cs]"]
  show ?thesis by (simp add: first_stop_def upt_conv_Cons map_Suc_upt [symmetric] comp_def del: upt_Suc)
qed

definition outcome_of :: "(nat \<Rightarrow> credential \<Rightarrow> verdict) \<Rightarrow> (credential \<Rightarrow> string) \<Rightarrow> nat \<Rightarrow> credential list \<Rightarrow> credential_result \<Rightarrow> credential_result" where
  "outcome_of attempt entry i cs r =
     (let n = (case first_stop attempt i cs of None \<Rightarrow> length cs | Some k \<Rightarrow> Suc k);
          r1 = r\<lparr>re_Tested := re_Tested r + n, re_AuditLog := re_AuditLog r @ map entry (take n cs)\<rparr>
      in case first_stop attempt i cs of
           None \<Rightarrow> r1
         | Some k \<Rightarrow>
             (case attempt (i + k) (cs ! k) of
                Accepted \<Rightarrow> r1\<lparr>re_Found := True, re_Username := cr_Username (cs ! k), re_Password := cr_Password (cs ! k)\<rparr>
              | Locked \<Rightarrow> r1\<lparr>re_LockedOut := True\<rparr> | _ \<Rightarrow> r1))"

lemma cred_loop_outcome: "cred_loop attempt entry i cs r = outcome_of attempt entry i cs r"
proof (induction cs arbitrary: i r)
  case Nil
  then show ?case by (simp add: outcome_of_def first_stop_def)
next
  case (Cons c cs)
  show ?case
  proof (cases "attempt i c = Refused")
    case True
    then show ?thesis
      by (simp add: Cons.IH outcome_of_def first_stop_Cons Let_def split: option.split verdict.split)
  next
    case False
    then show ?thesis
      by (simp add: outcome_of_def first_stop_Cons Let_def split: verdict.split)
  qed
qed

text \<open>
  What a test promises: at most 50 attempts and at most as many as asked for, an audit log with
  exactly the attempts made, no attempt after one that was not refused, and a report that is the
  verdict on the last attempt.
\<close>

definition faithful_report ::
  "(nat \<Rightarrow> credential \<Rightarrow> verdict) \<Rightarrow> (credential \<Rightarrow> string) \<Rightarrow> credential list \<Rightarrow> int \<Rightarrow> credential_result \<Rightarrow> bool" where
  "faithful_report attempt entry creds m r \<longleftrightarrow>
     (let n = re_Tested r; last_try = attempt (n - 1) (creds ! (n - 1)) in
      n \<le> 50 \<and> int n \<le> max 0 m \<and> n \<le> length creds \<and> re_AuditLog r = map entry (take n creds) \<and>
      (\<forall>k < n - 1. attempt k (creds ! k) = Refused) \<and>
      (re_Found r \<longleftrightarrow> 0 < n \<and> last_try = Accepted) \<and> (re_LockedOut r \<longleftrightarrow> 0 < n \<and> last_try = Locked) \<and>
      (re_Found r \<longrightarrow> re_Username r = cr_Username (creds ! (n - 1)) \<and> re_Password r = cr_Password (creds ! (n - 1))))"

lemma first_stop_SomeD:
  assumes "first_stop attempt i cs = Some k"
  shows "k < length cs" "attempt (i + k) (cs ! k) \<noteq> Refused" "j < k \<Longrightarrow> attempt (i + j) (cs ! j) = Refused"
  using assms by (auto simp: first_stop_def find_Some_iff)

lemma first_stop_NoneD: "first_stop attempt i cs = None \<Longrightarrow> j < length cs \<Longrightarrow> attempt (i + j) (cs ! j) = Refused"
  by (auto simp: first_stop_def find_None_iff)

lemma cred_loop_faithful:
  "faithful_report attempt entry creds m
     (cred_loop attempt entry 0 (take (pair_limit m creds) creds) (no_result meth))"
proof (cases "first_stop attempt 0 (take (pair_limit m creds) creds)")
  case None
  then have ref: "attempt j (creds ! j) = Refused" if "j < pair_limit m creds" for j
    using first_stop_NoneD [OF None, of j] that pair_limit_bound(3) [of m creds] by simp
  have "pair_limit m creds = 0 \<or> attempt (pair_limit m creds - Suc 0) (creds ! (pair_limit m creds - Suc 0)) = Refused"
    using ref [of "pair_limit m creds - Suc 0"] by (cases "pair_limit m creds") simp_all
  then show ?thesis
    using None ref pair_limit_bound [of m creds]
    by (auto simp add: cred_loop_outcome outcome_of_def faithful_report_def no_result_def Let_def)
next
  case (Some k)
  have "k < pair_limit m creds" "attempt k (creds ! k) \<noteq> Refused" "j < k \<Longrightarrow> attempt j (creds ! j) = Refused" for j
    using first_stop_SomeD [OF Some] by auto
  moreover from this(1) have "1 + int k \<le> m" using pair_limit_bound(2) [of m creds] by simp
  ultimately show ?thesis
    using Some pair_limit_bound [of m creds]
    by (simp add: cred_loop_outcome outcome_of_def faithful_report_def no_result_def Let_def split: verdict.split)
qed

text \<open>Writing a credential as a line of the file.\<close>

definition print_line :: "credential \<Rightarrow> string" where
  "print_line c = cr_Username c @ '':'' @ (if cr_Password c = [] then ''(blank)'' else cr_Password c)"

definition printable :: "credential \<Rightarrow> bool" where
  "printable c \<longleftrightarrow> cr_Username c \<noteq> [] \<and> hd (cr_Username c) \<noteq> CHR ''#'' \<and> \<not> is_space (hd (cr_Username c)) \<and>
     CHR '':'' \<notin> set (cr_Username c) \<and> cr_Password c \<noteq> ''(blank)'' \<and>
     (cr_Password c \<noteq> [] \<longrightarrow> \<not> is_space (last (cr_Password c)))"

lemma trimSpace_id: "s \<noteq> [] \<Longrightarrow> \<not> is_space (hd s) \<Longrightarrow> \<not> is_space (last s) \<Longrightarrow> trimSpace s = s"
proof -
  assume a: "s \<noteq> []" "\<not> is_space (hd s)" "\<not> is_space (last s)"
  then have "dropWhile is_space s = s" by (cases s) simp_all
  moreover have "dropWhile is_space (rev s) = rev s" using a by (cases s rule: rev_cases) simp_all
  ultimately show ?thesis by (simp add: trimSpace_def)
qed

lemma parse_print: "printable c \<Longrightarrow> parse_line (print_line c) = Some c"
proof -
  assume p: "printable c"
  let ?pw = "if cr_Password c = [] then ''(blank)'' else cr_Password c"
  have pw: "?pw \<noteq> []" "\<not> is_space (last ?pw)"
    using p by (auto simp: printable_def is_space_def Let_def)
  have trim: "trimSpace (print_line c) = print_line c"
    unfolding print_line_def by (rule trimSpace_id) (use p pw in \<open>auto simp: printable_def hd_append\<close>)
  have "splitN 2 CHR '':'' (print_line c) = [cr_Username c, ?pw]"
    using p by (simp add: splitN_2_eq print_line_def printable_def)
  moreover have "\<not> hasPrefix (print_line c) ''#''" "print_line c \<noteq> []"
    using p by (auto simp: print_line_def printable_def hasPrefix_iff neq_Nil_conv)
  ultimately show ?thesis
    unfolding parse_line_def Let_def trim using p by (auto simp: printable_def)
qed

lemma load_loop_bound: "length creds < 100 \<Longrightarrow> length (load_loop ls creds) \<le> 100"
  by (induction ls creds rule: load_loop.induct) (auto simp: Let_def split: option.split)

lemma load_loop_print:
  "\<forall>c \<in> set cs. printable c \<Longrightarrow> length acc + length cs < 100 \<Longrightarrow> load_loop (map print_line cs) acc = acc @ cs"
  by (induction cs arbitrary: acc) (simp_all add: parse_print)

section \<open>Properties\<close>

text \<open>Each of the three credential tests makes at most 50 attempts and no more than it was asked
  for, stops at the first attempt that is accepted or answered with a lockout, reports exactly
  that, and logs every attempt it made by its user name and never with its password.\<close>

theorem credential_tests_faithful:
  "faithful_report (\<lambda>i c. ssh_verdict (ssh i c)) (\<lambda>c. ''[CRED-TEST] SSH '' @ addr @ '' user='' @ cr_Username c)
     creds m (TestSSHCreds ssh addr creds m) \<and>
   faithful_report (\<lambda>i c. http_verdict (http i c))
     (\<lambda>c. ''[CRED-TEST] HTTP-BASIC '' @ http_url ip p path @ '' user='' @ cr_Username c)
     creds m (TestHTTPBasicCreds http ip p path creds m) \<and>
   faithful_report (\<lambda>i c. telnet_verdict (telnet i c)) (\<lambda>c. ''[CRED-TEST] TELNET '' @ addr @ '' user='' @ cr_Username c)
     creds m (TestTelnetCreds telnet addr creds m)"
  unfolding TestSSHCreds_def TestHTTPBasicCreds_def TestTelnetCreds_def by (simp only: cred_loop_faithful)

text \<open>A credential file written from fewer than 100 printable credentials is read back unchanged,
  with an empty password written as \<open>(blank)\<close>.\<close>

theorem credential_file_roundtrip:
  assumes "\<forall>c \<in> set cs. printable c" "length cs < 100"
  shows "LoadCredentials path (Some (map print_line cs, None)) = (cs, None)"
  using load_loop_print [of cs "[]"] assms by (simp add: LoadCredentials_def)

theorem credential_file_roundtrip_witness:
  "LoadCredentials ''f'' (Some ([''root:(blank)'', ''admin:a:b''], None)) =
     ([\<lparr>cr_Username = ''root'', cr_Password = []\<rparr>, \<lparr>cr_Username = ''admin'', cr_Password = ''a:b''\<rparr>], None)"
  using credential_file_roundtrip
    [of "[\<lparr>cr_Username = ''root'', cr_Password = []\<rparr>, \<lparr>cr_Username = ''admin'', cr_Password = ''a:b''\<rparr>]" "''f''"]
  by (simp add: printable_def print_line_def is_space_def)

end
