(* ===== verification/Scan_Pipeline.thy ===== *)
theory Scan_Pipeline
  imports Safelist Nmap Probes Credentials
begin

text \<open>
  Scans: \<open>backend/api/scans.go\<close>. The handlers start a scan of a device or of the network in a
  goroutine; \<open>runDeviceScan\<close> and \<open>network_scan\<close> are the bodies of those goroutines.

  A scan is a sequence of steps on the tables. A step returns the webhook dispatches it causes and
  the new tables; \<open>andThen\<close> runs one step after another. Everything a scan meets outside the
  tables is a field of \<open>scan_env\<close>: the error of each of its statements and the identifier of each
  row it inserts (both by the statement's name), the clocks of its alerts, and what the network,
  nmap and the credential file answer. The comparison of addresses is that of \<open>Safelist\<close>; a value
  for a \<open>JSONB\<close> column is stored only when PostgreSQL can read it (\<open>xe_is_json\<close>).
\<close>

section \<open>Steps\<close>

type_synonym step = "fleet \<Rightarrow> dispatch list \<times> fleet"

definition andThen :: "step \<Rightarrow> step \<Rightarrow> step" where
  "andThen f g db = (let (ds, db1) = f db; (es, db2) = g db1 in (ds @ es, db2))"

definition nothing :: step where
  "nothing db = ([], db)"

text \<open>A statement whose error is only logged.\<close>

definition exec :: "string option \<Rightarrow> (fleet \<Rightarrow> fleet) \<Rightarrow> step" where
  "exec err upd db = ([], if err = None then upd db else db)"

definition raise :: "alert_env \<Rightarrow> alert_request \<Rightarrow> step" where
  "raise ev req db = (case CreateAlert ev req db of (_, d, db1) \<Rightarrow> (opt_list d, db1))"

definition guarded :: "bool \<Rightarrow> step \<Rightarrow> step" where
  "guarded b f = (if b then f else nothing)"

primrec each :: "(nat \<Rightarrow> 'a \<Rightarrow> step) \<Rightarrow> nat \<Rightarrow> 'a list \<Rightarrow> step" where
  "each f n [] = nothing"
| "each f n (x # xs) = andThen (f n x) (each f (Suc n) xs)"

datatype scan_stmt =
    StmtSafelist | StmtSkip | StmtStatus | StmtResults | StmtHostname | StmtVendor | StmtOS | StmtRaw
  | StmtVuln nat | StmtTLS | StmtCred nat | StmtTags nat | StmtRecover

datatype alert_site = AtFinding nat | AtWeakTLS | AtExpired | AtCreds nat | AtLockout nat

record scan_env =
  xe_err :: "scan_stmt \<Rightarrow> string option"
  xe_uuid :: "scan_stmt \<Rightarrow> string"
  xe_alert :: "alert_site \<Rightarrow> alert_env"
  xe_now :: time
  xe_risk_err :: "nat \<Rightarrow> string option"
  xe_inet :: "string \<Rightarrow> string \<Rightarrow> bool option"
  xe_is_json :: "string \<Rightarrow> bool"
  xe_marshal_services :: "(int \<rightharpoonup> service) \<Rightarrow> string"
  xe_marshal_pair :: "string \<Rightarrow> string \<Rightarrow> string"
  xe_parseIP :: "string \<Rightarrow> bool"
  xe_parse :: "string \<Rightarrow> nmap_run option"
  xe_nmap :: exec_outcome
  xe_net :: net
  xe_tls :: tls_peer
  xe_file :: "(string list \<times> string option) option"
  xe_ssh :: "nat \<Rightarrow> credential \<Rightarrow> string option"
  xe_http :: "nat \<Rightarrow> credential \<Rightarrow> http_try"
  xe_telnet :: "nat \<Rightarrow> credential \<Rightarrow> telnet_try"

section \<open>Rows\<close>

definition upd_scan :: "string \<Rightarrow> (scan \<Rightarrow> scan) \<Rightarrow> fleet \<Rightarrow> fleet" where
  "upd_scan i f db = db\<lparr>fl_scans := map (\<lambda>s. if s_ID s = i then f s else s) (fl_scans db)\<rparr>"

definition upd_device :: "string \<Rightarrow> (device \<Rightarrow> device) \<Rightarrow> fleet \<Rightarrow> fleet" where
  "upd_device i f db = db\<lparr>fl_devices := map (\<lambda>d. if d_ID d = i then f d else d) (fl_devices db)\<rparr>"

definition new_vuln ::
  "string \<Rightarrow> time \<Rightarrow> string \<Rightarrow> string \<Rightarrow> string \<Rightarrow> rat option \<Rightarrow> string \<Rightarrow> string \<Rightarrow> string \<Rightarrow> vuln_row" where
  "new_vuln uuid now dev scanID sev cvss title desc component =
     \<lparr>vu_ID = uuid, vu_DeviceID = Some dev, vu_ScanID = Some scanID, vu_CVEID = None, vu_CVSSScore = cvss, vu_Severity = sev,
      vu_Title = title, vu_Description = Some desc, vu_AffectedComponent = Some component, vu_Remediation = None, vu_IsKEV = False,
      vu_DiscoveredAt = now, vu_ResolvedAt = None, vu_IsResolved = False, vu_epss_score = None, vu_epss_percentile = None,
      vu_epss_updated_at = None\<rparr>"

text \<open>The foreign keys of the table refuse a row of an unknown device or scan.\<close>

definition insert_vuln :: "string \<Rightarrow> string \<Rightarrow> vuln_row \<Rightarrow> fleet \<Rightarrow> fleet" where
  "insert_vuln dev scanID v db =
     (if list_ex (\<lambda>d. d_ID d = dev) (fl_devices db) \<and> list_ex (\<lambda>s. s_ID s = scanID) (fl_scans db)
      then db\<lparr>fl_vulns := fl_vulns db @ [v]\<rparr> else db)"

section \<open>The scan of a device\<close>

definition updateScanStatus :: "scan_env \<Rightarrow> string \<Rightarrow> string \<Rightarrow> step" where
  "updateScanStatus x scanID status =
     exec (xe_err x StmtStatus) (upd_scan scanID (\<lambda>s. s\<lparr>s_Status := status, s_CompletedAt := Some (xe_now x)\<rparr>))"

definition open_port_numbers :: "host \<Rightarrow> int list" where
  "open_port_numbers h = map po_Number (filter (\<lambda>p. po_State p = ''open'') (ho_OpenPorts h))"

text \<open>\<open>json.Marshal\<close> of a slice of integers; a nil slice is \<open>null\<close>.\<close>

definition ports_json :: "int list \<Rightarrow> string" where
  "ports_json ps = (if ps = [] then ''null'' else ''['' @ join CHR '','' (map itoa ps) @ '']'')"

definition store_host :: "scan_env \<Rightarrow> string \<Rightarrow> string \<Rightarrow> host \<Rightarrow> step" where
  "store_host x dev scanID h =
     andThen (exec (xe_err x StmtResults)
               (upd_scan scanID (\<lambda>s. s\<lparr>s_OpenPorts := ports_json (open_port_numbers h),
                                       s_Services := xe_marshal_services x (ho_Services h)\<rparr>)))
     (andThen (guarded (ho_Hostname h \<noteq> []) (exec (xe_err x StmtHostname) (upd_device dev (\<lambda>d. d\<lparr>d_Hostname := Some (ho_Hostname h)\<rparr>))))
     (andThen (guarded (ho_Vendor h \<noteq> []) (exec (xe_err x StmtVendor) (upd_device dev (\<lambda>d. d\<lparr>d_Vendor := Some (ho_Vendor h)\<rparr>))))
     (andThen (guarded (ho_OSMatch h \<noteq> []) (exec (xe_err x StmtOS) (upd_device dev (\<lambda>d. d\<lparr>d_OSFingerprint := Some (ho_OSMatch h)\<rparr>))))
              (guarded (0 < length (ho_RawXML h) \<and> xe_is_json x (ho_RawXML h))
                (exec (xe_err x StmtRaw) (upd_device dev (\<lambda>d. d\<lparr>d_RawNmap := ho_RawXML h\<rparr>)))))))"

definition protocolToAlertType :: "string \<Rightarrow> string" where
  "protocolToAlertType p =
     (if p = ''Telnet'' then ''telnet_open'' else if p = ''ADB'' then ''adb_exposed''
      else if p = ''MQTT-plaintext'' then ''plaintext_mqtt'' else if p = ''RTSP-unauth'' then ''unauth_rtsp'' else p)"

definition finding_alert :: "string \<Rightarrow> string \<Rightarrow> protocol_finding \<Rightarrow> alert_request" where
  "finding_alert dev ip f =
     \<lparr>ar_DeviceID = dev, ar_AlertType = protocolToAlertType (pf_Protocol f), ar_Severity = pf_Risk f,
      ar_Title = pf_Protocol f @ '' detected on '' @ ip @ '':'' @ itoa (pf_Port f), ar_Description = pf_Description f,
      ar_Metadata = None\<rparr>"

definition finding_title :: "protocol_finding \<Rightarrow> string" where
  "finding_title f = pf_Protocol f @ '' exposure detected''"

definition record_finding :: "scan_env \<Rightarrow> string \<Rightarrow> string \<Rightarrow> string \<Rightarrow> nat \<Rightarrow> protocol_finding \<Rightarrow> step" where
  "record_finding x dev scanID ip i f =
     andThen (exec (xe_err x (StmtVuln i)) (insert_vuln dev scanID
               (new_vuln (xe_uuid x (StmtVuln i)) (xe_now x) dev scanID (pf_Risk f) None (finding_title f) (pf_Description f)
                 (''port/'' @ itoa (pf_Port f)))))
             (raise (xe_alert x (AtFinding i)) (finding_alert dev ip f))"

definition tls_step :: "scan_env \<Rightarrow> string \<Rightarrow> string \<Rightarrow> string \<Rightarrow> step" where
  "tls_step x dev scanID ip =
     (let r = CheckTLS (xe_tls x) (xe_now x) in
      andThen (guarded (tls_weak r)
                (andThen (exec (xe_err x StmtTLS) (insert_vuln dev scanID
                           (new_vuln (xe_uuid x StmtTLS) (xe_now x) dev scanID ''high'' None ''Weak TLS configuration''
                             ''Device supports deprecated TLS versions or weak ciphers'' ''tls'')))
                         (raise (xe_alert x AtWeakTLS)
                           \<lparr>ar_DeviceID = dev, ar_AlertType = ''tls_weak'', ar_Severity = ''high'',
                            ar_Title = ''Weak TLS on '' @ ip @ '':443'', ar_Description = [], ar_Metadata = None\<rparr>)))
              (guarded (CertExpired r)
                (raise (xe_alert x AtExpired)
                  \<lparr>ar_DeviceID = dev, ar_AlertType = ''cert_expiring'', ar_Severity = ''medium'',
                   ar_Title = ''Expired TLS certificate on '' @ ip @ '':443'', ar_Description = [], ar_Metadata = None\<rparr>)))"

text \<open>\<open>net.JoinHostPort\<close>: an address with a colon is put in brackets.\<close>

definition joinHostPort :: "string \<Rightarrow> int \<Rightarrow> string" where
  "joinHostPort h p = (if CHR '':'' \<in> set h then ''['' @ h @ '']:'' else h @ '':'') @ itoa p"

definition append_tag :: "device \<Rightarrow> device" where
  "append_tag d = (let ts = (case d_Tags d of None \<Rightarrow> [] | Some t \<Rightarrow> t) in
     if ''default-creds'' \<in> set ts then d else d\<lparr>d_Tags := Some (ts @ [''default-creds''])\<rparr>)"

definition found_step :: "scan_env \<Rightarrow> string \<Rightarrow> string \<Rightarrow> string \<Rightarrow> nat \<Rightarrow> credential_result \<Rightarrow> step" where
  "found_step x dev scanID ip i r =
     andThen (exec (xe_err x (StmtCred i)) (insert_vuln dev scanID
               (new_vuln (xe_uuid x (StmtCred i)) (xe_now x) dev scanID ''critical'' (Some (19 / 2)) ''Default credentials active''
                 (''Device accepted login with username: '' @ re_Username r @ '' via '' @ re_Method r) ''authentication'')))
     (andThen (raise (xe_alert x (AtCreds i))
                \<lparr>ar_DeviceID = dev, ar_AlertType = ''default_creds'', ar_Severity = ''critical'',
                 ar_Title = ''Default credentials found on '' @ ip, ar_Description = [],
                 ar_Metadata = Some (xe_marshal_pair x (re_Username r) (re_Method r))\<rparr>)
              (exec (xe_err x (StmtTags i)) (upd_device dev append_tag)))"

text \<open>The loop over the results ends at the first lockout.\<close>

fun report_creds :: "scan_env \<Rightarrow> string \<Rightarrow> string \<Rightarrow> string \<Rightarrow> nat \<Rightarrow> credential_result list \<Rightarrow> step" where
  "report_creds x dev scanID ip i [] = nothing"
| "report_creds x dev scanID ip i (r # rs) =
     andThen (guarded (re_Found r) (found_step x dev scanID ip i r))
       (if re_LockedOut r
        then raise (xe_alert x (AtLockout i))
               \<lparr>ar_DeviceID = dev, ar_AlertType = ''lockout_detected'', ar_Severity = ''medium'',
                ar_Title = ''Account lockout triggered during scan of '' @ ip, ar_Description = [], ar_Metadata = None\<rparr>
        else report_creds x dev scanID ip (Suc i) rs)"

definition credential_results :: "scan_env \<Rightarrow> string \<Rightarrow> int list \<Rightarrow> credential list \<Rightarrow> credential_result list" where
  "credential_results x ip ports creds =
     (if 22 \<in> set ports then [(TestSSHCreds (xe_ssh x) (joinHostPort ip 22) creds 50)\<lparr>re_Method := ''ssh''\<rparr>] else []) @
     (if 80 \<in> set ports then [(TestHTTPBasicCreds (xe_http x) ip 80 ''/'' creds 50)\<lparr>re_Method := ''http-basic''\<rparr>] else []) @
     (if 23 \<in> set ports then [(TestTelnetCreds (xe_telnet x) (joinHostPort ip 23) creds 20)\<lparr>re_Method := ''telnet''\<rparr>] else [])"

definition runCredentialTests :: "scan_env \<Rightarrow> string \<Rightarrow> string \<Rightarrow> string \<Rightarrow> int list \<Rightarrow> credential list \<Rightarrow> step" where
  "runCredentialTests x dev scanID ip ports creds = report_creds x dev scanID ip 0 (credential_results x ip ports creds)"

definition rescore :: "scan_env \<Rightarrow> string \<Rightarrow> step" where
  "rescore x dev db = ([], snd (UpdateDeviceRiskScore (xe_risk_err x) (xe_now x) dev db))"

definition runDeviceScan :: "scan_env \<Rightarrow> scan_admin \<Rightarrow> string \<Rightarrow> string \<Rightarrow> string \<Rightarrow> step" where
  "runDeviceScan x adm dev scanID ip =
     (if IsSafelisted (xe_inet x) (xe_err x StmtSafelist) adm ip
      then exec (xe_err x StmtSkip) (upd_scan scanID (\<lambda>s. s\<lparr>s_Status := ''skipped'', s_ScanOutput := Some ''Device is safelisted'',
                                                         s_CompletedAt := Some (xe_now x)\<rparr>))
      else case DeepScan (xe_parseIP x) (xe_parse x) (xe_nmap x) ip of
        Inl e \<Rightarrow> updateScanStatus x scanID ''failed''
      | Inr h \<Rightarrow>
          (let ports = open_port_numbers h;
               creds = LoadCredentials ''data/default-credentials.txt'' (xe_file x)
           in andThen (store_host x dev scanID h)
              (andThen (each (record_finding x dev scanID ip) 0 (DetectProtocols (xe_net x) ip ports))
              (andThen (guarded (443 \<in> set ports) (tls_step x dev scanID ip))
              (andThen (guarded (snd creds = None) (runCredentialTests x dev scanID ip ports (fst creds)))
              (andThen (updateScanStatus x scanID ''complete'')
                       (rescore x dev)))))))"

text \<open>The deferred function of a scan that panics: none of the modelled code does, but a library it
  calls may. \<open>scan_steps\<close> are the steps of a scan with a report, and \<open>panicking_scan k\<close> is one that
  panics after the first \<open>k\<close> of them and is recovered.\<close>

definition recoverScan :: "scan_env \<Rightarrow> string \<Rightarrow> step" where
  "recoverScan x scanID =
     exec (xe_err x StmtRecover) (upd_scan scanID (\<lambda>s. s\<lparr>s_Status := ''failed'', s_CompletedAt := Some (xe_now x)\<rparr>))"

definition scan_steps :: "scan_env \<Rightarrow> string \<Rightarrow> string \<Rightarrow> string \<Rightarrow> host \<Rightarrow> step list" where
  "scan_steps x dev scanID ip h =
     (let ports = open_port_numbers h;
          creds = LoadCredentials ''data/default-credentials.txt'' (xe_file x)
      in [store_host x dev scanID h,
          each (record_finding x dev scanID ip) 0 (DetectProtocols (xe_net x) ip ports),
          guarded (443 \<in> set ports) (tls_step x dev scanID ip),
          guarded (snd creds = None) (runCredentialTests x dev scanID ip ports (fst creds)),
          updateScanStatus x scanID ''complete'',
          rescore x dev])"

definition panicking_scan :: "scan_env \<Rightarrow> string \<Rightarrow> string \<Rightarrow> string \<Rightarrow> host \<Rightarrow> nat \<Rightarrow> step" where
  "panicking_scan x dev scanID ip h k = foldr andThen (take k (scan_steps x dev scanID ip h)) (recoverScan x scanID)"

section \<open>Handlers\<close>

text \<open>\<open>LIMIT 100\<close> on the newest scans.\<close>

definition ListScansHandler :: "(nat \<Rightarrow> string option) \<Rightarrow> fleet handler" where
  "ListScansHandler err c db =
     (case err 0 of Some e \<Rightarrow> (failInternal 500 ''Failed to query scans: '' e c, db)
      | None \<Rightarrow>
        (case err 1 of Some e \<Rightarrow> (failInternal 500 ''Failed to iterate scans: '' e c, db)
         | None \<Rightarrow> (success (JArr (map scan_ToJSON (take 100 (sort_key (\<lambda>s. - s_StartedAt s) (fl_scans db))))) c, db)))"

definition GetScanHandler :: "uuid_lib \<Rightarrow> (nat \<Rightarrow> string option) \<Rightarrow> fleet handler" where
  "GetScanHandler U err c db =
     (case uuidParam U ''id'' c of Inl c' \<Rightarrow> (c', db)
      | Inr raw \<Rightarrow>
        (case uuid_arg U (err 0) raw of Inl e \<Rightarrow> (failInternal 500 ''Failed to query scan: '' e c, db)
         | Inr i \<Rightarrow>
           (case find (\<lambda>s. s_ID s = i) (fl_scans db) of
              None \<Rightarrow> (fail 404 ''Scan not found'' c, db)
            | Some s \<Rightarrow>
              (let dev = (case s_DeviceID s of None \<Rightarrow> None
                          | Some di \<Rightarrow> if err 1 = None then find (\<lambda>d. d_ID d = di) (fl_devices db) else None)
               in (success (JObj ((''scan'', scan_ToJSON s) #
                     (case dev of None \<Rightarrow> [] | Some d \<Rightarrow> [(''device'', device_ToJSON d)]))) c, db)))))"

record trigger_request =
  tr_ProfileID :: string
  tr_ScanType :: string

text \<open>The body of the request is absent, unreadable, or decoded.\<close>

datatype scan_body = NoBody | BadBody | Body trigger_request

definition valid_trigger :: "uuid_lib \<Rightarrow> trigger_request \<Rightarrow> bool" where
  "valid_trigger U r \<longleftrightarrow> (tr_ProfileID r = [] \<or> uu_Tag U (tr_ProfileID r)) \<and> tr_ScanType r \<in> {[], ''full'', ''quick''}"

text \<open>A scan that was started: the device, the scan and the address \<open>runDeviceScan\<close> is given.\<close>

record scan_job =
  sj_device :: string
  sj_scan :: string
  sj_ip :: string

definition running_scan :: "string \<Rightarrow> time \<Rightarrow> string \<Rightarrow> string \<Rightarrow> scan" where
  "running_scan uuid now dev ty = \<lparr>s_ID = uuid, s_DeviceID = Some dev, s_StartedAt = now, s_CompletedAt = None,
     s_Status = ''running'', s_ScanType = ty, s_OpenPorts = [], s_Services = [], s_ScanOutput = None\<rparr>"

definition TriggerDeviceScanHandler ::
  "uuid_lib \<Rightarrow> (nat \<Rightarrow> string option) \<Rightarrow> string \<Rightarrow> time \<Rightarrow> scan_body \<Rightarrow> (fleet \<times> scan_job list) handler" where
  "TriggerDeviceScanHandler U err uuid now body c w =
     (case uuidParam U ''id'' c of Inl c' \<Rightarrow> (c', w)
      | Inr raw \<Rightarrow>
        (case uuid_arg U (err 0) raw of Inl e \<Rightarrow> (failInternal 500 ''Failed to query device: '' e c, w)
         | Inr dev \<Rightarrow>
           (case find (\<lambda>d. d_ID d = dev) (fl_devices (fst w)) of
              None \<Rightarrow> (fail 404 ''Device not found'' c, w)
            | Some d \<Rightarrow>
              (case (case body of NoBody \<Rightarrow> Some \<lparr>tr_ProfileID = [], tr_ScanType = []\<rparr>
                     | BadBody \<Rightarrow> None | Body r \<Rightarrow> if valid_trigger U r then Some r else None) of
                 None \<Rightarrow> (failInternal 400 ''Invalid request body'' [] c, w)
               | Some r \<Rightarrow>
                 (let scanType = (if tr_ScanType r = [] then ''full'' else tr_ScanType r) in
                  case err 1 of Some e \<Rightarrow> (failInternal 500 ''Failed to create scan: '' e c, w)
                  | None \<Rightarrow>
                    (success (JObj [(''scan_id'', JStr uuid), (''status'', JStr ''running'')]) c,
                     ((fst w)\<lparr>fl_scans := fl_scans (fst w) @ [running_scan uuid now dev scanType]\<rparr>,
                      snd w @ [\<lparr>sj_device = dev, sj_scan = uuid, sj_ip = d_IPAddress d\<rparr>])))))))"

section \<open>The scan of the network\<close>

text \<open>
  A new host is inserted with \<open>ON CONFLICT (ip_address)\<close>. PostgreSQL refuses that statement when
  no unique constraint stands on exactly that column; \<open>ip_unique\<close> says whether one does.
  Migration 001 created it and migration 015 dropped it.
\<close>

record host_env =
  he_safelist_err :: "string option"
  he_select_err :: "string option"
  he_insert_err :: "string option"
  he_update_err :: "string option"
  he_uuid :: string
  he_now :: time
  he_alert :: alert_env

definition new_device :: "string \<Rightarrow> string \<Rightarrow> time \<Rightarrow> device" where
  "new_device uuid ip now = \<lparr>d_ID = uuid, d_IPAddress = ip, d_MACAddress = None, d_Hostname = None, d_Vendor = None,
     d_DeviceType = ''unknown'', d_OSFingerprint = None, d_FirmwareVersion = None, d_FirstSeen = now, d_LastSeen = now,
     d_RiskScore = 0, d_IsActive = True, d_Tags = None, d_RawNmap = []\<rparr>"

definition new_device_alert :: "string \<Rightarrow> string \<Rightarrow> alert_request" where
  "new_device_alert dev ip = \<lparr>ar_DeviceID = dev, ar_AlertType = ''new_device'', ar_Severity = ''high'',
     ar_Title = ''New device discovered: '' @ ip, ar_Description = [], ar_Metadata = None\<rparr>"

definition visit_host ::
  "(string \<Rightarrow> string \<Rightarrow> bool option) \<Rightarrow> bool \<Rightarrow> scan_admin \<Rightarrow> host_env \<Rightarrow> string \<Rightarrow> step" where
  "visit_host inet_in ip_unique adm e ip db =
     (if IsSafelisted inet_in (he_safelist_err e) adm ip then ([], db)
      else if he_select_err e \<noteq> None then ([], db)
      else case find (\<lambda>d. d_IPAddress d = ip) (fl_devices db) of
             Some d \<Rightarrow> exec (he_update_err e) (upd_device (d_ID d) (\<lambda>d. d\<lparr>d_LastSeen := he_now e\<rparr>)) db
           | None \<Rightarrow>
               if \<not> ip_unique \<or> he_insert_err e \<noteq> None then ([], db)
               else andThen (exec None (\<lambda>db. db\<lparr>fl_devices := fl_devices db @ [new_device (he_uuid e) ip (he_now e)]\<rparr>))
                            (guarded (he_uuid e \<noteq> []) (raise (he_alert e) (new_device_alert (he_uuid e) ip))) db)"

definition network_scan ::
  "(string \<Rightarrow> string \<Rightarrow> bool option) \<Rightarrow> bool \<Rightarrow> (string \<Rightarrow> nmap_run option) \<Rightarrow> exec_outcome \<Rightarrow> string \<Rightarrow> scan_admin \<Rightarrow>
   (nat \<Rightarrow> host_env) \<Rightarrow> step" where
  "network_scan inet_in ip_unique parse out cidr adm env db =
     (case DiscoverHosts parse out cidr of
        Inl e \<Rightarrow> ([], db)
      | Inr hosts \<Rightarrow> each (\<lambda>n ip. visit_host inet_in ip_unique adm (env n) ip) 0 hosts db)"

definition NetworkScanHandler :: "'w handler" where
  "NetworkScanHandler c w = (success (JObj [(''message'', JStr ''network scan started'')]) c, w)"

section \<open>What a scan can change\<close>

text \<open>
  Steps that move the tables only along a preorder: the combinators keep that, so a property of a
  whole scan follows from its statements.
\<close>

locale step_order =
  fixes le :: "fleet \<Rightarrow> fleet \<Rightarrow> bool"
  assumes le_same: "le db db"
    and le_then: "le a b \<Longrightarrow> le b c \<Longrightarrow> le a c"
begin

definition moves :: "step \<Rightarrow> bool" where
  "moves f \<longleftrightarrow> (\<forall>db. le db (snd (f db)))"

lemma movesI: "(\<And>db. le db (snd (f db))) \<Longrightarrow> moves f"
  by (simp add: moves_def)

lemma movesD: "moves f \<Longrightarrow> le db (snd (f db))"
  by (simp add: moves_def)

lemma moves_nothing: "moves nothing"
  by (simp add: moves_def nothing_def le_same)

lemma moves_andThen: "moves f \<Longrightarrow> moves g \<Longrightarrow> moves (andThen f g)"
  by (auto simp: moves_def andThen_def split: prod.split) (metis le_then snd_conv)

lemma moves_guarded: "(b \<Longrightarrow> moves f) \<Longrightarrow> moves (guarded b f)"
  by (simp add: guarded_def moves_nothing)

lemma moves_each: "(\<And>n x. x \<in> set xs \<Longrightarrow> moves (f n x)) \<Longrightarrow> moves (each f n xs)"
  by (induction xs arbitrary: n) (auto simp: moves_nothing intro: moves_andThen)

lemma moves_exec: "(\<And>db. le db (upd db)) \<Longrightarrow> moves (exec e upd)"
  by (simp add: moves_def exec_def le_same)

lemmas moves_intros = moves_nothing moves_andThen moves_guarded moves_each moves_exec

end

text \<open>
  What the scan of a device may do: change the row of its device and the row of its scan, and add
  vulnerabilities of that device and scan and alerts of that device.
\<close>

definition confined :: "string \<Rightarrow> string \<Rightarrow> fleet \<Rightarrow> fleet \<Rightarrow> bool" where
  "confined dev scanID db db' \<longleftrightarrow>
     map s_ID (fl_scans db') = map s_ID (fl_scans db) \<and> map d_ID (fl_devices db') = map d_ID (fl_devices db) \<and>
     filter (\<lambda>s. s_ID s \<noteq> scanID) (fl_scans db') = filter (\<lambda>s. s_ID s \<noteq> scanID) (fl_scans db) \<and>
     filter (\<lambda>d. d_ID d \<noteq> dev) (fl_devices db') = filter (\<lambda>d. d_ID d \<noteq> dev) (fl_devices db) \<and>
     (\<exists>vs. fl_vulns db' = fl_vulns db @ vs \<and> list_all (\<lambda>v. vu_DeviceID v = Some dev \<and> vu_ScanID v = Some scanID) vs) \<and>
     (\<exists>as. fl_alerts db' = fl_alerts db @ as \<and> list_all (\<lambda>a. al_DeviceID a = Some dev) as) \<and>
     fl_firmware db' = fl_firmware db"

interpretation conf: step_order "confined dev scanID" for dev scanID
  by unfold_locales (force simp: confined_def)+

lemma filter_upd: "(\<And>x. P (f x) = P x) \<Longrightarrow> filter P (map (\<lambda>x. if \<not> P x then f x else x) xs) = filter P xs"
  by (induction xs) auto

lemma confined_upd_scan: "(\<And>s. s_ID (f s) = s_ID s) \<Longrightarrow> confined dev scanID db (upd_scan scanID f db)"
  using filter_upd [of "\<lambda>s. s_ID s \<noteq> scanID" f "fl_scans db"]
  by (simp add: confined_def upd_scan_def o_def if_distrib cong: if_cong)

lemma confined_upd_device: "(\<And>d. d_ID (f d) = d_ID d) \<Longrightarrow> confined dev scanID db (upd_device dev f db)"
  using filter_upd [of "\<lambda>d. d_ID d \<noteq> dev" f "fl_devices db"]
  by (simp add: confined_def upd_device_def o_def if_distrib cong: if_cong)

lemma confined_insert_vuln:
  "vu_DeviceID v = Some dev \<Longrightarrow> vu_ScanID v = Some scanID \<Longrightarrow> confined dev scanID db (insert_vuln dev scanID v db)"
  by (simp add: confined_def insert_vuln_def)

lemma new_vuln_simps [simp]:
  "vu_DeviceID (new_vuln u n dev sc sev cv t de co) = Some dev" "vu_ScanID (new_vuln u n dev sc sev cv t de co) = Some sc"
  "vu_Title (new_vuln u n dev sc sev cv t de co) = t" "\<not> vu_IsResolved (new_vuln u n dev sc sev cv t de co)"
  "vu_Severity (new_vuln u n dev sc sev cv t de co) = sev"
  by (simp_all add: new_vuln_def)

lemma raise_snd: "snd (raise ev req db) = snd (snd (CreateAlert ev req db))"
  by (simp add: raise_def split: prod.split)

lemma moves_raise: "ar_DeviceID req = dev \<Longrightarrow> conf.moves dev scanID (raise ev req)"
  by (rule conf.movesI) (auto simp: raise_snd CreateAlert_def insert_alert_def Let_def confined_def new_alert_def split: option.split)

lemma append_tag_ID [simp]: "d_ID (append_tag d) = d_ID d"
  by (simp add: append_tag_def Let_def)

lemmas confined_intros = conf.moves_intros confined_upd_scan confined_upd_device confined_insert_vuln moves_raise

lemma moves_record_finding: "conf.moves dev scanID (record_finding x dev scanID ip i f)"
  unfolding record_finding_def by (intro confined_intros) (simp_all add: finding_alert_def)

lemma moves_tls_step: "conf.moves dev scanID (tls_step x dev scanID ip)"
  unfolding tls_step_def Let_def by (intro confined_intros) simp_all

lemma moves_store_host: "conf.moves dev scanID (store_host x dev scanID h)"
  unfolding store_host_def by (intro confined_intros) simp_all

lemma moves_report_creds: "conf.moves dev scanID (report_creds x dev scanID ip i rs)"
proof (induction x dev scanID ip i rs rule: report_creds.induct)
  case (2 x dev scanID ip i r rs)
  then show ?case
    by (auto simp: found_step_def intro!: confined_intros split: if_split)
qed (simp add: conf.moves_nothing)

lemma moves_rescore: "conf.moves dev scanID (rescore x dev)"
proof (rule conf.movesI)
  fix db
  have "confined dev scanID db (upd_device dev (\<lambda>d. d\<lparr>d_RiskScore := r\<rparr>) db)" for r
    by (rule confined_upd_device) simp
  then show "confined dev scanID db (snd (rescore x dev db))"
    by (auto simp: rescore_def UpdateDeviceRiskScore_def upd_device_def conf.le_same split: sum.split option.split)
qed

lemma moves_status: "conf.moves dev scanID (updateScanStatus x scanID st)"
  unfolding updateScanStatus_def by (intro confined_intros) simp

lemma moves_runDeviceScan: "conf.moves dev scanID (runDeviceScan x adm dev scanID ip)"
proof -
  have "conf.moves dev scanID (exec e (upd_scan scanID (\<lambda>s. s\<lparr>s_Status := a, s_ScanOutput := b, s_CompletedAt := c\<rparr>)))" for e a b c
    by (intro confined_intros) simp
  then show ?thesis
    unfolding runDeviceScan_def Let_def runCredentialTests_def
    by (auto split: sum.split intro!: conf.moves_andThen conf.moves_guarded conf.moves_each moves_store_host moves_record_finding
        moves_tls_step moves_report_creds moves_status moves_rescore)
qed

text \<open>The steps make up the scan, and a scan that panics between them is as confined.\<close>

lemma andThen_nothing [simp]: "andThen f nothing = f"
  by (rule ext) (simp add: andThen_def nothing_def split: prod.split)

lemma runDeviceScan_steps:
  assumes "\<not> IsSafelisted (xe_inet x) (xe_err x StmtSafelist) adm ip" "DeepScan (xe_parseIP x) (xe_parse x) (xe_nmap x) ip = Inr h"
  shows "runDeviceScan x adm dev scanID ip = foldr andThen (scan_steps x dev scanID ip h) nothing"
  using assms by (simp add: runDeviceScan_def scan_steps_def Let_def)

lemma moves_foldr: "(\<And>f. f \<in> set fs \<Longrightarrow> conf.moves dev scanID f) \<Longrightarrow> conf.moves dev scanID g \<Longrightarrow> conf.moves dev scanID (foldr andThen fs g)"
  by (induction fs) (auto intro: conf.moves_andThen)

lemma moves_scan_steps: "f \<in> set (scan_steps x dev scanID ip h) \<Longrightarrow> conf.moves dev scanID f"
  unfolding scan_steps_def Let_def runCredentialTests_def
  by (auto intro!: conf.moves_guarded conf.moves_each moves_store_host moves_record_finding moves_tls_step moves_report_creds
      moves_status moves_rescore)

lemma moves_panicking_scan: "conf.moves dev scanID (panicking_scan x dev scanID ip h k)"
proof -
  have "conf.moves dev scanID (recoverScan x scanID)" unfolding recoverScan_def by (intro confined_intros) simp
  then show ?thesis unfolding panicking_scan_def by (rule moves_foldr [rotated]) (auto dest: in_set_takeD intro: moves_scan_steps)
qed

section \<open>How a scan ends\<close>

lemma andThen_snd [simp]: "snd (andThen f g db) = snd (g (snd (f db)))"
  by (simp add: andThen_def split: prod.split)

lemma nothing_snd [simp]: "snd (nothing db) = db"
  by (simp add: nothing_def)

lemma rescore_frame:
  "fl_scans (snd (rescore x dev db)) = fl_scans db" "fl_vulns (snd (rescore x dev db)) = fl_vulns db"
  "fl_firmware (snd (rescore x dev db)) = fl_firmware db"
  by (auto simp: rescore_def UpdateDeviceRiskScore_def split: sum.split option.split)

definition scan_outcome :: "scan_env \<Rightarrow> scan_admin \<Rightarrow> string \<Rightarrow> string" where
  "scan_outcome x adm ip =
     (if IsSafelisted (xe_inet x) (xe_err x StmtSafelist) adm ip then ''skipped''
      else if is_ok (DeepScan (xe_parseIP x) (xe_parse x) (xe_nmap x) ip) then ''complete'' else ''failed'')"

definition ended :: "string \<Rightarrow> string \<Rightarrow> fleet \<Rightarrow> bool" where
  "ended scanID status db \<longleftrightarrow> (\<forall>s \<in> set (fl_scans db). s_ID s = scanID \<longrightarrow> s_Status s = status \<and> s_CompletedAt s \<noteq> None)"

lemma map_if_all: "(\<And>x. Q (f x)) \<Longrightarrow> \<forall>y \<in> set (map (\<lambda>x. if P x then f x else x) xs). P y \<longrightarrow> Q y"
  by (induction xs) simp_all

lemma ended_upd:
  "(\<And>s. s_Status (f s) = st \<and> s_CompletedAt (f s) \<noteq> None) \<Longrightarrow> ended scanID st (upd_scan scanID f db)"
  by (auto simp: ended_def upd_scan_def)

lemma ended_status: "xe_err x StmtStatus = None \<Longrightarrow> ended scanID st (snd (updateScanStatus x scanID st db))"
  unfolding updateScanStatus_def exec_def by (simp add: ended_upd)

lemma runDeviceScan_ended:
  assumes "xe_err x StmtStatus = None" "xe_err x StmtSkip = None"
  shows "ended scanID (scan_outcome x adm ip) (snd (runDeviceScan x adm dev scanID ip db))"
proof (cases "IsSafelisted (xe_inet x) (xe_err x StmtSafelist) adm ip")
  case True
  then show ?thesis using assms by (simp add: runDeviceScan_def scan_outcome_def exec_def ended_upd)
next
  case False
  have "ended scanID st (snd (rescore x dev db))" if "ended scanID st db" for st db
    using that by (simp add: ended_def rescore_frame)
  with False show ?thesis
    using ended_status [OF assms(1)]
    by (cases "DeepScan (xe_parseIP x) (xe_parse x) (xe_nmap x) ip") (simp_all add: runDeviceScan_def scan_outcome_def Let_def)
qed

lemma panicking_scan_failed:
  assumes "xe_err x StmtRecover = None"
  shows "ended scanID ''failed'' (snd (panicking_scan x dev scanID ip h k db))"
proof -
  have "ended scanID ''failed'' (snd (foldr andThen fs (recoverScan x scanID) db))" for fs db
    using assms by (induction fs arbitrary: db) (simp_all add: recoverScan_def exec_def ended_upd)
  then show ?thesis by (simp add: panicking_scan_def)
qed

section \<open>From findings to the score\<close>

definition has_factor :: "string \<Rightarrow> risk_factors \<Rightarrow> bool" where
  "has_factor p f \<longleftrightarrow>
     (p = ''Telnet'' \<longrightarrow> HasTelnet f) \<and> (p = ''ADB'' \<longrightarrow> HasADB f) \<and> (p = ''MQTT-plaintext'' \<longrightarrow> HasPlaintextMQTT f) \<and>
     (p = ''Modbus'' \<longrightarrow> HasModbus f) \<and> (p = ''RTSP-unauth'' \<longrightarrow> HasUnauthRTSP f) \<and> (p = ''TLS-service'' \<longrightarrow> HasWeakTLS f)"

definition vuln_of :: "string \<Rightarrow> string \<Rightarrow> fleet \<Rightarrow> bool" where
  "vuln_of dev title db \<longleftrightarrow> (\<exists>v \<in> set (fl_vulns db). vu_DeviceID v = Some dev \<and> \<not> vu_IsResolved v \<and> vu_Title v = title)"

lemma vuln_of_mono: "confined dev scanID db db' \<Longrightarrow> vuln_of d t db \<Longrightarrow> vuln_of d t db'"
proof -
  assume c: "confined dev scanID db db'" and v: "vuln_of d t db"
  from c obtain vs where "fl_vulns db' = fl_vulns db @ vs" unfolding confined_def by blast
  with v show ?thesis unfolding vuln_of_def by simp blast
qed

lemma vuln_of_title: "vuln_of dev t db \<Longrightarrow> t \<in> set (map vu_Title (open_vulns dev (fl_vulns db)))"
  by (auto simp: vuln_of_def open_vulns_def image_iff)

lemma ids_confined:
  assumes "confined dev scanID db db'"
  shows "d_ID ` set (fl_devices db') = d_ID ` set (fl_devices db)" "s_ID ` set (fl_scans db') = s_ID ` set (fl_scans db)"
proof -
  have "map s_ID (fl_scans db') = map s_ID (fl_scans db)" "map d_ID (fl_devices db') = map d_ID (fl_devices db)"
    using assms unfolding confined_def by simp_all
  from this [THEN arg_cong [where f = set]] show
    "d_ID ` set (fl_devices db') = d_ID ` set (fl_devices db)" "s_ID ` set (fl_scans db') = s_ID ` set (fl_scans db)"
    by simp_all
qed

lemma record_finding_vuln:
  assumes "xe_err x (StmtVuln i) = None" "dev \<in> d_ID ` set (fl_devices db)" "scanID \<in> s_ID ` set (fl_scans db)"
  shows "vuln_of dev (finding_title f) (snd (record_finding x dev scanID ip i f db))"
proof -
  have "list_ex (\<lambda>d. d_ID d = dev) (fl_devices db)" "list_ex (\<lambda>s. s_ID s = scanID) (fl_scans db)"
    using assms by (auto simp: list_ex_iff)
  with assms(1) have "vuln_of dev (finding_title f) (snd (exec (xe_err x (StmtVuln i)) (insert_vuln dev scanID
      (new_vuln (xe_uuid x (StmtVuln i)) (xe_now x) dev scanID (pf_Risk f) None (finding_title f) (pf_Description f)
        (''port/'' @ itoa (pf_Port f)))) db))"
    by (auto simp: exec_def insert_vuln_def vuln_of_def)
  moreover have "conf.moves dev scanID (raise (xe_alert x (AtFinding i)) (finding_alert dev ip f))"
    by (rule moves_raise) (simp add: finding_alert_def)
  ultimately show ?thesis
    using vuln_of_mono [OF conf.movesD] by (simp add: record_finding_def)
qed

lemma each_findings_vulns:
  assumes "\<And>i. xe_err x (StmtVuln i) = None" "dev \<in> d_ID ` set (fl_devices db)" "scanID \<in> s_ID ` set (fl_scans db)"
    and "f \<in> set fs"
  shows "vuln_of dev (finding_title f) (snd (each (record_finding x dev scanID ip) n fs db))"
  using assms(2-)
proof (induction fs arbitrary: n db)
  case (Cons g gs)
  let ?db1 = "snd (record_finding x dev scanID ip n g db)"
  have c: "confined dev scanID db ?db1" by (rule conf.movesD [OF moves_record_finding])
  show ?case
  proof (cases "f \<in> set gs")
    case True
    with Cons.IH [of ?db1] ids_confined [OF c] Cons.prems show ?thesis by simp
  next
    case False
    then have "vuln_of dev (finding_title f) ?db1"
      using record_finding_vuln [OF assms(1)] Cons.prems by simp
    moreover have "confined dev scanID ?db1 (snd (each (record_finding x dev scanID ip) (Suc n) gs ?db1))"
      by (intro conf.movesD conf.moves_each moves_record_finding)
    ultimately show ?thesis using vuln_of_mono by simp
  qed
qed simp

lemma title_contains:
  "(pf_Protocol f, pf_Port f, pf_Risk f) \<in> set probe_table \<Longrightarrow> finding_title f \<in> set ts \<Longrightarrow>
   has_factor (pf_Protocol f) (fold title_factors ts no_factors)"
proof -
  assume t: "(pf_Protocol f, pf_Port f, pf_Risk f) \<in> set probe_table" "finding_title f \<in> set ts"
  have low: "toLower ''Telnet'' = ''telnet''" "toLower ''ADB'' = ''adb''" "toLower ''MQTT-plaintext'' = ''mqtt-plaintext''"
    "toLower ''Modbus'' = ''modbus''" "toLower ''RTSP-unauth'' = ''rtsp-unauth''" "toLower ''TLS-service'' = ''tls-service''"
    by (simp_all add: toLower_def char_lower_def Let_def char_of_def bit_0)
  have pre: "hasPrefix (a @ b) p \<Longrightarrow> contains (a @ b) p" for a b p :: string
    by (cases "a @ b") (auto simp: hasPrefix_def)
  have "has_factor (pf_Protocol f) (title_factors (finding_title f) no_factors)"
    using t(1)
    by (auto simp: probe_table_def has_factor_def title_factors_def Let_def finding_title_def low hasPrefix_def intro!: pre)
  then show ?thesis
    using t(2) by (auto simp: has_factor_def fold_title_factors title_factors_def Let_def no_factors_def)
qed

lemma rescored:
  assumes "BuildRiskFactors (\<lambda>_. None) (xe_now x) db dev = Inr F" "xe_risk_err x = (\<lambda>_. None)"
  shows "\<forall>d \<in> set (fl_devices (snd (rescore x dev db))). d_ID d = dev \<longrightarrow> d_RiskScore d = numeric_1 (CalculateRiskScore F)"
proof -
  have eq: "fl_devices (snd (rescore x dev db)) =
      map (\<lambda>d. if d_ID d = dev then d\<lparr>d_RiskScore := numeric_1 (CalculateRiskScore F)\<rparr> else d) (fl_devices db)"
    using assms by (simp add: rescore_def UpdateDeviceRiskScore_def)
  show ?thesis unfolding eq by (rule map_if_all) simp
qed

section \<open>The network scan\<close>

definition addresses :: "fleet \<Rightarrow> string set" where
  "addresses db = d_IPAddress ` set (fl_devices db)"

interpretation adding: step_order "\<lambda>db db'. addresses db \<subseteq> addresses db'"
  by unfold_locales auto

text \<open>No row appears: the identifiers and addresses of the devices and the alerts stay the same.\<close>

definition no_new_rows :: "fleet \<Rightarrow> fleet \<Rightarrow> bool" where
  "no_new_rows db db' \<longleftrightarrow>
     map (\<lambda>d. (d_ID d, d_IPAddress d)) (fl_devices db') = map (\<lambda>d. (d_ID d, d_IPAddress d)) (fl_devices db) \<and>
     fl_alerts db' = fl_alerts db"

interpretation still: step_order no_new_rows
  by unfold_locales (auto simp: no_new_rows_def)

lemma raise_devices [simp]: "fl_devices (snd (raise ev req db)) = fl_devices db"
  by (auto simp: raise_snd CreateAlert_def insert_alert_def Let_def split: option.split)

lemma guarded_raise_devices [simp]: "fl_devices (snd (guarded b (raise ev req) db)) = fl_devices db"
  by (simp add: guarded_def)

lemma upd_last_seen: "d_IPAddress ` set (fl_devices (upd_device i (\<lambda>d. d\<lparr>d_LastSeen := t\<rparr>) db)) = d_IPAddress ` set (fl_devices db)"
proof -
  have "map d_IPAddress (fl_devices (upd_device i (\<lambda>d. d\<lparr>d_LastSeen := t\<rparr>) db)) = map d_IPAddress (fl_devices db)"
    by (simp add: upd_device_def)
  from arg_cong [OF this, where f = set] show ?thesis by simp
qed

lemma moves_visit_adding: "adding.moves (visit_host inet_in u adm e ip)"
  by (rule adding.movesI)
     (auto simp: visit_host_def exec_def addresses_def upd_last_seen split: option.split)

lemma moves_visit_still: "still.moves (visit_host inet_in False adm e ip)"
  by (rule still.movesI)
     (auto simp: visit_host_def exec_def no_new_rows_def upd_device_def split: option.split)

definition host_env_ok :: "host_env \<Rightarrow> bool" where
  "host_env_ok e \<longleftrightarrow> he_select_err e = None \<and> he_insert_err e = None"

lemma visit_adds:
  assumes "host_env_ok e" "\<not> IsSafelisted inet_in (he_safelist_err e) adm ip"
  shows "ip \<in> addresses (snd (visit_host inet_in True adm e ip db))"
proof (cases "find (\<lambda>d. d_IPAddress d = ip) (fl_devices db)")
  case None
  then show ?thesis using assms by (simp add: visit_host_def host_env_ok_def addresses_def exec_def new_device_def)
next
  case (Some d)
  then have "ip \<in> d_IPAddress ` set (fl_devices db)" using find_SomeD [OF Some] by auto
  with Some assms show ?thesis by (simp add: visit_host_def host_env_ok_def addresses_def exec_def upd_last_seen)
qed

lemma each_visit_adds:
  assumes "\<And>n. host_env_ok (env n)" "\<And>n. \<not> IsSafelisted inet_in (he_safelist_err (env n)) adm ip" "ip \<in> set hosts"
  shows "ip \<in> addresses (snd (each (\<lambda>n ip. visit_host inet_in True adm (env n) ip) k hosts db))"
  using assms(3)
proof (induction hosts arbitrary: k db)
  case (Cons h hs)
  let ?db1 = "snd (visit_host inet_in True adm (env k) h db)"
  have "addresses ?db1 \<subseteq> addresses (snd (each (\<lambda>n ip. visit_host inet_in True adm (env n) ip) (Suc k) hs ?db1))"
    by (intro adding.movesD adding.moves_each moves_visit_adding)
  with Cons visit_adds [OF assms(1,2)] show ?case by (cases "ip = h") auto
qed simp

section \<open>Properties\<close>

text \<open>C8: A started scan comes to an end: when the statements that store its status succeed, its row
  is marked skipped for a safelisted address, failed when nmap gives no report, and complete
  otherwise, with the time of completion, whatever else fails on the way.\<close>

theorem device_scan_ends:
  assumes "xe_err x StmtStatus = None" "xe_err x StmtSkip = None"
  shows "ended scanID (scan_outcome x adm ip) (snd (runDeviceScan x adm dev scanID ip db)) \<and>
         scan_outcome x adm ip \<in> {''skipped'', ''failed'', ''complete''}"
  using runDeviceScan_ended [OF assms] by (simp add: scan_outcome_def)

text \<open>C31: The scan of a device changes only the rows of that device and that scan, and adds only
  vulnerabilities of both and alerts of the device, whatever the network answers and whichever
  statements fail.\<close>

theorem device_scan_confined: "confined dev scanID db (snd (runDeviceScan x adm dev scanID ip db))"
  by (rule conf.movesD [OF moves_runDeviceScan])

text \<open>C9: A safelisted device is left alone: what its scan does does not depend on anything the
  network, nmap or the credential file would answer; it raises no alert and finds nothing.\<close>

theorem safelisted_device_not_probed:
  assumes "IsSafelisted (xe_inet x) (xe_err x StmtSafelist) adm ip"
  shows "runDeviceScan (x\<lparr>xe_nmap := nm, xe_parse := pa, xe_net := ne, xe_tls := tp, xe_file := fi, xe_ssh := ss,
           xe_http := ht, xe_telnet := te\<rparr>) adm dev scanID ip db = runDeviceScan x adm dev scanID ip db \<and>
         (case runDeviceScan x adm dev scanID ip db of (ds, db') \<Rightarrow>
            ds = [] \<and> db' = db\<lparr>fl_scans := fl_scans db'\<rparr>)"
  using assms by (simp add: runDeviceScan_def exec_def upd_scan_def)

text \<open>C10: What a scan finds reaches the score: when the inserts and the queries of the scorer succeed,
  every protocol finding of a completed scan is an open vulnerability of the device, sets the risk
  factor of its protocol, and the stored score is the score of those factors.\<close>

theorem scan_findings_scored:
  assumes "\<not> IsSafelisted (xe_inet x) (xe_err x StmtSafelist) adm ip" "DeepScan (xe_parseIP x) (xe_parse x) (xe_nmap x) ip = Inr h"
    and "\<And>i. xe_err x (StmtVuln i) = None" "xe_risk_err x = (\<lambda>_. None)"
    and "dev \<in> d_ID ` set (fl_devices db)" "scanID \<in> s_ID ` set (fl_scans db)"
    and "f \<in> set (DetectProtocols (xe_net x) ip (open_port_numbers h))"
  shows "case snd (runDeviceScan x adm dev scanID ip db) of db' \<Rightarrow>
    vuln_of dev (finding_title f) db' \<and>
    (\<exists>F. BuildRiskFactors (\<lambda>_. None) (xe_now x) db' dev = Inr F \<and> has_factor (pf_Protocol f) F \<and>
         (\<forall>d \<in> set (fl_devices db'). d_ID d = dev \<longrightarrow> d_RiskScore d = numeric_1 (CalculateRiskScore F)))"
proof -
  let ?fs = "DetectProtocols (xe_net x) ip (open_port_numbers h)"
  let ?creds = "LoadCredentials ''data/default-credentials.txt'' (xe_file x)"
  let ?db1 = "snd (store_host x dev scanID h db)"
  let ?db2 = "snd (each (record_finding x dev scanID ip) 0 ?fs ?db1)"
  define rest where "rest = andThen (guarded (443 \<in> set (open_port_numbers h)) (tls_step x dev scanID ip))
    (andThen (guarded (snd ?creds = None) (runCredentialTests x dev scanID ip (open_port_numbers h) (fst ?creds)))
      (updateScanStatus x scanID ''complete''))"
  let ?db3 = "snd (rest ?db2)"
  let ?db' = "snd (rescore x dev ?db3)"
  have run: "snd (runDeviceScan x adm dev scanID ip db) = ?db'"
    using assms(1,2) by (simp add: runDeviceScan_def Let_def rest_def)
  have "vuln_of dev (finding_title f) ?db2"
    using each_findings_vulns [OF assms(3)] assms(5-7) ids_confined [OF conf.movesD [OF moves_store_host]] by simp
  moreover have "conf.moves dev scanID rest"
    unfolding rest_def runCredentialTests_def
    by (intro conf.moves_andThen conf.moves_guarded moves_tls_step moves_report_creds moves_status)
  ultimately have v3: "vuln_of dev (finding_title f) ?db3" using vuln_of_mono [OF conf.movesD] by blast
  obtain F where F: "BuildRiskFactors (\<lambda>_. None) (xe_now x) ?db3 dev = Inr F"
    and titles: "\<And>p. has_factor p F = has_factor p (fold title_factors (map vu_Title (open_vulns dev (fl_vulns ?db3))) no_factors)"
    by (simp add: BuildRiskFactors_def Let_def has_factor_def)
  have "finding_title f \<in> set (map vu_Title (open_vulns dev (fl_vulns ?db3)))"
    by (rule vuln_of_title [OF v3])
  from title_contains [OF _ this] finding_in_table [OF assms(7)] titles
  have "has_factor (pf_Protocol f) F" by blast
  moreover have "BuildRiskFactors (\<lambda>_. None) (xe_now x) ?db' dev = Inr F"
    using F by (simp add: BuildRiskFactors_def rescore_frame)
  moreover have "\<forall>d \<in> set (fl_devices ?db'). d_ID d = dev \<longrightarrow> d_RiskScore d = numeric_1 (CalculateRiskScore F)"
    by (rule rescored [OF F assms(4)])
  moreover have "vuln_of dev (finding_title f) ?db'" using v3 by (simp add: vuln_of_def rescore_frame)
  ultimately show ?thesis unfolding run by blast
qed

text \<open>With a unique constraint on the address, a network scan leaves a device row for every host
  it discovers that is not safelisted; without one, as the schema stands since migration 015,
  it never adds a device and never raises an alert.\<close>

theorem network_scan_devices:
  assumes "DiscoverHosts parse out cidr = Inr hosts" "\<And>n. host_env_ok (env n)"
    and "ip \<in> set hosts" "\<And>n. \<not> IsSafelisted inet_in (he_safelist_err (env n)) adm ip"
  shows "ip \<in> addresses (snd (network_scan inet_in True parse out cidr adm env db)) \<and>
         no_new_rows db (snd (network_scan inet_in False parse out cidr adm env db))"
proof
  show "ip \<in> addresses (snd (network_scan inet_in True parse out cidr adm env db))"
    unfolding network_scan_def assms(1) by (simp add: each_visit_adds assms(2,3,4))
  show "no_new_rows db (snd (network_scan inet_in False parse out cidr adm env db))"
    unfolding network_scan_def assms(1) by (simp add: still.movesD still.moves_each moves_visit_still)
qed

section \<open>A scan on paper\<close>

text \<open>A host with an open Telnet port that sends a login prompt.\<close>

definition telnet_report :: nmap_run where
  "telnet_report = [\<lparr>nh_Addresses = [], nh_Hostnames = [],
     nh_Ports = [\<lparr>np_PortID = 23, np_Protocol = ''tcp'', np_State = ''open'',
        np_Service = \<lparr>sv_Name = ''telnet'', sv_Version = [], sv_Banner = []\<rparr>\<rparr>],
     nh_OSMatches = [], nh_Status = ''up''\<rparr>]"

definition demo_scan_env :: scan_env where
  "demo_scan_env = \<lparr>xe_err = (\<lambda>_. None), xe_uuid = (\<lambda>_. ''v1''), xe_alert = (\<lambda>_. demo_alert_env 0), xe_now = 0,
     xe_risk_err = (\<lambda>_. None), xe_inet = demo_inet, xe_is_json = (\<lambda>_. False), xe_marshal_services = (\<lambda>_. ''{}''),
     xe_marshal_pair = (\<lambda>_ _. ''{}''), xe_parseIP = (\<lambda>_. False), xe_parse = (\<lambda>_. Some telnet_report), xe_nmap = ExecOk ''x'',
     xe_net = (\<lambda>_. Some \<lparr>cn_write_ok = (\<lambda>_. True), cn_reply = (\<lambda>_. ''login: ''), cn_read_err = (\<lambda>_. False)\<rparr>),
     xe_tls = (\<lambda>_. None), xe_file = None, xe_ssh = (\<lambda>_ _. Some []), xe_http = (\<lambda>_ _. RequestFailed),
     xe_telnet = (\<lambda>_ _. DialFailed)\<rparr>"

definition demo_scans :: fleet where
  "demo_scans = (ag_fleet demo_alerting)\<lparr>fl_scans := [running_scan ''sc1'' 0 ''d1'' ''full'']\<rparr>"

definition no_admin :: scan_admin where
  "no_admin = \<lparr>sa_safelists = [], sa_profiles = [], sa_scopes = []\<rparr>"

definition telnet_host :: host where
  "telnet_host = build_host ''192.0.2.7'' ''x'' telnet_report"

lemma demo_deep_scan:
  "DeepScan (xe_parseIP demo_scan_env) (xe_parse demo_scan_env) (xe_nmap demo_scan_env) ''192.0.2.7'' = Inr telnet_host"
  unfolding telnet_host_def
  by (simp add: DeepScan_def demo_scan_env_def sanitizeIP_def suspiciousPatterns_def hasPrefix_def split_def
      number_upto_def atoi_def is_digit_def digits_value_def Let_def char_of_def bit_0)

lemma demo_not_safelisted: "\<not> IsSafelisted inet_in err no_admin ip"
  by (simp add: IsSafelisted_def no_admin_def)

lemma demo_ports: "open_port_numbers telnet_host = [23]"
  by (simp add: open_port_numbers_def telnet_host_def build_host_def telnet_report_def apply_port_def best_os_def Let_def)

theorem device_scan_ends_witness:
  "ended ''sc1'' ''complete'' (snd (runDeviceScan demo_scan_env no_admin ''d1'' ''sc1'' ''192.0.2.7'' demo_scans))"
proof -
  have "scan_outcome demo_scan_env no_admin ''192.0.2.7'' = ''complete''"
    by (simp add: scan_outcome_def demo_not_safelisted demo_deep_scan)
  then show ?thesis
    using device_scan_ends [of demo_scan_env "''sc1''" no_admin "''192.0.2.7''" "''d1''" demo_scans] by (simp add: demo_scan_env_def)
qed

theorem safelisted_device_not_probed_witness:
  "fst (runDeviceScan demo_scan_env demo_admin ''d1'' ''sc1'' ''10.0.0.7'' demo_scans) = []"
proof -
  have "IsSafelisted (xe_inet demo_scan_env) (xe_err demo_scan_env StmtSafelist) demo_admin ''10.0.0.7''"
    by (simp add: demo_scan_env_def IsSafelisted_def demo_admin_def row_match_def demo_inet_def hasPrefix_def)
  from safelisted_device_not_probed [OF this, THEN conjunct2, of demo_scans "''d1''" "''sc1''"]
  show ?thesis by (simp split: prod.splits)
qed

theorem scan_findings_scored_witness:
  "vuln_of ''d1'' ''Telnet exposure detected'' (snd (runDeviceScan demo_scan_env no_admin ''d1'' ''sc1'' ''192.0.2.7'' demo_scans))"
proof -
  define f where "f = \<lparr>pf_Protocol = ''Telnet'', pf_Port = 23, pf_Risk = ''critical'',
    pf_Description = ''Telnet exposes credentials in plaintext'', pf_Evidence = ''Banner: login:''\<rparr>"
  have low: "toLower ''login: '' = ''login: ''" "trimSpace ''login: '' = ''login:''"
    by (simp_all add: toLower_def char_lower_def trimSpace_def is_space_def Let_def)
  have "f \<in> set (DetectProtocols (xe_net demo_scan_env) ''192.0.2.7'' (open_port_numbers telnet_host))"
    by (simp add: demo_ports demo_scan_env_def DetectProtocols_def detectTelnet_def conn_read_def low hasPrefix_def f_def)
  from scan_findings_scored [OF demo_not_safelisted demo_deep_scan _ _ _ _ this, of "''d1''" demo_scans "''sc1''"]
  have "vuln_of ''d1'' (finding_title f) (snd (runDeviceScan demo_scan_env no_admin ''d1'' ''sc1'' ''192.0.2.7'' demo_scans))"
    by (simp add: demo_scan_env_def demo_scans_def demo_alerting_def demo_device_def running_scan_def)
  then show ?thesis by (simp add: finding_title_def f_def)
qed

definition demo_host_env :: "nat \<Rightarrow> host_env" where
  "demo_host_env n = \<lparr>he_safelist_err = None, he_select_err = None, he_insert_err = None, he_update_err = None,
     he_uuid = itoa (int n), he_now = 0, he_alert = demo_alert_env 0\<rparr>"

definition one_host :: nmap_run where
  "one_host = [\<lparr>nh_Addresses = [\<lparr>na_Addr = ''10.0.0.9'', na_AddrType = ''ipv4'', na_Vendor = []\<rparr>], nh_Hostnames = [],
     nh_Ports = [], nh_OSMatches = [], nh_Status = ''up''\<rparr>]"

theorem network_scan_devices_witness:
  "''10.0.0.9'' \<in> addresses (snd (network_scan demo_inet True (\<lambda>_. Some one_host) (ExecOk ''x'') ''10.0.0.0/8'' no_admin demo_host_env demo_scans))
   \<and> no_new_rows demo_scans (snd (network_scan demo_inet False (\<lambda>_. Some one_host) (ExecOk ''x'') ''10.0.0.0/8'' no_admin demo_host_env demo_scans))"
proof (rule network_scan_devices)
  show "DiscoverHosts (\<lambda>_. Some one_host) (ExecOk ''x'') ''10.0.0.0/8'' = Inr [''10.0.0.9'']"
    by (simp add: DiscoverHosts_def sanitizeCIDR_def suspiciousPatterns_def hasPrefix_def split_def number_upto_def atoi_def
        is_digit_def digits_value_def Let_def char_of_def bit_0 up_hosts_def one_host_def)
qed (simp_all add: demo_host_env_def host_env_ok_def demo_not_safelisted)

end
