(* ===== verification/Breaker.thy ===== *)
theory Breaker
  imports Go_Prelude
begin

text \<open>
  The circuit breaker of \<open>backend/breaker/breaker.go\<close>, which guards the calls to the
  KEV feed and to the EPSS service.

  The breaker is a record with the fields of the struct; the callback
  \<open>onStateChange\<close> is a flag (is one installed) and the list of the calls made to it.
  \<open>Execute\<close> is split at its two early returns: \<open>exec_admit\<close> (the test of an open
  breaker), \<open>exec_gate\<close> (the section under the mutex) and \<open>exec_settle\<close> (what
  happens after \<open>fn\<close> returned). Each clock reading is an argument.

  The first half treats one caller at a time: the breaker refines a two-state machine
  (\<open>abs_execute\<close>), the locale \<open>circuit\<close> draws the consequences. The second half
  lets any number of goroutines interleave at the atomic operations of \<open>Execute\<close>.
\<close>

section \<open>State\<close>

datatype bstate = StateClosed | StateHalfOpen | StateOpen

definition state_String :: "bstate \<Rightarrow> string" where
  "state_String s = (case s of StateClosed \<Rightarrow> ''closed'' | StateHalfOpen \<Rightarrow> ''half-open''
                     | StateOpen \<Rightarrow> ''open'')"

record breaker =
  br_name :: string
  br_maxFailures :: int
  br_resetTimeout :: duration
  br_failures :: int32
  br_lastFailure :: time
  br_state :: bstate
  br_probing :: int32
  br_hook :: bool
  br_notified :: "(string \<times> bstate \<times> bstate) list"

record breaker_options =
  opt_Name :: string
  opt_MaxFailures :: int
  opt_ResetTimeout :: duration
  opt_OnStateChange :: bool

definition breaker_New :: "breaker_options \<Rightarrow> breaker" where
  "breaker_New opts =
     \<lparr> br_name = opt_Name opts,
       br_maxFailures = (if opt_MaxFailures opts \<le> 0 then 5 else opt_MaxFailures opts),
       br_resetTimeout = (if opt_ResetTimeout opts \<le> 0 then 30 * second else opt_ResetTimeout opts),
       br_failures = 0,
       br_lastFailure = zero_time,
       br_state = StateClosed,
       br_probing = 0,
       br_hook = opt_OnStateChange opts,
       br_notified = [] \<rparr>"

definition setState :: "breaker \<Rightarrow> bstate \<Rightarrow> breaker" where
  "setState b s =
     (let old = br_state b; b' = b\<lparr>br_state := s\<rparr>
      in if br_hook b \<and> old \<noteq> s
         then b'\<lparr>br_notified := br_notified b @ [(br_name b, old, s)]\<rparr> else b')"

text \<open>\<open>int32(b.maxFailures)\<close> truncates; \<open>failures\<close> is compared with it as a signed number.\<close>

definition failures_reached :: "breaker \<Rightarrow> bool" where
  "failures_reached b \<longleftrightarrow> sint (br_failures b) \<ge> sint (word_of_int (br_maxFailures b) :: int32)"

section \<open>One call\<close>

datatype outcome = FnOk | FnErr | FnPanic

datatype exec_result = ErrCircuitOpen | Ran outcome

text \<open>The test of an open breaker: \<open>None\<close> is the early return of \<open>ErrCircuitOpen\<close>, the
  boolean is \<open>wasHalfOpen\<close>.\<close>

definition exec_admit :: "breaker \<Rightarrow> time \<Rightarrow> (breaker \<times> bool) option" where
  "exec_admit b now =
     (if br_state b = StateOpen then
        if time_sub now (br_lastFailure b) > br_resetTimeout b then
          if br_probing b = 0
          then Some (setState (b\<lparr>br_probing := 1\<rparr>) StateHalfOpen, True)
          else None
        else None
      else Some (b, False))"

text \<open>The section under the mutex; the boolean says whether the call goes on.\<close>

definition exec_gate :: "breaker \<Rightarrow> time \<Rightarrow> breaker \<times> bool" where
  "exec_gate b now =
     (if failures_reached b \<and> br_state b = StateClosed
      then ((setState b StateOpen)\<lparr>br_lastFailure := now\<rparr>, False)
      else (b, True))"

text \<open>After \<open>fn\<close>. A panic of \<open>fn\<close> unwinds through \<open>Execute\<close>, which defers nothing.\<close>

definition exec_settle :: "bool \<Rightarrow> outcome \<Rightarrow> breaker \<Rightarrow> time \<Rightarrow> breaker" where
  "exec_settle wasHalfOpen fn b now =
     (if fn = FnPanic then b
      else
        let b1 = (if wasHalfOpen then b\<lparr>br_probing := 0\<rparr> else b)
        in if fn = FnErr then
             let b2 = b1\<lparr>br_failures := br_failures b1 + 1, br_lastFailure := now\<rparr>
             in if failures_reached b2 then setState b2 StateOpen else b2
           else
             let b2 = (if br_state b1 = StateHalfOpen then setState b1 StateClosed else b1)
             in b2\<lparr>br_failures := 0\<rparr>)"

text \<open>A call: what \<open>fn\<close> does and the three clock readings of \<open>Execute\<close>.\<close>

record call =
  c_admitted_at :: time
  c_gated_at :: time
  c_fn :: outcome
  c_settled_at :: time

definition Execute :: "breaker \<Rightarrow> call \<Rightarrow> breaker \<times> exec_result" where
  "Execute b c =
     (case exec_admit b (c_admitted_at c) of
        None \<Rightarrow> (b, ErrCircuitOpen)
      | Some (b1, wasHalfOpen) \<Rightarrow>
          (case exec_gate b1 (c_gated_at c) of
             (b2, False) \<Rightarrow> (b2, ErrCircuitOpen)
           | (b2, True) \<Rightarrow> (exec_settle wasHalfOpen (c_fn c) b2 (c_settled_at c), Ran (c_fn c))))"

definition Reset :: "breaker \<Rightarrow> breaker" where
  "Reset b =
     (setState (b\<lparr>br_failures := 0, br_probing := 0\<rparr>) StateClosed)\<lparr>br_lastFailure := zero_time\<rparr>"

lemma setState_simps [simp]:
  "br_state (setState b s) = s"
  "br_failures (setState b s) = br_failures b"
  "br_maxFailures (setState b s) = br_maxFailures b"
  "br_resetTimeout (setState b s) = br_resetTimeout b"
  "br_lastFailure (setState b s) = br_lastFailure b"
  "br_probing (setState b s) = br_probing b"
  by (simp_all add: setState_def Let_def)

lemma failures_reached_setState [simp]: "failures_reached (setState b s) = failures_reached b"
  by (simp add: failures_reached_def)

lemma failures_reached_upd [simp]:
  "failures_reached (br_probing_update f b) = failures_reached b"
  "failures_reached (br_lastFailure_update g b) = failures_reached b"
  by (simp_all add: failures_reached_def)

section \<open>The abstract breaker\<close>

text \<open>
  Between two calls a breaker is closed with a number of consecutive failures, or tripped
  at the time of its last failure. The half-open state is never seen from outside.
\<close>

datatype abreaker = AClosed nat | ATripped time

fun abs_execute :: "nat \<Rightarrow> duration \<Rightarrow> abreaker \<Rightarrow> call \<Rightarrow> abreaker \<times> exec_result" where
  "abs_execute N T (AClosed k) c =
     (if c_fn c = FnOk then (AClosed 0, Ran FnOk)
      else if Suc k \<ge> N then (ATripped (c_settled_at c), Ran (c_fn c))
      else (AClosed (Suc k), Ran (c_fn c)))"
| "abs_execute N T (ATripped l) c =
     (if time_sub (c_admitted_at c) l > T then
        if c_fn c = FnOk then (AClosed 0, Ran FnOk)
        else (ATripped (c_settled_at c), Ran (c_fn c))
      else (ATripped l, ErrCircuitOpen))"

definition brk_abs :: "breaker \<Rightarrow> abreaker" where
  "brk_abs b = (if br_state b = StateClosed then AClosed (nat (sint (br_failures b)))
                else ATripped (br_lastFailure b))"

text \<open>
  What holds between calls when callers come one at a time. The counter is an \<open>int32\<close>
  that every failed probe increments, so the invariant carries the number \<open>k\<close> of calls
  that cannot make it wrap around.
\<close>

definition seq_inv :: "nat \<Rightarrow> duration \<Rightarrow> nat \<Rightarrow> breaker \<Rightarrow> bool" where
  "seq_inv N T k b \<longleftrightarrow>
     0 < N \<and> int N \<le> 2147483647 \<and> br_maxFailures b = int N \<and> br_resetTimeout b = T \<and>
     br_probing b = 0 \<and> 0 \<le> sint (br_failures b) \<and> sint (br_failures b) + int k \<le> 2147483647 \<and>
     (br_state b = StateClosed \<and> sint (br_failures b) < int N
      \<or> br_state b = StateOpen \<and> int N \<le> sint (br_failures b))"

lemma seq_inv_N: "seq_inv N T k b \<Longrightarrow> 0 < N"
  by (simp add: seq_inv_def)

lemma failures_reached_iff:
  "seq_inv N T k b \<Longrightarrow> failures_reached b \<longleftrightarrow> int N \<le> sint (br_failures b)"
  by (simp add: seq_inv_def failures_reached_def)

lemma Execute_closed:
  assumes "seq_inv N T k b" and "br_state b = StateClosed"
  shows "Execute b c = (exec_settle False (c_fn c) b (c_settled_at c), Ran (c_fn c))"
  using assms failures_reached_iff [OF assms(1)]
  by (auto simp: Execute_def exec_admit_def exec_gate_def seq_inv_def)

lemma Execute_probe:
  assumes "seq_inv N T k b" and "br_state b = StateOpen"
    and "time_sub (c_admitted_at c) (br_lastFailure b) > T"
  shows "Execute b c =
    (exec_settle True (c_fn c) (setState (b\<lparr>br_probing := 1\<rparr>) StateHalfOpen) (c_settled_at c), Ran (c_fn c))"
  using assms by (auto simp: Execute_def exec_admit_def exec_gate_def seq_inv_def)

lemma Execute_cooling:
  assumes "br_state b = StateOpen"
    and "\<not> time_sub (c_admitted_at c) (br_lastFailure b) > br_resetTimeout b"
  shows "Execute b c = (b, ErrCircuitOpen)"
  using assms by (simp add: Execute_def exec_admit_def)

lemma Execute_refines:
  assumes inv: "seq_inv N T (Suc k) b" and fn: "c_fn c \<noteq> FnPanic" and ex: "Execute b c = (b', r)"
  shows "abs_execute N T (brk_abs b) c = (brk_abs b', r) \<and> seq_inv N T k b'"
proof (cases "br_state b = StateClosed")
  case True
  then have b': "b' = exec_settle False (c_fn c) b (c_settled_at c)" and r: "r = Ran (c_fn c)"
    using ex Execute_closed [OF inv] by auto
  have f: "0 \<le> sint (br_failures b)" "sint (br_failures b) < int N" "int N \<le> 2147483647"
    using inv True by (auto simp: seq_inv_def)
  show ?thesis
    using fn inv True f
    by (cases "c_fn c")
       (auto simp: b' r exec_settle_def Let_def brk_abs_def seq_inv_def failures_reached_def nat_add_distrib)
next
  case False
  then have op: "br_state b = StateOpen" using inv by (auto simp: seq_inv_def)
  show ?thesis
  proof (cases "time_sub (c_admitted_at c) (br_lastFailure b) > T")
    case True
    have b': "b' = exec_settle True (c_fn c) (setState (b\<lparr>br_probing := 1\<rparr>) StateHalfOpen) (c_settled_at c)"
      and r: "r = Ran (c_fn c)"
      using ex Execute_probe [OF inv op True] by auto
    show ?thesis
      using fn inv True op
      by (cases "c_fn c")
         (auto simp: b' r exec_settle_def Let_def brk_abs_def seq_inv_def failures_reached_def)
  next
    case False
    then have "b' = b" "r = ErrCircuitOpen"
      using ex op inv Execute_cooling [OF op, of c] by (auto simp: seq_inv_def)
    then show ?thesis using False op inv by (auto simp: brk_abs_def seq_inv_def)
  qed
qed

text \<open>
  The contract a client of a breaker relies on: a call refines the abstract machine and
  spends one unit of the counter's budget. What follows from it is proved once here.
\<close>

fun run_calls :: "('s \<Rightarrow> call \<Rightarrow> 's \<times> exec_result) \<Rightarrow> 's \<Rightarrow> call list \<Rightarrow> 's \<times> exec_result list" where
  "run_calls exec s [] = (s, [])"
| "run_calls exec s (c # cs) =
     (let (s1, r) = exec s c; (s2, rs) = run_calls exec s1 cs in (s2, r # rs))"

locale circuit =
  fixes exec :: "'s \<Rightarrow> call \<Rightarrow> 's \<times> exec_result"
    and inv :: "nat \<Rightarrow> 's \<Rightarrow> bool"
    and abs :: "'s \<Rightarrow> abreaker"
    and N :: nat and T :: duration
  assumes exec_refines: "inv (Suc k) s \<Longrightarrow> c_fn c \<noteq> FnPanic \<Longrightarrow> exec s c = (s', r) \<Longrightarrow>
      abs_execute N T (abs s) c = (abs s', r) \<and> inv k s'"
    and inv_pos: "inv k s \<Longrightarrow> 0 < N"
begin

lemma run_refines:
  "inv (length cs + k) s \<Longrightarrow> \<forall>c \<in> set cs. c_fn c \<noteq> FnPanic \<Longrightarrow> run_calls exec s cs = (s', rs) \<Longrightarrow>
     run_calls (abs_execute N T) (abs s) cs = (abs s', rs) \<and> inv k s'"
proof (induction cs arbitrary: s rs)
  case Nil
  then show ?case by simp
next
  case (Cons c cs)
  obtain s1 r where e: "exec s c = (s1, r)" by fastforce
  obtain s2 rs' where rn: "run_calls exec s1 cs = (s2, rs')" by fastforce
  have "abs_execute N T (abs s) c = (abs s1, r) \<and> inv (length cs + k) s1"
    using exec_refines [of "length cs + k" s c s1 r] Cons.prems e by simp
  with Cons e rn show ?case by auto
qed

lemma failures_trip:
  assumes "inv (length cs + k) s" and "abs s = AClosed j" and "j + length cs = N" and "cs \<noteq> []"
    and "\<forall>c \<in> set cs. c_fn c = FnErr" and "run_calls exec s cs = (s', rs)"
  shows "abs s' = ATripped (c_settled_at (last cs)) \<and> rs = replicate (length cs) (Ran FnErr)"
proof -
  have "run_calls (abs_execute N T) (AClosed j) cs =
      (ATripped (c_settled_at (last cs)), replicate (length cs) (Ran FnErr))"
    using assms(3-5)
  proof (induction cs arbitrary: j)
    case (Cons c cs)
    then show ?case by (cases cs) auto
  qed simp
  then show ?thesis using run_refines [OF assms(1) _ assms(6)] assms(2,5) by force
qed

lemma cooling_rejects:
  assumes "inv (length cs + k) s" and "abs s = ATripped l"
    and "\<forall>c \<in> set cs. c_fn c \<noteq> FnPanic \<and> time_sub (c_admitted_at c) l \<le> T"
    and "run_calls exec s cs = (s', rs)"
  shows "abs s' = ATripped l \<and> rs = replicate (length cs) ErrCircuitOpen"
proof -
  have "run_calls (abs_execute N T) (ATripped l) cs = (ATripped l, replicate (length cs) ErrCircuitOpen)"
    using assms(3) by (induction cs) auto
  then show ?thesis using run_refines [OF assms(1) _ assms(4)] assms(2,3) by auto
qed

lemma probe_recovers:
  assumes "inv (Suc k) s" and "abs s = ATripped l" and "time_sub (c_admitted_at c) l > T"
    and "c_fn c = FnOk" and "exec s c = (s', r)"
  shows "abs s' = AClosed 0 \<and> r = Ran FnOk"
  using exec_refines [OF assms(1) _ assms(5)] assms(2-4) by simp

end

interpretation brk: circuit Execute "seq_inv N T" brk_abs N T for N T
  by unfold_locales (auto dest: Execute_refines seq_inv_N)

lemma breaker_New_inv:
  assumes "opt_MaxFailures opts \<le> 2147483647"
  defines "b \<equiv> breaker_New opts"
  shows "seq_inv (nat (br_maxFailures b)) (br_resetTimeout b) 2147483647 b" and "brk_abs b = AClosed 0"
  using assms by (auto simp: breaker_New_def seq_inv_def brk_abs_def)

section \<open>Concurrent callers\<close>

text \<open>
  Any number of goroutines call \<open>Execute\<close> on one breaker. A program counter says where
  each of them is; an event lets one of them perform its next atomic operation, or time
  pass. The operations under the mutex are one step, as is a \<open>setState\<close>; every other
  atomic load, store or compare-and-swap of \<open>Execute\<close> is a step of its own. The flag of
  the later program counters is \<open>wasHalfOpen\<close>.
\<close>

datatype pc = Outside | SawOpen | SawExpired | WonProbe | AtGate bool | Running bool
  | Returned bool bool | Released bool | CountedFailure | StoredFailure | ClosedAfterOk

datatype event = Step nat | Return nat bool | Tick nat

record conc =
  cc_breaker :: breaker
  cc_pcs :: "nat \<Rightarrow> pc"
  cc_now :: time

definition goto :: "conc \<Rightarrow> nat \<Rightarrow> pc \<Rightarrow> breaker \<Rightarrow> conc" where
  "goto s i p b = s\<lparr>cc_pcs := (cc_pcs s)(i := p), cc_breaker := b\<rparr>"

fun step_pc :: "pc \<Rightarrow> breaker \<Rightarrow> time \<Rightarrow> (pc \<times> breaker) option" where
  "step_pc Outside b now = Some (if br_state b = StateOpen then SawOpen else AtGate False, b)"
| "step_pc SawOpen b now =
     Some (if time_sub now (br_lastFailure b) > br_resetTimeout b then SawExpired else Outside, b)"
| "step_pc SawExpired b now =
     Some (if br_probing b = 0 then (WonProbe, b\<lparr>br_probing := 1\<rparr>) else (Outside, b))"
| "step_pc WonProbe b now = Some (AtGate True, setState b StateHalfOpen)"
| "step_pc (AtGate h) b now =
     Some (if snd (exec_gate b now) then Running h else Outside, fst (exec_gate b now))"
| "step_pc (Running h) b now = None"
| "step_pc (Returned h ok) b now = Some (Released ok, if h then b\<lparr>br_probing := 0\<rparr> else b)"
| "step_pc (Released ok) b now =
     Some (if ok then (ClosedAfterOk, if br_state b = StateHalfOpen then setState b StateClosed else b)
           else (CountedFailure, b\<lparr>br_failures := br_failures b + 1\<rparr>))"
| "step_pc CountedFailure b now = Some (StoredFailure, b\<lparr>br_lastFailure := now\<rparr>)"
| "step_pc StoredFailure b now = Some (Outside, if failures_reached b then setState b StateOpen else b)"
| "step_pc ClosedAfterOk b now = Some (Outside, b\<lparr>br_failures := 0\<rparr>)"

fun conc_next :: "event \<Rightarrow> conc \<Rightarrow> conc option" where
  "conc_next (Step i) s =
     (case step_pc (cc_pcs s i) (cc_breaker s) (cc_now s) of
        None \<Rightarrow> None | Some (p, b) \<Rightarrow> Some (goto s i p b))"
| "conc_next (Return i ok) s =
     (case cc_pcs s i of Running h \<Rightarrow> Some (goto s i (Returned h ok) (cc_breaker s)) | _ \<Rightarrow> None)"
| "conc_next (Tick n) s = Some (s\<lparr>cc_now := cc_now s + int n\<rparr>)"

definition conc_start :: "breaker_options \<Rightarrow> time \<Rightarrow> conc" where
  "conc_start opts t = \<lparr>cc_breaker = breaker_New opts, cc_pcs = (\<lambda>_. Outside), cc_now = t\<rparr>"

inductive conc_reach :: "breaker_options \<Rightarrow> conc \<Rightarrow> bool" for opts where
  reach_start: "conc_reach opts (conc_start opts t)"
| reach_next: "conc_reach opts s \<Longrightarrow> conc_next e s = Some s' \<Longrightarrow> conc_reach opts s'"

fun conc_run :: "event list \<Rightarrow> conc \<Rightarrow> conc option" where
  "conc_run [] s = Some s"
| "conc_run (e # es) s = (case conc_next e s of None \<Rightarrow> None | Some s' \<Rightarrow> conc_run es s')"

lemma conc_run_reach: "conc_reach opts s \<Longrightarrow> conc_run es s = Some s' \<Longrightarrow> conc_reach opts s'"
proof (induction es arbitrary: s)
  case (Cons e es)
  then show ?case by (auto split: option.splits intro: reach_next)
qed simp

text \<open>The goroutine that won the compare-and-swap owns the probe slot until it releases it.\<close>

fun owns_probe :: "pc \<Rightarrow> bool" where
  "owns_probe WonProbe = True"
| "owns_probe (AtGate h) = h"
| "owns_probe (Running h) = h"
| "owns_probe (Returned h ok) = h"
| "owns_probe _ = False"

definition probe_inv :: "conc \<Rightarrow> bool" where
  "probe_inv s \<longleftrightarrow>
     (\<forall>i. owns_probe (cc_pcs s i) \<longrightarrow> br_probing (cc_breaker s) = 1) \<and>
     (\<forall>i j. owns_probe (cc_pcs s i) \<longrightarrow> owns_probe (cc_pcs s j) \<longrightarrow> i = j)"

lemma exec_gate_probing [simp]: "br_probing (fst (exec_gate b now)) = br_probing b"
  by (simp add: exec_gate_def)

text \<open>A step keeps who owns the slot, takes a free slot, or gives the slot up.\<close>

lemma step_pc_probe:
  assumes "step_pc p b now = Some (p', b')"
  shows "(br_probing b' = br_probing b \<and> (owns_probe p' \<longrightarrow> owns_probe p)) \<or>
         (br_probing b = 0 \<and> br_probing b' = 1 \<and> owns_probe p') \<or>
         (owns_probe p \<and> \<not> owns_probe p')"
  using assms by (cases p) (auto split: if_splits)

lemma probe_inv_step:
  assumes "probe_inv s" and "conc_next e s = Some s'"
  shows "probe_inv s'"
proof (cases e)
  case (Step i)
  then obtain p b where st: "step_pc (cc_pcs s i) (cc_breaker s) (cc_now s) = Some (p, b)"
    and s': "s' = goto s i p b"
    using assms(2) by (auto split: option.splits)
  from step_pc_probe [OF st] assms(1) show ?thesis
    unfolding s' probe_inv_def goto_def by (auto; metis zero_neq_one)
next
  case (Return i ok)
  then obtain h where "cc_pcs s i = Running h" "s' = goto s i (Returned h ok) (cc_breaker s)"
    using assms(2) by (auto split: pc.splits)
  with assms(1) show ?thesis by (auto simp: probe_inv_def goto_def; metis owns_probe.simps(3))
next
  case (Tick n)
  with assms show ?thesis by (auto simp: probe_inv_def)
qed

lemma probe_inv_reach: "conc_reach opts s \<Longrightarrow> probe_inv s"
proof (induction rule: conc_reach.induct)
  case (reach_start t)
  then show ?case by (simp add: probe_inv_def conc_start_def)
next
  case (reach_next s e s')
  then show ?case by (blast intro: probe_inv_step)
qed

text \<open>
  A breaker that is open while its slot is taken and no goroutine is past the
  compare-and-swap stays so: nobody is left who would release the slot.
\<close>

fun before_probe :: "pc \<Rightarrow> bool" where
  "before_probe Outside = True"
| "before_probe SawOpen = True"
| "before_probe SawExpired = True"
| "before_probe _ = False"

definition wedged :: "conc \<Rightarrow> bool" where
  "wedged s \<longleftrightarrow> br_state (cc_breaker s) = StateOpen \<and> br_probing (cc_breaker s) = 1 \<and>
     (\<forall>i. before_probe (cc_pcs s i))"

lemma step_pc_before_probe:
  assumes "step_pc p b now = Some (p', b')" and "before_probe p"
    and "br_state b = StateOpen" and "br_probing b = 1"
  shows "b' = b \<and> before_probe p'"
  using assms by (cases p) auto

lemma wedged_step: "wedged s \<Longrightarrow> conc_next e s = Some s' \<Longrightarrow> wedged s'"
proof (cases e)
  case (Step i)
  assume w: "wedged s" and n: "conc_next e s = Some s'"
  then obtain p b where "step_pc (cc_pcs s i) (cc_breaker s) (cc_now s) = Some (p, b)" "s' = goto s i p b"
    using Step by (auto split: option.splits)
  with w show ?thesis
    using step_pc_before_probe [of "cc_pcs s i" "cc_breaker s" "cc_now s" p b]
    by (auto simp: wedged_def goto_def)
next
  case (Return i ok)
  assume w: "wedged s" and n: "conc_next e s = Some s'"
  then have "before_probe (cc_pcs s i)" by (simp add: wedged_def)
  then show ?thesis using n Return by (cases "cc_pcs s i") auto
qed (auto simp: wedged_def)

lemma wedged_run: "wedged s \<Longrightarrow> conc_run es s = Some s' \<Longrightarrow> wedged s'"
  by (induction es arbitrary: s) (auto split: option.splits intro: wedged_step)

text \<open>Goroutines an event list does not mention stay where they are.\<close>

fun scheduled :: "event \<Rightarrow> nat set" where
  "scheduled (Step i) = {i}"
| "scheduled (Return i ok) = {i}"
| "scheduled (Tick n) = {}"

lemma conc_next_frame: "conc_next e s = Some s' \<Longrightarrow> i \<notin> scheduled e \<Longrightarrow> cc_pcs s' i = cc_pcs s i"
  by (cases e) (auto simp: goto_def split: option.splits pc.splits)

lemma conc_run_frame:
  "conc_run es s = Some s' \<Longrightarrow> i \<notin> (\<Union>e \<in> set es. scheduled e) \<Longrightarrow> cc_pcs s' i = cc_pcs s i"
proof (induction es arbitrary: s)
  case (Cons e es)
  then obtain s1 where "conc_next e s = Some s1" "conc_run es s1 = Some s'"
    by (auto split: option.splits)
  with Cons show ?case using conc_next_frame [of e s s1 i] by simp
qed simp

text \<open>The breaker of the KEV feed, and the schedules of the theorems below.\<close>

definition kevBreaker_options :: breaker_options where
  "kevBreaker_options =
     \<lparr>opt_Name = ''kev-feed'', opt_MaxFailures = 3, opt_ResetTimeout = 5 * minute, opt_OnStateChange = False\<rparr>"

definition failing_call :: "nat \<Rightarrow> event list" where
  "failing_call i = [Step i, Step i, Return i False, Step i, Step i, Step i, Step i]"

text \<open>Three failed calls trip the breaker; five minutes later goroutine 0 wins the probe slot
  and makes the breaker half-open.\<close>

definition probe_schedule :: "event list" where
  "probe_schedule = failing_call 0 @ failing_call 0 @ failing_call 0 @
     [Tick 300000000001, Step 0, Step 0, Step 0, Step 0]"

text \<open>Both goroutines go on: 0 as the probe, 1 because it finds the breaker half-open.\<close>

definition two_probes_schedule :: "event list" where
  "two_probes_schedule = probe_schedule @ [Step 0, Step 1, Step 1]"

text \<open>Goroutine 1 succeeds and closes the breaker; before it resets the counter, goroutine 0
  reaches the mutex, sees a closed breaker with too many failures and returns.\<close>

definition wedge_schedule :: "event list" where
  "wedge_schedule = probe_schedule @
     [Step 1, Step 1, Return 1 True, Step 1, Step 1, Step 0, Step 1]"

lemmas schedule_defs = wedge_schedule_def two_probes_schedule_def probe_schedule_def failing_call_def

lemmas schedule_eval = schedule_defs conc_start_def breaker_New_def kevBreaker_options_def goto_def
  setState_def exec_gate_def failures_reached_def time_sub_def zero_time_def

lemma two_probes_run:
  "\<exists>s. conc_run two_probes_schedule (conc_start kevBreaker_options 0) = Some s \<and>
     br_state (cc_breaker s) = StateHalfOpen \<and> cc_pcs s 0 = Running True \<and> cc_pcs s 1 = Running False"
  by (simp add: schedule_eval)

lemma wedge_run:
  "\<exists>s. conc_run wedge_schedule (conc_start kevBreaker_options 0) = Some s \<and> wedged s \<and> (\<forall>i. cc_pcs s i = Outside)"
proof -
  have "\<exists>s. conc_run wedge_schedule (conc_start kevBreaker_options 0) = Some s \<and>
      br_state (cc_breaker s) = StateOpen \<and> br_probing (cc_breaker s) = 1 \<and>
      cc_pcs s 0 = Outside \<and> cc_pcs s 1 = Outside"
    by (simp add: schedule_eval)
  then obtain s where s: "conc_run wedge_schedule (conc_start kevBreaker_options 0) = Some s"
    "br_state (cc_breaker s) = StateOpen" "br_probing (cc_breaker s) = 1"
    "cc_pcs s 0 = Outside" "cc_pcs s 1 = Outside"
    by blast
  have "(\<Union>e \<in> set wedge_schedule. scheduled e) \<subseteq> {0, 1}"
    by (auto simp: schedule_defs)
  then have "cc_pcs s i = Outside" for i
    using conc_run_frame [OF s(1), of i] s(4,5) by (cases "i \<in> {0, 1}") (auto simp: conc_start_def)
  with s show ?thesis by (auto simp: wedged_def)
qed

section \<open>Properties\<close>

text \<open>C13: Refinement. A run of calls, one after the other and none of them panicking, on a
  breaker made by \<open>New\<close> returns exactly what the two-state machine returns and ends in the
  state it ends in, for up to 2147483647 calls (the range of the \<open>int32\<close> counter).\<close>

theorem breaker_run_refines:
  assumes "opt_MaxFailures opts \<le> 2147483647" and "length cs \<le> 2147483647"
    and "\<forall>c \<in> set cs. c_fn c \<noteq> FnPanic"
    and "run_calls Execute (breaker_New opts) cs = (b', rs)"
  shows "run_calls (abs_execute (nat (br_maxFailures (breaker_New opts))) (br_resetTimeout (breaker_New opts)))
           (AClosed 0) cs = (brk_abs b', rs)"
proof -
  let ?b = "breaker_New opts"
  have "seq_inv (nat (br_maxFailures ?b)) (br_resetTimeout ?b)
      (length cs + (2147483647 - length cs)) ?b"
    using breaker_New_inv(1) [OF assms(1)] assms(2) by simp
  from brk.run_refines [OF this assms(3,4)] breaker_New_inv(2) [OF assms(1)]
  show ?thesis by simp
qed

definition demo_call :: "time \<Rightarrow> outcome \<Rightarrow> call" where
  "demo_call t fn = \<lparr>c_admitted_at = t, c_gated_at = t, c_fn = fn, c_settled_at = t\<rparr>"

theorem breaker_run_refines_witness:
  "\<exists>b' rs. run_calls Execute (breaker_New kevBreaker_options) [demo_call 1 FnErr, demo_call 2 FnOk] = (b', rs)
     \<and> run_calls (abs_execute 3 (5 * minute)) (AClosed 0) [demo_call 1 FnErr, demo_call 2 FnOk] = (brk_abs b', rs)"
proof -
  obtain b' rs where r: "run_calls Execute (breaker_New kevBreaker_options)
      [demo_call 1 FnErr, demo_call 2 FnOk] = (b', rs)" by fastforce
  from breaker_run_refines [OF _ _ _ this] r show ?thesis
    by (simp add: kevBreaker_options_def demo_call_def breaker_New_def del: run_calls.simps)
qed

text \<open>C24: On a breaker made by \<open>New\<close>, \<open>maxFailures\<close> failed calls in a row trip it; every call
  admitted within \<open>resetTimeout\<close> of the last of them is refused without running \<open>fn\<close>; and
  the first call after that which succeeds closes the breaker with no failure counted.\<close>

theorem breaker_trips_cools_recovers:
  assumes max: "opt_MaxFailures opts \<le> 2147483647"
    and fail: "int (length fs) = br_maxFailures (breaker_New opts)" "\<forall>c \<in> set fs. c_fn c = FnErr"
    and cool: "length cs < 2147483647 - length fs" "\<forall>c \<in> set cs. c_fn c \<noteq> FnPanic \<and>
        time_sub (c_admitted_at c) (c_settled_at (last fs)) \<le> br_resetTimeout (breaker_New opts)"
    and probe: "c_fn p = FnOk" "time_sub (c_admitted_at p) (c_settled_at (last fs)) > br_resetTimeout (breaker_New opts)"
    and run1: "run_calls Execute (breaker_New opts) fs = (b1, rs1)"
    and run2: "run_calls Execute b1 cs = (b2, rs2)"
    and run3: "Execute b2 p = (b3, r3)"
  shows "br_state b1 \<noteq> StateClosed \<and> rs1 = replicate (length fs) (Ran FnErr) \<and>
         rs2 = replicate (length cs) ErrCircuitOpen \<and>
         r3 = Ran FnOk \<and> br_state b3 = StateClosed \<and> br_failures b3 = 0"
proof -
  let ?b = "breaker_New opts" and ?l = "c_settled_at (last fs)"
  let ?N = "nat (br_maxFailures ?b)" and ?T = "br_resetTimeout ?b"
  let ?k = "2147483647 - length fs" and ?j = "2147483647 - length fs - length cs - 1"
  have pos: "0 < length fs" using fail(1) by (auto simp: breaker_New_def split: if_splits)
  have inv0: "seq_inv ?N ?T (length fs + ?k) ?b" and abs0: "brk_abs ?b = AClosed 0"
    using breaker_New_inv [OF max] cool(1) by simp_all
  have 1: "brk_abs b1 = ATripped ?l \<and> rs1 = replicate (length fs) (Ran FnErr)"
    using brk.failures_trip [OF inv0 abs0 _ _ fail(2) run1] fail(1) pos by force
  have inv1: "seq_inv ?N ?T ?k b1"
    using brk.run_refines [OF inv0 _ run1] fail(2) by auto
  moreover have "length cs + Suc ?j = ?k" using cool(1) by simp
  ultimately have inv1': "seq_inv ?N ?T (length cs + Suc ?j) b1" by (simp only:)
  have 2: "brk_abs b2 = ATripped ?l \<and> rs2 = replicate (length cs) ErrCircuitOpen"
    using brk.cooling_rejects [OF inv1' _ cool(2) run2] 1 by simp
  have inv2: "seq_inv ?N ?T (Suc ?j) b2"
    using brk.run_refines [OF inv1' _ run2] cool(2) by blast
  have 3: "brk_abs b3 = AClosed 0 \<and> r3 = Ran FnOk"
    using brk.probe_recovers [OF inv2 _ probe(2,1) run3] 2 by simp
  have inv3: "seq_inv ?N ?T ?j b3"
    using Execute_refines [OF inv2 _ run3] probe(1) by simp
  from 3 have "br_state b3 = StateClosed" "nat (sint (br_failures b3)) = 0"
    by (auto simp: brk_abs_def split: if_splits)
  moreover from this inv3 have "sint (br_failures b3) = 0" by (auto simp: seq_inv_def)
  ultimately show ?thesis using 1 2 3 by (auto simp: brk_abs_def signed_eq_0_iff)
qed

theorem breaker_trips_cools_recovers_witness:
  "\<exists>b1 b2 b3. run_calls Execute (breaker_New kevBreaker_options) (replicate 3 (demo_call 1 FnErr)) = (b1, replicate 3 (Ran FnErr))
     \<and> run_calls Execute b1 [demo_call 2 FnOk] = (b2, [ErrCircuitOpen])
     \<and> Execute b2 (demo_call (6 * minute) FnOk) = (b3, Ran FnOk) \<and> br_state b3 = StateClosed"
proof -
  obtain b1 rs1 where r1: "run_calls Execute (breaker_New kevBreaker_options)
      (replicate 3 (demo_call 1 FnErr)) = (b1, rs1)" by fastforce
  obtain b2 rs2 where r2: "run_calls Execute b1 [demo_call 2 FnOk] = (b2, rs2)" by fastforce
  obtain b3 r3 where r3: "Execute b2 (demo_call (6 * minute) FnOk) = (b3, r3)" by fastforce
  have "br_state b1 \<noteq> StateClosed \<and> rs1 = replicate (length (replicate 3 (demo_call 1 FnErr))) (Ran FnErr) \<and>
         rs2 = replicate (length [demo_call 2 FnOk]) ErrCircuitOpen \<and>
         r3 = Ran FnOk \<and> br_state b3 = StateClosed \<and> br_failures b3 = 0"
    by (rule breaker_trips_cools_recovers [OF _ _ _ _ _ _ _ r1 r2 r3])
       (simp_all add: kevBreaker_options_def breaker_New_def demo_call_def time_sub_def numeral_3_eq_3)
  with r1 r2 r3 show ?thesis by auto
qed

text \<open>Safety of the probe slot under every interleaving: in no reachable state have two
  goroutines won the compare-and-swap without one of them having released the slot.\<close>

theorem breaker_probe_slot_unique:
  assumes "conc_reach opts s" and "owns_probe (cc_pcs s i)" and "owns_probe (cc_pcs s j)"
  shows "i = j \<and> br_probing (cc_breaker s) = 1"
  using probe_inv_reach [OF assms(1)] assms(2,3) by (auto simp: probe_inv_def)

theorem breaker_probe_slot_unique_witness:
  "\<exists>s. conc_reach kevBreaker_options s \<and> owns_probe (cc_pcs s 0) \<and> br_probing (cc_breaker s) = 1"
proof -
  obtain s where s: "conc_run two_probes_schedule (conc_start kevBreaker_options 0) = Some s"
    "cc_pcs s 0 = Running True"
    using two_probes_run by blast
  have r: "conc_reach kevBreaker_options s" by (rule conc_run_reach [OF reach_start s(1)])
  have o: "owns_probe (cc_pcs s 0)" by (simp add: s(2))
  from breaker_probe_slot_unique [OF r o o] r o show ?thesis by blast
qed

text \<open>The slot does not make the probe single-flight: a state is reachable in which the breaker
  of the KEV feed is half-open and two goroutines run \<open>fn\<close> at once, since a caller that finds the
  breaker half-open is admitted without asking for the slot.\<close>

theorem breaker_half_open_admits_two:
  "\<exists>s. conc_reach kevBreaker_options s \<and> br_state (cc_breaker s) = StateHalfOpen \<and>
     cc_pcs s 0 = Running True \<and> cc_pcs s 1 = Running False"
  using two_probes_run conc_run_reach reach_start by blast

text \<open>C38: A reachable interleaving takes the breaker out of service for good: it is open, the probe
  slot is taken by nobody, and whatever the goroutines do and however long they wait, it stays open
  and no call runs \<open>fn\<close> again.\<close>

theorem breaker_can_wedge:
  "\<exists>s. conc_reach kevBreaker_options s \<and> (\<forall>i. cc_pcs s i = Outside) \<and>
     (\<forall>es s'. conc_run es s = Some s' \<longrightarrow>
        br_state (cc_breaker s') = StateOpen \<and> (\<forall>i h. cc_pcs s' i \<noteq> Running h))"
proof -
  obtain s where s: "conc_run wedge_schedule (conc_start kevBreaker_options 0) = Some s" "wedged s"
    "\<forall>i. cc_pcs s i = Outside"
    using wedge_run by blast
  have r: "conc_reach kevBreaker_options s" by (rule conc_run_reach [OF reach_start s(1)])
  have "br_state (cc_breaker s') = StateOpen \<and> (\<forall>i h. cc_pcs s' i \<noteq> Running h)"
    if "conc_run es s = Some s'" for es s'
    using wedged_run [OF s(2) that] by (auto simp: wedged_def) (metis before_probe.simps(6))
  with r s(3) show ?thesis by blast
qed

theorem breaker_can_wedge_witness:
  "\<exists>s s'. conc_reach kevBreaker_options s \<and> conc_run [Tick 86400000000000] s = Some s' \<and>
     br_state (cc_breaker s') = StateOpen"
proof -
  obtain s where r: "conc_reach kevBreaker_options s"
    and w: "\<forall>es s'. conc_run es s = Some s' \<longrightarrow> br_state (cc_breaker s') = StateOpen \<and>
        (\<forall>i h. cc_pcs s' i \<noteq> Running h)"
    using breaker_can_wedge by blast
  obtain s' where "conc_run [Tick 86400000000000] s = Some s'" by simp
  with r w show ?thesis by blast
qed

end
