(* ===== verification/Kev.thy ===== *)
theory Kev
  imports Breaker Risk
begin

text \<open>
  The catalogue of known exploited vulnerabilities (\<open>backend/kev/updater.go\<close>), the EPSS scores
  (\<open>backend/kev/epss.go\<close>) and the status handler (\<open>backend/api/kev.go\<close>).

  Both feeds are fetched through a circuit breaker of theory \<open>Breaker\<close>. The answers of the feeds,
  the clock readings of the breaker and the JSON decoder are parameters; the cache file is part of
  the state.
\<close>

section \<open>The catalogue\<close>

record kev_entry =
  ke_CVEID :: string
  ke_VendorProject :: string
  ke_Product :: string
  ke_VulnerabilityName :: string
  ke_DateAdded :: string
  ke_ShortDescription :: string
  ke_RequiredAction :: string
  ke_DueDate :: string

record kev_catalog =
  kc_Title :: string
  kc_CatalogVersion :: string
  kc_DateReleased :: string
  kc_Count :: int
  kc_Vulnerabilities :: "kev_entry list"
  kc_cveIndex :: "(string \<rightharpoonup> kev_entry) option"

text \<open>An answer of the feed: no answer, or a status and a body (\<open>None\<close> when reading it fails).\<close>

datatype feed_answer = NoAnswer | Answer int "string option"

text \<open>
  \<open>os.WriteFile\<close> opens the file, which truncates it, and then writes: it succeeds, fails with the
  file as it was, or fails after some bytes and leaves those.
\<close>

datatype write_result = Written | NotOpened string | Partial string nat

record feed_env =
  fe_request_err :: "string option"
  fe_answer :: feed_answer
  fe_admitted_at :: time
  fe_gated_at :: time
  fe_settled_at :: time
  fe_write :: write_result

datatype kev_error =
    RequestError string | DownloadError | BadStatus int | ReadError | WriteError string | NoCache | ParseError

definition feed_call :: "feed_env \<Rightarrow> call" where
  "feed_call e = \<lparr>c_admitted_at = fe_admitted_at e, c_gated_at = fe_gated_at e,
     c_fn = (case fe_answer e of NoAnswer \<Rightarrow> FnErr | Answer _ _ \<Rightarrow> FnOk), c_settled_at = fe_settled_at e\<rparr>"

text \<open>\<open>FetchKEV\<close>: the error, the breaker and the cache file.\<close>

definition FetchKEV :: "feed_env \<Rightarrow> breaker \<Rightarrow> string option \<Rightarrow> kev_error option \<times> breaker \<times> string option" where
  "FetchKEV e b file =
     (case fe_request_err e of
        Some x \<Rightarrow> (Some (RequestError x), b, file)
      | None \<Rightarrow>
          (case Execute b (feed_call e) of
             (b1, r) \<Rightarrow>
               if r \<noteq> Ran FnOk then (Some DownloadError, b1, file)
               else (case fe_answer e of
                       NoAnswer \<Rightarrow> (Some DownloadError, b1, file)
                     | Answer sc body \<Rightarrow>
                         if sc \<noteq> 200 then (Some (BadStatus sc), b1, file)
                         else (case body of
                                 None \<Rightarrow> (Some ReadError, b1, file)
                               | Some s \<Rightarrow>
                                   (case fe_write e of
                                      Written \<Rightarrow> (None, b1, Some s)
                                    | NotOpened x \<Rightarrow> (Some (WriteError x), b1, file)
                                    | Partial x n \<Rightarrow> (Some (WriteError x), b1, Some (take n s)))))))"

definition buildIndex :: "kev_catalog \<Rightarrow> kev_catalog" where
  "buildIndex c = c\<lparr>kc_cveIndex := Some (fold (\<lambda>e m. m(toUpper (ke_CVEID e) \<mapsto> e)) (kc_Vulnerabilities c) Map.empty)\<rparr>"

definition LoadKEV :: "(string \<Rightarrow> kev_catalog option) \<Rightarrow> string option \<Rightarrow> kev_error + kev_catalog" where
  "LoadKEV parse file =
     (case file of None \<Rightarrow> Inl NoCache
      | Some s \<Rightarrow> (case parse s of None \<Rightarrow> Inl ParseError
                  | Some c \<Rightarrow> Inr (buildIndex (c\<lparr>kc_Count := int (length (kc_Vulnerabilities c))\<rparr>))))"

definition IsKEV :: "kev_catalog option \<Rightarrow> string \<Rightarrow> bool" where
  "IsKEV c cve = (case c of None \<Rightarrow> False
     | Some x \<Rightarrow> (case kc_cveIndex x of None \<Rightarrow> False | Some m \<Rightarrow> m (toUpper cve) \<noteq> None))"

definition GetKEVEntry :: "kev_catalog option \<Rightarrow> string \<Rightarrow> kev_entry option" where
  "GetKEVEntry c cve = (case c of None \<Rightarrow> None
     | Some x \<Rightarrow> (case kc_cveIndex x of None \<Rightarrow> None | Some m \<Rightarrow> m (toUpper cve)))"

definition empty_catalog :: kev_catalog where
  "empty_catalog = \<lparr>kc_Title = [], kc_CatalogVersion = [], kc_DateReleased = [], kc_Count = 0, kc_Vulnerabilities = [],
     kc_cveIndex = Some Map.empty\<rparr>"

record kev_state =
  kv_breaker :: breaker
  kv_file :: "string option"
  kv_catalog :: kev_catalog

text \<open>The start of \<open>StartKEVUpdater\<close>: a failed download falls back to the cache file.\<close>

definition kev_start :: "(string \<Rightarrow> kev_catalog option) \<Rightarrow> feed_env \<Rightarrow> breaker \<Rightarrow> string option \<Rightarrow> kev_state" where
  "kev_start parse e b file =
     (case FetchKEV e b file of
        (_, b1, file1) \<Rightarrow>
          \<lparr>kv_breaker = b1, kv_file = file1,
           kv_catalog = (case LoadKEV parse file1 of Inl _ \<Rightarrow> empty_catalog | Inr c \<Rightarrow> c)\<rparr>)"

text \<open>One tick of its daily refresh. The title is not among the fields it copies.\<close>

definition kev_tick :: "(string \<Rightarrow> kev_catalog option) \<Rightarrow> feed_env \<Rightarrow> kev_state \<Rightarrow> kev_state" where
  "kev_tick parse e st =
     (case FetchKEV e (kv_breaker st) (kv_file st) of
        (Some _, b1, file1) \<Rightarrow> st\<lparr>kv_breaker := b1, kv_file := file1\<rparr>
      | (None, b1, file1) \<Rightarrow>
          (let st1 = st\<lparr>kv_breaker := b1, kv_file := file1\<rparr> in
           case LoadKEV parse file1 of
             Inl _ \<Rightarrow> st1
           | Inr n \<Rightarrow> st1\<lparr>kv_catalog := (kv_catalog st)
                 \<lparr>kc_Vulnerabilities := kc_Vulnerabilities n, kc_Count := kc_Count n, kc_CatalogVersion := kc_CatalogVersion n,
                  kc_DateReleased := kc_DateReleased n, kc_cveIndex := kc_cveIndex n\<rparr>\<rparr>))"

definition KEVStatusHandler :: "time option \<Rightarrow> (time \<Rightarrow> string) \<Rightarrow> kev_catalog option \<Rightarrow> 'w handler" where
  "KEVStatusHandler mtime fmt cat c w =
     (success (JObj [(''last_updated'', JStr (case mtime of None \<Rightarrow> ''never'' | Some t \<Rightarrow> fmt t)),
                     (''total_entries'', JNum (case cat of None \<Rightarrow> 0 | Some x \<Rightarrow> kc_Count x)),
                     (''cache_file'', JStr ''data/cisa-kev.json'')]) c, w)"

section \<open>EPSS\<close>

record epss_score =
  es_CVE :: string
  es_EPSS :: rat
  es_Percentile :: rat
  es_Date :: string

definition epssBreaker_options :: breaker_options where
  "epssBreaker_options = \<lparr>opt_Name = ''epss-api'', opt_MaxFailures = 5, opt_ResetTimeout = 2 * minute, opt_OnStateChange = False\<rparr>"

definition epssAPIURL :: string where
  "epssAPIURL = ''https://api.first.org/data/v1/epss''"

text \<open>The loop \<open>for i := 0; i < len(cveIDs); i += 30\<close> over the slices of the list.\<close>

function batches :: "string list \<Rightarrow> string list list" where
  "batches ids = (if ids = [] then [] else take 30 ids # batches (drop 30 ids))"
  by pat_completeness auto

termination batches
  by (relation "measure length") auto

declare batches.simps [simp del]

text \<open>
  The answer to a request for a URL is a list of scores, or \<open>None\<close> when the request, the read or
  the decoding fails; the three times are the clock readings of the breaker.
\<close>

record epss_env =
  ee_fetch :: "string \<Rightarrow> epss_score list option"
  ee_admitted_at :: time
  ee_gated_at :: time
  ee_settled_at :: time

definition batch_url :: "string list \<Rightarrow> string" where
  "batch_url batch = epssAPIURL @ ''?cve='' @ join CHR '','' batch"

definition epss_call :: "epss_env \<Rightarrow> string \<Rightarrow> call" where
  "epss_call e url = \<lparr>c_admitted_at = ee_admitted_at e, c_gated_at = ee_gated_at e,
     c_fn = (if ee_fetch e url = None then FnErr else FnOk), c_settled_at = ee_settled_at e\<rparr>"

definition add_scores :: "epss_score list \<Rightarrow> (string \<rightharpoonup> epss_score) \<Rightarrow> (string \<rightharpoonup> epss_score)" where
  "add_scores ss m = fold (\<lambda>s m. m(es_CVE s \<mapsto> s)) ss m"

fun epss_loop ::
  "(nat \<Rightarrow> epss_env) \<Rightarrow> nat \<Rightarrow> string list list \<Rightarrow> breaker \<Rightarrow> (string \<rightharpoonup> epss_score) \<Rightarrow> breaker \<times> (string \<rightharpoonup> epss_score)" where
  "epss_loop env n [] b results = (b, results)"
| "epss_loop env n (batch # rest) b results =
     (case Execute b (epss_call (env n) (batch_url batch)) of
        (b1, r) \<Rightarrow>
          epss_loop env (Suc n) rest b1
            (if r = Ran FnOk then add_scores (the (ee_fetch (env n) (batch_url batch))) results else results))"

definition FetchEPSSScores ::
  "(nat \<Rightarrow> epss_env) \<Rightarrow> breaker \<Rightarrow> string list \<Rightarrow> breaker \<times> (string \<rightharpoonup> epss_score)" where
  "FetchEPSSScores env b ids = epss_loop env 0 (batches ids) b Map.empty"

definition score_row :: "time \<Rightarrow> string \<Rightarrow> rat \<Rightarrow> rat \<Rightarrow> vuln_row \<Rightarrow> vuln_row" where
  "score_row now cve ep pc v =
     (if vu_CVEID v = Some cve \<and> \<not> vu_IsResolved v
      then v\<lparr>vu_epss_score := Some ep, vu_epss_percentile := Some pc, vu_epss_updated_at := Some now\<rparr> else v)"

text \<open>The values stored for a CVE: its score arrived, fits the columns, and the statement succeeds.\<close>

definition new_score :: "(string \<Rightarrow> string option) \<Rightarrow> (string \<rightharpoonup> epss_score) \<Rightarrow> string \<Rightarrow> (rat \<times> rat) option" where
  "new_score err scores cve =
     (case scores cve of
        None \<Rightarrow> None
      | Some s \<Rightarrow>
          (case (numeric_4 (es_EPSS s), numeric_4 (es_Percentile s)) of
             (Some ep, Some pc) \<Rightarrow> if err cve = None then Some (ep, pc) else None
           | _ \<Rightarrow> None))"

definition store_score :: "(string \<Rightarrow> string option) \<Rightarrow> time \<Rightarrow> (string \<rightharpoonup> epss_score) \<Rightarrow> string \<Rightarrow> vuln_row list \<Rightarrow> vuln_row list" where
  "store_score err now scores cve vs =
     (case new_score err scores cve of None \<Rightarrow> vs | Some (ep, pc) \<Rightarrow> map (score_row now cve ep pc) vs)"

definition open_cves :: "vuln_row list \<Rightarrow> string list" where
  "open_cves vs = remdups (map (\<lambda>v. the (vu_CVEID v)) (filter (\<lambda>v. vu_CVEID v \<noteq> None \<and> \<not> vu_IsResolved v) vs))"

text \<open>
  The scores are stored in the random order of a map; \<open>order\<close> is that order. Keys of the results
  that are not among the requested identifiers are stored too.
\<close>

definition UpdateEPSSScores ::
  "(nat \<Rightarrow> epss_env) \<Rightarrow> string option \<Rightarrow> (string \<Rightarrow> string option) \<Rightarrow> time \<Rightarrow> ((string \<rightharpoonup> epss_score) \<Rightarrow> string list) \<Rightarrow>
   breaker \<Rightarrow> vuln_row list \<Rightarrow> breaker \<times> vuln_row list" where
  "UpdateEPSSScores env qerr err now order b vs =
     (if qerr \<noteq> None \<or> open_cves vs = [] then (b, vs)
      else case FetchEPSSScores env b (open_cves vs) of
             (b1, scores) \<Rightarrow> (b1, fold (store_score err now scores) (order scores) vs))"

section \<open>Lemmas\<close>

lemma find_snoc: "find P (xs @ [x]) = (case find P xs of Some y \<Rightarrow> Some y | None \<Rightarrow> if P x then Some x else None)"
  by (induction xs) auto

lemma fold_index:
  "fold (\<lambda>e m. m(f e \<mapsto> e)) es m k = (case find (\<lambda>e. f e = k) (rev es) of Some e \<Rightarrow> Some e | None \<Rightarrow> m k)"
  by (induction es arbitrary: m) (auto simp: find_snoc split: option.split)

text \<open>The index and the count belong to the list of entries.\<close>

definition catalog_ok :: "kev_catalog \<Rightarrow> bool" where
  "catalog_ok c \<longleftrightarrow> kc_cveIndex c = kc_cveIndex (buildIndex c) \<and> kc_Count c = int (length (kc_Vulnerabilities c))"

lemma catalog_ok_load: "LoadKEV parse file = Inr c \<Longrightarrow> catalog_ok c"
  by (auto simp: LoadKEV_def catalog_ok_def buildIndex_def split: option.splits)

lemma catalog_ok_start: "catalog_ok (kv_catalog (kev_start parse e b file))"
proof -
  have "catalog_ok empty_catalog" by (simp add: catalog_ok_def buildIndex_def empty_catalog_def)
  then show ?thesis by (auto simp: kev_start_def split: prod.split sum.split dest: catalog_ok_load)
qed

lemma catalog_ok_tick: "catalog_ok (kv_catalog st) \<Longrightarrow> catalog_ok (kv_catalog (kev_tick parse e st))"
  by (auto simp: kev_tick_def Let_def catalog_ok_def buildIndex_def split: prod.split option.split sum.split
      dest!: catalog_ok_load [unfolded catalog_ok_def buildIndex_def])

lemma catalog_ok_run: "catalog_ok (kv_catalog st) \<Longrightarrow> catalog_ok (kv_catalog (fold (kev_tick parse) es st))"
  by (induction es arbitrary: st) (simp_all add: catalog_ok_tick)

lemma catalog_lookup:
  "catalog_ok c \<Longrightarrow> GetKEVEntry (Some c) cve = find (\<lambda>e. toUpper (ke_CVEID e) = toUpper cve) (rev (kc_Vulnerabilities c))"
  by (simp add: catalog_ok_def GetKEVEntry_def buildIndex_def fold_index split: option.split)

lemma IsKEV_iff: "IsKEV c cve \<longleftrightarrow> GetKEVEntry c cve \<noteq> None"
  by (simp add: IsKEV_def GetKEVEntry_def split: option.split)

lemma batches_Cons: "ids \<noteq> [] \<Longrightarrow> batches ids = take 30 ids # batches (drop 30 ids)" "batches [] = []"
  by (simp_all add: batches.simps)

lemma concat_batches: "concat (batches ids) = ids"
  by (induction ids rule: batches.induct) (subst batches.simps, simp)

lemma batches_size: "list_all (\<lambda>b. 0 < length b \<and> length b \<le> 30) (batches ids)"
  by (induction ids rule: batches.induct) (subst batches.simps, simp)

lemma length_batches: "length (batches ids) = (length ids + 29) div 30"
proof (induction ids rule: batches.induct)
  case (1 ids)
  show ?case
  proof (cases "ids = []")
    case False
    then have "0 < length ids" by simp
    moreover have "Suc ((n - 30 + 29) div 30) = (n + 29) div 30" if "0 < n" for n :: nat
    proof (cases "n \<le> 30")
      case True
      then show ?thesis using that div_nat_eqI [of 30 1 "n + 29"] by simp
    next
      case False
      then obtain k where "n = k + 30" by (metis add.commute le_Suc_ex nat_le_linear)
      then show ?thesis using div_add_self1 [of 30 "k + 29"] by (simp add: add.commute add.left_commute)
    qed
    ultimately show ?thesis using 1 [OF False] False by (simp add: batches_Cons)
  qed (simp add: batches_Cons)
qed

text \<open>What the update makes of one row.\<close>

definition rescored_row :: "(string \<Rightarrow> string option) \<Rightarrow> time \<Rightarrow> (string \<rightharpoonup> epss_score) \<Rightarrow> string set \<Rightarrow> vuln_row \<Rightarrow> vuln_row" where
  "rescored_row err now scores keys v =
     (case vu_CVEID v of
        None \<Rightarrow> v
      | Some cve \<Rightarrow>
          if cve \<in> keys then (case new_score err scores cve of None \<Rightarrow> v | Some (ep, pc) \<Rightarrow> score_row now cve ep pc v) else v)"

lemma score_row_simps [simp]:
  "vu_CVEID (score_row now cve ep pc v) = vu_CVEID v" "vu_IsResolved (score_row now cve ep pc v) = vu_IsResolved v"
  "score_row now cve ep pc (score_row now cve ep pc v) = score_row now cve ep pc v"
  by (simp_all add: score_row_def)

lemma store_score_map: "store_score err now scores cve vs = map (rescored_row err now scores {cve}) vs"
proof -
  have "rescored_row err now scores {cve} v =
      (case new_score err scores cve of None \<Rightarrow> v | Some (ep, pc) \<Rightarrow> score_row now cve ep pc v)" for v
    by (simp add: rescored_row_def score_row_def split: option.split)
  then show ?thesis by (cases "new_score err scores cve") (auto simp: store_score_def map_idI)
qed

lemma rescored_row_insert:
  "rescored_row err now scores keys (rescored_row err now scores {cve} v) = rescored_row err now scores (insert cve keys) v"
  by (simp add: rescored_row_def split: option.split)

lemma fold_store_score:
  "fold (store_score err now scores) cves vs = map (rescored_row err now scores (set cves)) vs"
proof (induction cves arbitrary: vs)
  case Nil
  have "rescored_row err now scores {} v = v" for v by (simp add: rescored_row_def split: option.split)
  then show ?case by simp
next
  case (Cons c cs)
  then show ?case by (simp add: store_score_map rescored_row_insert o_def)
qed

section \<open>Properties\<close>

text \<open>C33: At every moment after the start and after any number of refreshes, successful or not, a CVE
  is reported as known exploited exactly when an entry of the catalogue held carries it, case
  ignored, and the entry returned is the last one that does; a refresh whose download fails leaves
  the catalogue as it was.\<close>

theorem kev_lookup_exact:
  "case fold (kev_tick parse) es (kev_start parse e b file) of st \<Rightarrow>
     GetKEVEntry (Some (kv_catalog st)) cve =
       find (\<lambda>x. toUpper (ke_CVEID x) = toUpper cve) (rev (kc_Vulnerabilities (kv_catalog st))) \<and>
     (IsKEV (Some (kv_catalog st)) cve \<longleftrightarrow>
       (\<exists>x \<in> set (kc_Vulnerabilities (kv_catalog st)). toUpper (ke_CVEID x) = toUpper cve)) \<and>
     kc_Count (kv_catalog st) = int (length (kc_Vulnerabilities (kv_catalog st))) \<and>
     (fst (FetchKEV e' (kv_breaker st) (kv_file st)) = None \<or> kv_catalog (kev_tick parse e' st) = kv_catalog st)"
proof -
  define st where "st = fold (kev_tick parse) es (kev_start parse e b file)"
  have ok: "catalog_ok (kv_catalog st)" unfolding st_def by (rule catalog_ok_run [OF catalog_ok_start])
  then have "kc_Count (kv_catalog st) = int (length (kc_Vulnerabilities (kv_catalog st)))" by (simp add: catalog_ok_def)
  moreover have "fst (FetchKEV e' (kv_breaker st) (kv_file st)) = None \<or> kv_catalog (kev_tick parse e' st) = kv_catalog st"
    by (simp add: kev_tick_def split: prod.split option.split)
  ultimately show ?thesis
    using catalog_lookup [OF ok, of cve] by (auto simp: st_def [symmetric] IsKEV_iff find_None_iff)
qed

text \<open>The cache is overwritten before the download is checked: an answer with status 200 that is not
  a catalogue leaves the running catalogue as it was, but a later start without the feed finds no
  catalogue at all.\<close>

theorem bad_feed_destroys_cache:
  assumes "fe_request_err e = None" "fe_answer e = Answer 200 (Some s)" "fe_write e = Written" "parse s = None"
    and "snd (Execute (kv_breaker st) (feed_call e)) = Ran FnOk" "fe_answer e' = NoAnswer"
  shows "kv_catalog (kev_tick parse e st) = kv_catalog st \<and>
         kv_catalog (kev_start parse e' b' (kv_file (kev_tick parse e st))) = empty_catalog"
proof -
  obtain b1 where "Execute (kv_breaker st) (feed_call e) = (b1, Ran FnOk)" using assms(5) by (metis prod.collapse)
  then have "FetchKEV e (kv_breaker st) (kv_file st) = (None, fst (Execute (kv_breaker st) (feed_call e)), Some s)"
    using assms by (simp add: FetchKEV_def)
  then have tick: "kev_tick parse e st = st\<lparr>kv_breaker := fst (Execute (kv_breaker st) (feed_call e)), kv_file := Some s\<rparr>"
    using assms(4) by (simp add: kev_tick_def LoadKEV_def)
  have "snd (snd (FetchKEV e' b' (Some s))) = Some s"
    using assms(6) by (simp add: FetchKEV_def split: prod.split option.split)
  then show ?thesis using tick assms(4) by (auto simp: kev_start_def LoadKEV_def split: prod.splits)
qed

text \<open>The loop that fetches EPSS scores ends after one request per 30 identifiers, and its requests
  carry all identifiers, in order, none twice and none left out.\<close>

theorem epss_batches_cover:
  "concat (batches ids) = ids \<and> length (batches ids) = (length ids + 29) div 30 \<and>
   list_all (\<lambda>b. 0 < length b \<and> length b \<le> 30) (batches ids)"
  by (intro conjI concat_batches length_batches batches_size)


definition demo_feed :: "feed_answer \<Rightarrow> feed_env" where
  "demo_feed a = \<lparr>fe_request_err = None, fe_answer = a, fe_admitted_at = 0, fe_gated_at = 0, fe_settled_at = 0, fe_write = Written\<rparr>"

definition demo_kev :: kev_state where
  "demo_kev = \<lparr>kv_breaker = breaker_New kevBreaker_options, kv_file = Some ''ok'', kv_catalog = empty_catalog\<lparr>kc_Count := 7\<rparr>\<rparr>"

theorem bad_feed_destroys_cache_witness:
  "kc_Count (kv_catalog (kev_tick (\<lambda>s. if s = ''ok'' then Some empty_catalog else None) (demo_feed (Answer 200 (Some ''<html>''))) demo_kev)) = 7 \<and>
   kv_catalog (kev_start (\<lambda>s. if s = ''ok'' then Some empty_catalog else None) (demo_feed NoAnswer) (breaker_New kevBreaker_options)
     (kv_file (kev_tick (\<lambda>s. if s = ''ok'' then Some empty_catalog else None) (demo_feed (Answer 200 (Some ''<html>''))) demo_kev))) = empty_catalog"
proof -
  let ?parse = "\<lambda>s. if s = ''ok'' then Some empty_catalog else None"
  have "snd (Execute (kv_breaker demo_kev) (feed_call (demo_feed (Answer 200 (Some ''<html>''))))) = Ran FnOk"
    by (simp add: demo_kev_def demo_feed_def feed_call_def breaker_New_def kevBreaker_options_def Execute_def exec_admit_def exec_gate_def
        failures_reached_def)
  from bad_feed_destroys_cache [of "demo_feed (Answer 200 (Some ''<html>''))" "''<html>''" ?parse demo_kev "demo_feed NoAnswer"
      "breaker_New kevBreaker_options", OF _ _ _ _ this]
  show ?thesis by (simp add: demo_feed_def demo_kev_def)
qed

definition demo_cve :: vuln_row where
  "demo_cve = \<lparr>vu_ID = ''v1'', vu_DeviceID = Some ''d1'', vu_ScanID = None, vu_CVEID = Some ''CVE-1'', vu_CVSSScore = None,
     vu_Severity = ''high'', vu_Title = ''t'', vu_Description = None, vu_AffectedComponent = None, vu_Remediation = None, vu_IsKEV = False,
     vu_DiscoveredAt = 0, vu_ResolvedAt = None, vu_IsResolved = False, vu_epss_score = None, vu_epss_percentile = None,
     vu_epss_updated_at = None\<rparr>"

definition demo_epss :: "nat \<Rightarrow> epss_env" where
  "demo_epss n = \<lparr>ee_fetch = (\<lambda>_. Some [\<lparr>es_CVE = ''CVE-1'', es_EPSS = 1 / 2, es_Percentile = 1, es_Date = []\<rparr>]),
     ee_admitted_at = 0, ee_gated_at = 0, ee_settled_at = 0\<rparr>"

lemma demo_scores:
  "snd (FetchEPSSScores demo_epss (breaker_New epssBreaker_options) [''CVE-1'']) =
     [''CVE-1'' \<mapsto> \<lparr>es_CVE = ''CVE-1'', es_EPSS = 1 / 2, es_Percentile = 1, es_Date = []\<rparr>]"
  by (simp add: FetchEPSSScores_def batches_Cons demo_epss_def epss_call_def add_scores_def breaker_New_def epssBreaker_options_def
      Execute_def exec_admit_def exec_gate_def exec_settle_def failures_reached_def Let_def split: prod.split)


end
