(* ===== verification/Migrations.thy ===== *)
theory Migrations
  imports Encoding "HOL-Library.List_Lexorder" "HOL-Library.Char_ord"
begin

text \<open>
  The database package \<open>backend/db/db.go\<close>: the migration runner, the search for its directory, the
  settings of the connection pool and the health monitor.

  The schema is abstract: \<open>sql\<close> says what executing the text of a migration makes of it, or that it
  fails. The table \<open>schema_migrations\<close> is kept in the order of its insertions. A migration runs in
  a transaction, so a failure before the commit leaves nothing behind; when the commit itself
  reports an error, the server may or may not have committed, which is a parameter
  (\<open>CommitError\<close>). Strings are ordered by their bytes, as in Go.
\<close>

section \<open>Migrations on disk\<close>

record migration =
  mg_Version :: string
  mg_Path :: string
  mg_Content :: string
  mg_Checksum :: string

text \<open>A directory entry: its name, and its content (\<open>None\<close> when reading fails) unless it is a directory.\<close>

datatype dir_entry = SubDir string | File string "string option"

datatype migrate_error =
    ReadDirError string | ReadFileError string | CreateTableError string | ReadTableError string
  | Modified string string string | BeginError string string | ExecError string | RecordError string string
  | CommitFailed string string | SlicePanic string

fun entry_name :: "dir_entry \<Rightarrow> string" where
  "entry_name (SubDir n) = n"
| "entry_name (File n c) = n"

fun read_entries :: "(string \<Rightarrow> string) \<Rightarrow> string \<Rightarrow> dir_entry list \<Rightarrow> migrate_error + migration list" where
  "read_entries sha dir [] = Inr []"
| "read_entries sha dir (SubDir n # es) = read_entries sha dir es"
| "read_entries sha dir (File n c # es) =
     (if \<not> hasSuffix n ''.sql'' then read_entries sha dir es
      else case c of
             None \<Rightarrow> Inl (ReadFileError n)
           | Some content \<Rightarrow>
               (case read_entries sha dir es of
                  Inl e \<Rightarrow> Inl e
                | Inr ms \<Rightarrow> Inr (\<lparr>mg_Version = n, mg_Path = dir @ ''/'' @ n, mg_Content = content,
                                 mg_Checksum = hex_encode (sha content)\<rparr> # ms)))"

definition DiscoverMigrations ::
  "(string \<Rightarrow> string) \<Rightarrow> string \<Rightarrow> (string + dir_entry list) \<Rightarrow> migrate_error + migration list" where
  "DiscoverMigrations sha dir entries =
     (case entries of
        Inl e \<Rightarrow> Inl (ReadDirError e)
      | Inr es \<Rightarrow> (case read_entries sha dir es of Inl e \<Rightarrow> Inl e | Inr ms \<Rightarrow> Inr (sort_key mg_Version ms)))"

section \<open>The runner\<close>

record 's database =
  db_schema :: 's
  db_table :: bool
  db_applied :: "(string \<times> string) list"

datatype commit_outcome = CommitOk | CommitError string bool

record 's migrate_env =
  me_sql :: "string \<Rightarrow> 's \<Rightarrow> 's option"
  me_create_err :: "string option"
  me_read_err :: "string option"
  me_begin_err :: "string \<Rightarrow> string option"
  me_exec_err :: "string \<Rightarrow> string option"
  me_record_err :: "string \<Rightarrow> string option"
  me_commit :: "string \<Rightarrow> commit_outcome"

definition ensureMigrationTable :: "string option \<Rightarrow> 's database \<Rightarrow> migrate_error option \<times> 's database" where
  "ensureMigrationTable err db =
     (case err of Some e \<Rightarrow> (Some (CreateTableError e), db) | None \<Rightarrow> (None, db\<lparr>db_table := True\<rparr>))"

definition appliedMigrations :: "string option \<Rightarrow> 's database \<Rightarrow> migrate_error + (string \<rightharpoonup> string)" where
  "appliedMigrations err db =
     (case (if db_table db then err else Some ''pq: relation does not exist'') of
        Some e \<Rightarrow> Inl (ReadTableError e)
      | None \<Rightarrow> Inr (map_of (rev (db_applied db))))"

text \<open>One migration in its transaction. The primary key refuses a version that is already recorded.\<close>

definition apply_migration :: "'s migrate_env \<Rightarrow> migration \<Rightarrow> 's database \<Rightarrow> migrate_error option \<times> 's database" where
  "apply_migration ev m db =
     (case me_begin_err ev (mg_Version m) of
        Some e \<Rightarrow> (Some (BeginError (mg_Version m) e), db)
      | None \<Rightarrow>
          (case (if me_exec_err ev (mg_Version m) = None then me_sql ev (mg_Content m) (db_schema db) else None) of
             None \<Rightarrow> (Some (ExecError (mg_Version m)), db)
           | Some s \<Rightarrow>
               (case (if mg_Version m \<in> fst ` set (db_applied db) then Some ''pq: duplicate key value'' else me_record_err ev (mg_Version m)) of
                  Some e \<Rightarrow> (Some (RecordError (mg_Version m) e), db)
                | None \<Rightarrow>
                    (let db1 = db\<lparr>db_schema := s, db_applied := db_applied db @ [(mg_Version m, mg_Checksum m)]\<rparr> in
                     case me_commit ev (mg_Version m) of
                       CommitOk \<Rightarrow> (None, db1)
                     | CommitError e done \<Rightarrow> (Some (CommitFailed (mg_Version m) e), if done then db1 else db)))))"

text \<open>The message about a modified file quotes the first 12 characters of both checksums.\<close>

definition modified_error :: "migration \<Rightarrow> string \<Rightarrow> migrate_error" where
  "modified_error m prev =
     (if length prev < 12 \<or> length (mg_Checksum m) < 12 then SlicePanic (mg_Version m)
      else Modified (mg_Version m) (take 12 prev) (take 12 (mg_Checksum m)))"

fun migrate_loop ::
  "'s migrate_env \<Rightarrow> (string \<rightharpoonup> string) \<Rightarrow> migration list \<Rightarrow> 's database \<Rightarrow> migrate_error option \<times> 's database" where
  "migrate_loop ev applied [] db = (None, db)"
| "migrate_loop ev applied (m # ms) db =
     (case applied (mg_Version m) of
        Some prev \<Rightarrow>
          if prev \<noteq> mg_Checksum m then (Some (modified_error m prev), db)
          else migrate_loop ev applied ms db
      | None \<Rightarrow>
          (case apply_migration ev m db of
             (Some e, db1) \<Rightarrow> (Some e, db1)
           | (None, db1) \<Rightarrow> migrate_loop ev applied ms db1))"

definition RunMigrations ::
  "'s migrate_env \<Rightarrow> migrate_error + migration list \<Rightarrow> 's database \<Rightarrow> migrate_error option \<times> 's database" where
  "RunMigrations ev discovered db =
     (case discovered of
        Inl e \<Rightarrow> (Some e, db)
      | Inr ms \<Rightarrow>
          (case ensureMigrationTable (me_create_err ev) db of
             (Some e, db1) \<Rightarrow> (Some e, db1)
           | (None, db1) \<Rightarrow>
               (case appliedMigrations (me_read_err ev) db1 of
                  Inl e \<Rightarrow> (Some e, db1)
                | Inr applied \<Rightarrow> migrate_loop ev applied ms db1)))"

text \<open>The directory of the migrations; \<open>None\<close> ends the process.\<close>

definition findMigrationsDir :: "string option \<Rightarrow> string option \<Rightarrow> (string \<Rightarrow> bool) \<Rightarrow> string option" where
  "findMigrationsDir env execDir is_dir =
     (let candidates = [''db/migrations'', ''backend/db/migrations'', ''../db/migrations'']; e = (case env of None \<Rightarrow> [] | Some v \<Rightarrow> v) in
      if e \<noteq> [] \<and> is_dir e then Some e
      else case find is_dir candidates of
             Some d \<Rightarrow> Some d
           | None \<Rightarrow>
               (case execDir of
                  None \<Rightarrow> None
                | Some x \<Rightarrow> if is_dir (x @ ''/db/migrations'') then Some (x @ ''/db/migrations'') else None))"

section \<open>Pool and monitor\<close>

definition pool_settings :: "int \<Rightarrow> int \<Rightarrow> duration \<Rightarrow> int \<times> int \<times> duration" where
  "pool_settings maxOpen maxIdle lifetime =
     (if maxOpen \<le> 0 then 25 else maxOpen, if maxIdle \<le> 0 then 5 else maxIdle, if lifetime \<le> 0 then 5 * minute else lifetime)"

record db_monitor =
  mo_healthy :: int
  mo_lastChecked :: time

text \<open>One tick: \<open>ping 0\<close> is the first ping, \<open>ping 1\<close> to \<open>ping 5\<close> are the retries.\<close>

definition health_check :: "(nat \<Rightarrow> bool) \<Rightarrow> time \<Rightarrow> db_monitor \<Rightarrow> db_monitor" where
  "health_check ping now m =
     (let healthy = (ping 0 \<or> list_ex ping [1..<6])
      in m\<lparr>mo_healthy := (if healthy then 1 else 0), mo_lastChecked := now\<rparr>)"

definition NewDBMonitor :: db_monitor where
  "NewDBMonitor = \<lparr>mo_healthy = 1, mo_lastChecked = zero_time\<rparr>"

definition db_IsHealthy :: "db_monitor option \<Rightarrow> bool" where
  "db_IsHealthy m = (case m of None \<Rightarrow> False | Some x \<Rightarrow> mo_healthy x = 1)"

section \<open>Lemmas\<close>

text \<open>Executing migrations one after another on a schema.\<close>

fun run_sql :: "(string \<Rightarrow> 's \<Rightarrow> 's option) \<Rightarrow> migration list \<Rightarrow> 's \<Rightarrow> 's option" where
  "run_sql sql [] s = Some s"
| "run_sql sql (m # ms) s = (case sql (mg_Content m) s of None \<Rightarrow> None | Some s' \<Rightarrow> run_sql sql ms s')"

lemma run_sql_snoc: "run_sql sql (ms @ [m]) s = Option.bind (run_sql sql ms s) (sql (mg_Content m))"
  by (induction ms arbitrary: s) (auto split: option.split)

text \<open>
  The database after any number of runs over the files \<open>ms\<close>: the first \<open>k\<close> of them are recorded,
  and the schema is what executing just these, once each and in order, gives.
\<close>

definition migrated :: "(string \<Rightarrow> 's \<Rightarrow> 's option) \<Rightarrow> migration list \<Rightarrow> 's \<Rightarrow> nat \<Rightarrow> 's database \<Rightarrow> bool" where
  "migrated sql ms s0 k db \<longleftrightarrow> k \<le> length ms \<and>
     db_applied db = map (\<lambda>m. (mg_Version m, mg_Checksum m)) (take k ms) \<and>
     run_sql sql (take k ms) s0 = Some (db_schema db)"

lemma migrated_frame: "migrated sql ms s0 k (db\<lparr>db_table := b\<rparr>) = migrated sql ms s0 k db"
  by (simp add: migrated_def)

lemma apply_migration_step:
  assumes "migrated sql ms s0 k db" "k < length ms" "me_sql ev = sql"
  shows "case apply_migration ev (ms ! k) db of
           (None, db') \<Rightarrow> migrated sql ms s0 (Suc k) db'
         | (Some e, db') \<Rightarrow> migrated sql ms s0 k db' \<or> migrated sql ms s0 (Suc k) db'"
  using assms
  by (auto simp: apply_migration_def migrated_def Let_def take_Suc_conv_app_nth run_sql_snoc
      split: option.split commit_outcome.split)

lemma map_of_recorded:
  assumes "distinct (map mg_Version ms)" "i < length ms"
  shows "map_of (rev (map (\<lambda>m. (mg_Version m, mg_Checksum m)) (take k ms))) (mg_Version (ms ! i)) =
    (if i < k then Some (mg_Checksum (ms ! i)) else None)"
proof -
  let ?kv = "\<lambda>m. (mg_Version m, mg_Checksum m)"
  have d: "distinct (map fst (rev (map ?kv (take k ms))))"
    using assms(1) by (simp add: o_def rev_map [symmetric] take_map [symmetric])
  show ?thesis
  proof (cases "i < k")
    case True
    then have "ms ! i \<in> set (take k ms)" using assms(2) by (metis in_set_conv_nth length_take min_less_iff_conj nth_take)
    then have "?kv (ms ! i) \<in> set (rev (map ?kv (take k ms)))" by simp
    with d True show ?thesis by simp
  next
    case False
    then have "mg_Version (ms ! i) \<notin> set (take k (map mg_Version ms))"
      using assms by (fastforce simp: in_set_conv_nth distinct_conv_nth)
    then have "mg_Version (ms ! i) \<notin> fst ` set (rev (map ?kv (take k ms)))"
      by (simp add: take_map image_image)
    with False show ?thesis by (simp add: map_of_eq_None_iff [THEN iffD2])
  qed
qed

lemma migrate_loop_inv:
  assumes ms: "distinct (map mg_Version ms)" and sql: "me_sql ev = sql"
    and "k0 \<le> length ms" "migrated sql ms s0 (max k0 j) db" "j \<le> length ms"
  shows "case migrate_loop ev (map_of (rev (map (\<lambda>m. (mg_Version m, mg_Checksum m)) (take k0 ms)))) (drop j ms) db of
           (None, db') \<Rightarrow> migrated sql ms s0 (length ms) db'
         | (Some e, db') \<Rightarrow> \<exists>k' \<ge> k0. migrated sql ms s0 k' db'"
  using assms(3-)
proof (induction "length ms - j" arbitrary: j db)
  case 0
  then show ?case by (simp add: max_absorb2)
next
  case (Suc n)
  then have j: "j < length ms" by simp
  then have dj: "drop j ms = ms ! j # drop (Suc j) ms" by (simp add: Cons_nth_drop_Suc)
  note rec = map_of_recorded [OF ms j, of k0]
  have next_ih: "case migrate_loop ev (map_of (rev (map (\<lambda>m. (mg_Version m, mg_Checksum m)) (take k0 ms)))) (drop (Suc j) ms) db' of
      (None, db') \<Rightarrow> migrated sql ms s0 (length ms) db' | (Some e, db') \<Rightarrow> \<exists>k' \<ge> k0. migrated sql ms s0 k' db'"
    if "migrated sql ms s0 (max k0 (Suc j)) db'" for db'
    using Suc.hyps(1) [of "Suc j" db'] Suc.hyps(2) Suc.prems(1) j that by simp
  show ?case
  proof (cases "j < k0")
    case True
    with Suc.prems(2) have "migrated sql ms s0 (max k0 (Suc j)) db" by (simp add: max_absorb1)
    with True show ?thesis using next_ih rec by (simp add: dj)
  next
    case False
    with Suc.prems(2) have "migrated sql ms s0 j db" by (simp add: max_absorb2)
    note step = apply_migration_step [OF this j sql]
    obtain e db1 where ap: "apply_migration ev (ms ! j) db = (e, db1)" by fastforce
    show ?thesis
    proof (cases e)
      case None
      with step ap False have "migrated sql ms s0 (max k0 (Suc j)) db1" by (simp add: max_absorb2)
      from next_ih [OF this] show ?thesis using False rec ap None by (simp add: dj)
    next
      case (Some err)
      with step ap have "migrated sql ms s0 j db1 \<or> migrated sql ms s0 (Suc j) db1" by simp
      then have "\<exists>k' \<ge> k0. migrated sql ms s0 k' db1" using False by (metis le_Suc_eq not_less)
      then show ?thesis using False rec ap Some by (simp add: dj)
    qed
  qed
qed

lemma RunMigrations_inv:
  assumes "distinct (map mg_Version ms)" "me_sql ev = sql" "migrated sql ms s0 k db"
  shows "case RunMigrations ev (Inr ms) db of
           (None, db') \<Rightarrow> migrated sql ms s0 (length ms) db'
         | (Some e, db') \<Rightarrow> \<exists>k' \<ge> k. migrated sql ms s0 k' db'"
proof -
  have k: "k \<le> length ms" and a: "db_applied db = map (\<lambda>m. (mg_Version m, mg_Checksum m)) (take k ms)"
    using assms(3) by (simp_all add: migrated_def)
  have "migrated sql ms s0 (max k 0) (db\<lparr>db_table := True\<rparr>)" using assms(3) by (simp add: migrated_frame)
  from migrate_loop_inv [OF assms(1,2) k this] assms(3) show ?thesis
    by (auto simp: RunMigrations_def ensureMigrationTable_def appliedMigrations_def a migrated_frame split: option.splits)
qed

text \<open>Any number of runs over the same files, each with failures of its own.\<close>

fun migration_runs :: "migration list \<Rightarrow> 's migrate_env list \<Rightarrow> 's database \<Rightarrow> 's database" where
  "migration_runs ms [] db = db"
| "migration_runs ms (ev # evs) db = migration_runs ms evs (snd (RunMigrations ev (Inr ms) db))"

lemma migration_runs_inv:
  assumes "distinct (map mg_Version ms)" "\<forall>ev \<in> set evs. me_sql ev = sql" "migrated sql ms s0 k db"
  shows "\<exists>k' \<ge> k. migrated sql ms s0 k' (migration_runs ms evs db)"
  using assms(2,3)
proof (induction evs arbitrary: k db)
  case (Cons ev evs)
  obtain e db' where r: "RunMigrations ev (Inr ms) db = (e, db')" by fastforce
  obtain k' where "k \<le> k'" "migrated sql ms s0 k' db'"
    using RunMigrations_inv [OF assms(1) _ Cons.prems(2), of ev] Cons.prems r
    by (cases e) (auto simp: migrated_def)
  with Cons.IH [of k' db'] Cons.prems(1) r show ?case by (auto intro: order_trans)
qed auto

lemma migrate_loop_append:
  "migrate_loop ev applied (xs @ ys) db =
     (case migrate_loop ev applied xs db of (None, db1) \<Rightarrow> migrate_loop ev applied ys db1 | (Some e, db1) \<Rightarrow> (Some e, db1))"
  by (induction xs arbitrary: db) (auto split: prod.split option.split)

text \<open>Whatever a run of the loop does, it executes and records a first part of the unrecorded files.\<close>

lemma migrate_loop_new:
  assumes "migrate_loop ev applied ms db = (r, db')"
  shows "\<exists>k. let new = take k (filter (\<lambda>x. applied (mg_Version x) = None) ms) in
    db_applied db' = db_applied db @ map (\<lambda>x. (mg_Version x, mg_Checksum x)) new \<and>
    run_sql (me_sql ev) new (db_schema db) = Some (db_schema db')"
  using assms
proof (induction ms arbitrary: db)
  case (Cons m ms)
  show ?case
  proof (cases "applied (mg_Version m)")
    case (Some prev)
    then show ?thesis
      using Cons by (cases "prev = mg_Checksum m") (auto simp: Let_def intro: exI [of _ 0])
  next
    case None
    obtain e db1 where ap: "apply_migration ev m db = (e, db1)" by fastforce
    have one: "db1 = db \<and> e \<noteq> None \<or> db_applied db1 = db_applied db @ [(mg_Version m, mg_Checksum m)] \<and>
        me_sql ev (mg_Content m) (db_schema db) = Some (db_schema db1)"
      using ap by (auto simp: apply_migration_def Let_def split: option.splits if_splits commit_outcome.splits)
    show ?thesis
    proof (cases e)
      case (Some x)
      then have db': "db' = db1" using Cons.prems None ap by simp
      show ?thesis using one None db' by (auto simp: Let_def intro: exI [of _ 0] exI [of _ 1])
    next
      case e: None
      then have "migrate_loop ev applied ms db1 = (r, db')" using Cons.prems None ap by simp
      from Cons.IH [OF this] obtain k where k: "db_applied db' = db_applied db1 @
          map (\<lambda>x. (mg_Version x, mg_Checksum x)) (take k (filter (\<lambda>x. applied (mg_Version x) = None) ms))"
        "run_sql (me_sql ev) (take k (filter (\<lambda>x. applied (mg_Version x) = None) ms)) (db_schema db1) = Some (db_schema db')"
        by (auto simp: Let_def)
      show ?thesis using one e None k by (auto simp: Let_def intro!: exI [of _ "Suc k"])
    qed
  qed
qed (auto intro: exI [of _ 0])

text \<open>A run in which no statement fails.\<close>

definition calm_run :: "'s migrate_env \<Rightarrow> bool" where
  "calm_run ev \<longleftrightarrow> me_create_err ev = None \<and> me_read_err ev = None \<and>
     (\<forall>v. me_begin_err ev v = None \<and> me_exec_err ev v = None \<and> me_record_err ev v = None \<and> me_commit ev v = CommitOk) \<and>
     (\<forall>c s. me_sql ev c s \<noteq> None)"

lemma migrate_loop_calm:
  assumes "calm_run ev" "distinct (map mg_Version ms)"
    and "\<forall>m \<in> set ms. applied (mg_Version m) = Some (mg_Checksum m) \<or> applied (mg_Version m) = None"
    and "\<forall>m \<in> set ms. applied (mg_Version m) = None \<longrightarrow> mg_Version m \<notin> fst ` set (db_applied db)"
  shows "fst (migrate_loop ev applied ms db) = None \<and>
    map fst (db_applied (snd (migrate_loop ev applied ms db))) =
      map fst (db_applied db) @ map mg_Version (filter (\<lambda>x. applied (mg_Version x) = None) ms)"
  using assms(2-)
proof (induction ms arbitrary: db)
  case (Cons m ms)
  show ?case
  proof (cases "applied (mg_Version m)")
    case (Some prev)
    then show ?thesis using Cons by auto
  next
    case None
    obtain s where "me_sql ev (mg_Content m) (db_schema db) = Some s" using assms(1) by (metis calm_run_def not_None_eq)
    then have "apply_migration ev m db =
        (None, db\<lparr>db_schema := s, db_applied := db_applied db @ [(mg_Version m, mg_Checksum m)]\<rparr>)"
      using None assms(1) Cons.prems by (simp add: apply_migration_def calm_run_def Let_def)
    moreover have "\<forall>x \<in> set ms. mg_Version x \<noteq> mg_Version m" using Cons.prems(1) by (auto simp: image_iff)
    ultimately show ?thesis using None Cons.prems Cons.IH
        [of "db\<lparr>db_schema := s, db_applied := db_applied db @ [(mg_Version m, mg_Checksum m)]\<rparr>"] by auto
  qed
qed simp

text \<open>What discovery finds.\<close>

lemma read_entries_versions:
  "read_entries sha dir es = Inr ms \<Longrightarrow> map mg_Version ms = map entry_name (filter (\<lambda>e. (case e of SubDir _ \<Rightarrow> False | File n _ \<Rightarrow> hasSuffix n ''.sql'')) es)"
  by (induction sha dir es arbitrary: ms rule: read_entries.induct) (auto split: if_splits option.splits sum.splits)

lemma distinct_map_filter: "distinct (map f xs) \<Longrightarrow> distinct (map f (filter P xs))"
  by (induction xs) auto

lemma discovered_sorted:
  assumes "DiscoverMigrations sha dir (Inr es) = Inr ms" "distinct (map entry_name es)"
  shows "distinct (map mg_Version ms)" "sorted (map mg_Version ms)"
proof -
  obtain ns where ns: "read_entries sha dir es = Inr ns" "ms = sort_key mg_Version ns"
    using assms(1) by (auto simp: DiscoverMigrations_def split: sum.splits)
  have "distinct (map mg_Version ns)"
    using read_entries_versions [OF ns(1)] assms(2) by (simp add: distinct_map_filter)
  then show "distinct (map mg_Version ms)"
    unfolding ns(2) by (simp add: distinct_map)
  show "sorted (map mg_Version ms)" by (simp add: ns(2))
qed

section \<open>Properties\<close>

text \<open>C12: Every migration is executed exactly once, in the order of the file names: after any number of
  runs over the files of a directory, with statements, transactions and commits failing anywhere
  and commits whose answer is lost, the table records a first part of the files and the schema is
  what executing just these once gives; after a run without error that part is all of them.\<close>

theorem migrations_exactly_once:
  assumes "DiscoverMigrations sha dir (Inr es) = Inr ms" "distinct (map entry_name es)"
    and "\<forall>ev \<in> set (evs @ [final]). me_sql ev = sql"
    and "db_applied db = []" "db' = migration_runs ms evs db"
  shows "sorted (map mg_Version ms) \<and> (\<exists>k. migrated sql ms (db_schema db) k db') \<and>
    (case RunMigrations final (Inr ms) db' of
       (None, db'') \<Rightarrow> migrated sql ms (db_schema db) (length ms) db''
     | (Some e, db'') \<Rightarrow> \<exists>k. migrated sql ms (db_schema db) k db'')"
proof -
  note ms = discovered_sorted [OF assms(1,2)]
  have "migrated sql ms (db_schema db) 0 db" using assms(4) by (simp add: migrated_def)
  from migration_runs_inv [OF ms(1) _ this, of evs] assms(3,5)
  obtain k where k: "migrated sql ms (db_schema db) k db'" by auto
  with RunMigrations_inv [OF ms(1) _ k, of final] assms(3) ms(2) show ?thesis
    by (auto split: prod.splits option.splits)
qed

text \<open>C32: A file that was changed after it was recorded stops the run. Whatever else fails, the run ends
  with an error; the rows of the table stay, and what it adds and executes is a first part of the
  unrecorded files before the changed one, so neither that file nor any later one is executed. If
  no statement fails and the files before it are unchanged, they are all applied and the error names the
  changed file with the first 12 characters of the recorded and the present checksum.\<close>

theorem modified_migration_refused:
  assumes "distinct (map fst (db_applied db))" "distinct (map mg_Version (pre @ m # post))"
    and "(mg_Version m, prev) \<in> set (db_applied db)" "prev \<noteq> mg_Checksum m" "12 \<le> length prev" "12 \<le> length (mg_Checksum m)"
    and "RunMigrations ev (Inr (pre @ m # post)) db = (r, db')"
  shows "r \<noteq> None \<and>
    (\<exists>k. let new = take k (filter (\<lambda>x. mg_Version x \<notin> fst ` set (db_applied db)) pre) in
       db_applied db' = db_applied db @ map (\<lambda>x. (mg_Version x, mg_Checksum x)) new \<and>
       run_sql (me_sql ev) new (db_schema db) = Some (db_schema db')) \<and>
    (calm_run ev \<and> (\<forall>x \<in> set pre. \<forall>old. (mg_Version x, old) \<in> set (db_applied db) \<longrightarrow> old = mg_Checksum x) \<longrightarrow>
       r = Some (Modified (mg_Version m) (take 12 prev) (take 12 (mg_Checksum m))) \<and>
       set (map fst (db_applied db')) = set (map fst (db_applied db)) \<union> mg_Version ` set pre)"
proof -
  let ?app = "map_of (rev (db_applied db))"
  have rec: "?app v = Some c \<longleftrightarrow> (v, c) \<in> set (db_applied db)" for v c
    using assms(1) by (simp add: map_of_eq_Some_iff rev_map [symmetric])
  have app: "?app v = None \<longleftrightarrow> v \<notin> fst ` set (db_applied db)" for v by (simp add: map_of_eq_None_iff)
  have m: "migrate_loop ev ?app (m # post) d = (Some (Modified (mg_Version m) (take 12 prev) (take 12 (mg_Checksum m))), d)" for d
    using assms(4-6) rec [THEN iffD2, OF assms(3)] by (simp add: modified_error_def)
  define db1 where "db1 = db\<lparr>db_table := True\<rparr>"
  have run: "r \<noteq> None \<and> db' \<in> {db, db1} \<or>
      (r, db') = (case migrate_loop ev ?app pre db1 of
         (None, d) \<Rightarrow> (Some (Modified (mg_Version m) (take 12 prev) (take 12 (mg_Checksum m))), d) | (Some e, d) \<Rightarrow> (Some e, d))"
    using assms(7) unfolding db1_def
    by (auto simp: RunMigrations_def ensureMigrationTable_def appliedMigrations_def migrate_loop_append m
        simp del: migrate_loop.simps split: option.splits prod.splits)
  have "\<exists>k. let new = take k (filter (\<lambda>x. mg_Version x \<notin> fst ` set (db_applied db)) pre) in
       db_applied db' = db_applied db @ map (\<lambda>x. (mg_Version x, mg_Checksum x)) new \<and>
       run_sql (me_sql ev) new (db_schema db) = Some (db_schema db')"
  proof (cases "db' \<in> {db, db1}")
    case True
    then show ?thesis by (auto simp: db1_def intro: exI [of _ 0])
  next
    case False
    then obtain e where "migrate_loop ev ?app pre db1 = (e, db')" using run by (auto split: prod.splits option.splits)
    from migrate_loop_new [OF this] show ?thesis unfolding app by (simp add: db1_def)
  qed
  moreover have "r = Some (Modified (mg_Version m) (take 12 prev) (take 12 (mg_Checksum m))) \<and>
       set (map fst (db_applied db')) = set (map fst (db_applied db)) \<union> mg_Version ` set pre"
    if "calm_run ev" "\<forall>x \<in> set pre. \<forall>old. (mg_Version x, old) \<in> set (db_applied db) \<longrightarrow> old = mg_Checksum x"
  proof -
    note calm = that(1)
    have unchanged: "\<forall>x \<in> set pre. ?app (mg_Version x) = Some (mg_Checksum x) \<or> ?app (mg_Version x) = None"
      using that(2) rec by (metis not_Some_eq)
    have "(r, db') = migrate_loop ev ?app (pre @ m # post) db1"
      using assms(7) that(1) by (simp add: RunMigrations_def ensureMigrationTable_def appliedMigrations_def calm_run_def db1_def
          del: migrate_loop.simps)
    moreover obtain d where d: "migrate_loop ev ?app pre db1 = (None, d)" "map fst (db_applied d) =
        map fst (db_applied db1) @ map mg_Version (filter (\<lambda>x. ?app (mg_Version x) = None) pre)"
      using migrate_loop_calm [OF calm _ unchanged, of db1] assms(2)
      by (cases "migrate_loop ev ?app pre db1") (auto simp: app db1_def)
    ultimately have r: "r = Some (Modified (mg_Version m) (take 12 prev) (take 12 (mg_Checksum m)))" "db' = d"
      by (simp_all add: migrate_loop_append m del: migrate_loop.simps)
    have "set (map fst (db_applied d)) = set (map fst (db_applied db)) \<union> mg_Version ` set pre"
      unfolding d(2) app by (auto simp: db1_def)
    with r show ?thesis by simp
  qed
  ultimately show ?thesis using run by (auto split: prod.splits option.splits)
qed

section \<open>A run on paper\<close>

definition demo_mig_env :: "(string \<Rightarrow> commit_outcome) \<Rightarrow> string migrate_env" where
  "demo_mig_env commit = \<lparr>me_sql = (\<lambda>c s. Some (s @ c)), me_create_err = None, me_read_err = None, me_begin_err = (\<lambda>_. None),
     me_exec_err = (\<lambda>_. None), me_record_err = (\<lambda>_. None), me_commit = commit\<rparr>"

definition demo_entries :: "dir_entry list" where
  "demo_entries = [File ''2.sql'' (Some ''b''), File ''1.sql'' (Some ''a''), SubDir ''old'', File ''x.md'' None]"

definition demo_migrations :: "migration list" where
  "demo_migrations = [\<lparr>mg_Version = ''1.sql'', mg_Path = ''m/1.sql'', mg_Content = ''a'', mg_Checksum = ''61''\<rparr>,
     \<lparr>mg_Version = ''2.sql'', mg_Path = ''m/2.sql'', mg_Content = ''b'', mg_Checksum = ''62''\<rparr>]"

lemma demo_discovered: "DiscoverMigrations (\<lambda>s. s) ''m'' (Inr demo_entries) = Inr demo_migrations"
  by (simp add: DiscoverMigrations_def demo_entries_def demo_migrations_def hasSuffix_def hex_encode.simps hex_digit_def less_char_def
      char_of_def bit_0)

text \<open>The first run loses the answer to the commit of the first file; the second one goes through.\<close>

theorem migrations_exactly_once_witness:
  "db_schema (snd (RunMigrations (demo_mig_env (\<lambda>_. CommitOk)) (Inr demo_migrations)
     (migration_runs demo_migrations [demo_mig_env (\<lambda>_. CommitError ''timeout'' True)]
       \<lparr>db_schema = ''s'', db_table = False, db_applied = []\<rparr>))) = ''sab''"
proof -
  let ?db = "\<lparr>db_schema = ''s'', db_table = False, db_applied = []\<rparr>"
  let ?db' = "migration_runs demo_migrations [demo_mig_env (\<lambda>_. CommitError ''timeout'' True)] ?db"
  have "fst (RunMigrations (demo_mig_env (\<lambda>_. CommitOk)) (Inr demo_migrations) ?db') = None"
    by (simp add: RunMigrations_def demo_mig_env_def demo_migrations_def ensureMigrationTable_def appliedMigrations_def
        apply_migration_def Let_def)
  moreover have "case RunMigrations (demo_mig_env (\<lambda>_. CommitOk)) (Inr demo_migrations) ?db' of
      (None, db'') \<Rightarrow> migrated (\<lambda>c s. Some (s @ c)) demo_migrations (db_schema ?db) (length demo_migrations) db''
    | (Some e, db'') \<Rightarrow> \<exists>k. migrated (\<lambda>c s. Some (s @ c)) demo_migrations (db_schema ?db) k db''"
    by (rule migrations_exactly_once [OF demo_discovered, where evs = "[demo_mig_env (\<lambda>_. CommitError ''timeout'' True)]",
          THEN conjunct2, THEN conjunct2])
       (simp_all add: demo_entries_def demo_mig_env_def)
  ultimately show ?thesis
    by (auto simp: migrated_def demo_migrations_def split: prod.splits option.splits)
qed

theorem modified_migration_refused_witness:
  "fst (RunMigrations (demo_mig_env (\<lambda>_. CommitOk))
     (Inr [\<lparr>mg_Version = ''0.sql'', mg_Path = [], mg_Content = ''n'', mg_Checksum = ''00''\<rparr>,
           \<lparr>mg_Version = ''1.sql'', mg_Path = [], mg_Content = ''a'', mg_Checksum = ''aaaabbbbccccdddd''\<rparr>])
     \<lparr>db_schema = ''s'', db_table = True, db_applied = [(''1.sql'', ''0123456789abcdef'')]\<rparr>) =
   Some (Modified ''1.sql'' ''0123456789ab'' ''aaaabbbbcccc'')"
proof -
  have "calm_run (demo_mig_env (\<lambda>_. CommitOk))" by (simp add: calm_run_def demo_mig_env_def)
  then show ?thesis
    using modified_migration_refused
      [of "\<lparr>db_schema = ''s'', db_table = True, db_applied = [(''1.sql'', ''0123456789abcdef'')]\<rparr>"
          "[\<lparr>mg_Version = ''0.sql'', mg_Path = [], mg_Content = ''n'', mg_Checksum = ''00''\<rparr>]"
          "\<lparr>mg_Version = ''1.sql'', mg_Path = [], mg_Content = ''a'', mg_Checksum = ''aaaabbbbccccdddd''\<rparr>" "[]" "''0123456789abcdef''"
          "demo_mig_env (\<lambda>_. CommitOk)", OF _ _ _ _ _ _ prod.collapse [symmetric]]
    by simp
qed

end
