(* ===== verification/Config.thy ===== *)
theory Config
  imports Token Migrations
begin

text \<open>
  The configuration, \<open>backend/config/config.go\<close>, and what \<open>backend/main.go\<close> decides before it
  serves requests.

  \<open>env\<close> is the environment of the process once \<open>godotenv.Load\<close> has run. Of \<open>main\<close>, the model
  follows the steps that may refuse to start, in their order; what it starts in the background is in
  the result. The servers and the waiting for signals are not modelled.
\<close>

section \<open>Environment\<close>

type_synonym environ = "string \<rightharpoonup> string"

definition getEnv :: "environ \<Rightarrow> string \<Rightarrow> string \<Rightarrow> string" where
  "getEnv env key fallback = (case env key of Some value \<Rightarrow> value | None \<Rightarrow> fallback)"

definition getEnvInt :: "environ \<Rightarrow> string \<Rightarrow> int \<Rightarrow> int" where
  "getEnvInt env key fallback =
     (case env key of
        Some value \<Rightarrow> (case atoi value of (i, ok) \<Rightarrow> if ok then i else fallback)
      | None \<Rightarrow> fallback)"

text \<open>The result \<open>nil\<close> is the empty list.\<close>

definition getAllowedOrigins :: "string \<Rightarrow> string list" where
  "getAllowedOrigins val =
     (if val = [] then [] else filter (\<lambda>t. t \<noteq> []) (map trimSpace (split CHR '','' val)))"

section \<open>The configuration\<close>

record config =
  cfg_DatabaseURL :: string
  cfg_Port :: string
  cfg_NetworkCIDR :: string
  cfg_NVDAPIKey :: string
  cfg_FirmwareAnalyzerURL :: string
  cfg_FirmwareAnalyzerToken :: string
  cfg_JWTSecret :: string
  cfg_JWTPrivateKeyFile :: string
  cfg_RequireSharedJWTKey :: bool
  cfg_SlackWebhookURL :: string
  cfg_TeamsWebhookURL :: string
  cfg_S3Endpoint :: string
  cfg_S3Bucket :: string
  cfg_S3AccessKey :: string
  cfg_S3SecretKey :: string
  cfg_RedisURL :: string
  cfg_RateLimitPerMin :: int
  cfg_ScanMaxConcurrent :: int
  cfg_LogLevel :: string
  cfg_LogFormat :: string
  cfg_DBMaxOpenConns :: int
  cfg_DBMaxIdleConns :: int
  cfg_DBConnMaxLifetime :: duration
  cfg_AllowedOrigins :: "string list"
  cfg_RetentionScansDays :: int
  cfg_RetentionAlertsDays :: int
  cfg_RetentionAuditLogDays :: int
  cfg_RetentionWebhookDelivDays :: int
  cfg_WebhookRetryMaxAttempts :: int
  cfg_WebhookRetryBaseDelayMs :: int
  cfg_SMTPServer :: string
  cfg_SMTPPort :: int
  cfg_SMTPUser :: string
  cfg_SMTPPass :: string
  cfg_SMTPFrom :: string
  cfg_TLSEnabled :: bool
  cfg_TLSCertFile :: string
  cfg_TLSKeyFile :: string

definition config_Load :: "environ \<Rightarrow> config" where
  "config_Load env =
     \<lparr>cfg_DatabaseURL = getEnv env ''DATABASE_URL'' [],
      cfg_Port = getEnv env ''PORT'' ''8080'',
      cfg_NetworkCIDR = getEnv env ''NETWORK_CIDR'' ''192.168.1.0/24'',
      cfg_NVDAPIKey = getEnv env ''NVD_API_KEY'' [],
      cfg_FirmwareAnalyzerURL = getEnv env ''FIRMWARE_ANALYZER_URL'' ''http://firmware-analyzer:8001'',
      cfg_FirmwareAnalyzerToken = getEnv env ''FIRMWARE_ANALYZER_TOKEN'' [],
      cfg_JWTSecret = getEnv env ''JWT_SECRET'' [],
      cfg_JWTPrivateKeyFile = getEnv env ''JWT_PRIVATE_KEY_FILE'' [],
      cfg_RequireSharedJWTKey = (getEnv env ''REQUIRE_SHARED_JWT_KEY'' [] = ''true''),
      cfg_SlackWebhookURL = getEnv env ''SLACK_WEBHOOK_URL'' [],
      cfg_TeamsWebhookURL = getEnv env ''TEAMS_WEBHOOK_URL'' [],
      cfg_S3Endpoint = getEnv env ''S3_ENDPOINT'' [],
      cfg_S3Bucket = getEnv env ''S3_BUCKET'' ''seagles-firmware'',
      cfg_S3AccessKey = getEnv env ''S3_ACCESS_KEY'' [],
      cfg_S3SecretKey = getEnv env ''S3_SECRET_KEY'' [],
      cfg_RedisURL = getEnv env ''REDIS_URL'' [],
      cfg_RateLimitPerMin = getEnvInt env ''RATE_LIMIT_PER_MIN'' 60,
      cfg_ScanMaxConcurrent = getEnvInt env ''SCAN_MAX_CONCURRENT'' 20,
      cfg_LogLevel = getEnv env ''LOG_LEVEL'' ''info'',
      cfg_LogFormat = getEnv env ''LOG_FORMAT'' ''kv'',
      cfg_DBMaxOpenConns = getEnvInt env ''DB_MAX_OPEN_CONNS'' 25,
      cfg_DBMaxIdleConns = getEnvInt env ''DB_MAX_IDLE_CONNS'' 5,
      cfg_DBConnMaxLifetime = wrap64 (getEnvInt env ''DB_CONN_MAX_LIFETIME_MINUTES'' 5 * minute),
      cfg_AllowedOrigins = getAllowedOrigins (getEnv env ''ALLOWED_ORIGINS'' []),
      cfg_RetentionScansDays = getEnvInt env ''RETENTION_SCANS_DAYS'' 90,
      cfg_RetentionAlertsDays = getEnvInt env ''RETENTION_ALERTS_DAYS'' 90,
      cfg_RetentionAuditLogDays = getEnvInt env ''RETENTION_AUDIT_LOG_DAYS'' 90,
      cfg_RetentionWebhookDelivDays = getEnvInt env ''RETENTION_WEBHOOK_DELIV_DAYS'' 30,
      cfg_WebhookRetryMaxAttempts = getEnvInt env ''WEBHOOK_RETRY_MAX_ATTEMPTS'' 3,
      cfg_WebhookRetryBaseDelayMs = getEnvInt env ''WEBHOOK_RETRY_BASE_DELAY_MS'' 1000,
      cfg_SMTPServer = getEnv env ''SMTP_SERVER'' [],
      cfg_SMTPPort = getEnvInt env ''SMTP_PORT'' 587,
      cfg_SMTPUser = getEnv env ''SMTP_USER'' [],
      cfg_SMTPPass = getEnv env ''SMTP_PASS'' [],
      cfg_SMTPFrom = getEnv env ''SMTP_FROM'' [],
      cfg_TLSEnabled = (getEnv env ''TLS_ENABLED'' [] = ''true''),
      cfg_TLSCertFile = getEnv env ''TLS_CERT_FILE'' [],
      cfg_TLSKeyFile = getEnv env ''TLS_KEY_FILE'' []\<rparr>"

section \<open>Start of the process\<close>

datatype log_level = LevelDebug | LevelInfo | LevelWarn | LevelError | LevelFatal

text \<open>\<open>Level\<close> is an \<open>int\<close> in the source, counted from 0 in this order, and compared as one.\<close>

fun level_rank :: "log_level \<Rightarrow> nat" where
  "level_rank LevelDebug = 0" | "level_rank LevelInfo = 1" | "level_rank LevelWarn = 2" | "level_rank LevelError = 3"
| "level_rank LevelFatal = 4"

lemma level_rank_inj: "level_rank l = level_rank m \<Longrightarrow> l = m"
  by (cases l; cases m) simp_all

instantiation log_level :: linorder
begin

definition less_eq_log_level :: "log_level \<Rightarrow> log_level \<Rightarrow> bool" where
  "less_eq_log_level l m \<longleftrightarrow> level_rank l \<le> level_rank m"

definition less_log_level :: "log_level \<Rightarrow> log_level \<Rightarrow> bool" where
  "less_log_level l m \<longleftrightarrow> level_rank l < level_rank m"

instance
  by standard (auto simp: less_eq_log_level_def less_log_level_def dest: level_rank_inj)

end

definition parseLogLevel :: "string \<Rightarrow> log_level" where
  "parseLogLevel s =
     (if s = ''debug'' then LevelDebug else if s = ''info'' then LevelInfo else if s = ''warn'' then LevelWarn
      else if s = ''error'' then LevelError else LevelInfo)"

datatype key_error = KeyFileUnreadable string string | KeyFileEmpty string

text \<open>\<open>read_file\<close> stands for \<open>os.ReadFile\<close>.\<close>

definition resolveJWTKey :: "(string \<Rightarrow> string + string) \<Rightarrow> config \<Rightarrow> key_error + string" where
  "resolveJWTKey read_file cfg =
     (let key = trimSpace (cfg_JWTSecret cfg) in
      if key \<noteq> [] then Inr key
      else if cfg_JWTPrivateKeyFile cfg = [] then Inr []
      else case read_file (cfg_JWTPrivateKeyFile cfg) of
             Inl err \<Rightarrow> Inl (KeyFileUnreadable (cfg_JWTPrivateKeyFile cfg) err)
           | Inr keyData \<Rightarrow>
               if trimSpace keyData = [] then Inl (KeyFileEmpty (cfg_JWTPrivateKeyFile cfg)) else Inr keyData)"

text \<open>\<open>SetJWTSecret\<close> ends the process when it has no key pair.\<close>

definition SetJWTSecret ::
  "('sk, 'pk) crypto_lib \<Rightarrow> 'sk option \<Rightarrow> string \<Rightarrow> ('sk, 'pk) key_state \<Rightarrow> token_error + ('sk, 'pk) key_state" where
  "SetJWTSecret L gen secret ks =
     (case LoadOrGenerateKeys L gen secret ks of (Some e, _) \<Rightarrow> Inl e | (None, ks') \<Rightarrow> Inr ks')"

datatype start_error =
  KeyConfig key_error | KeyPairFailed token_error | SharedKeyRequired | DatabaseDown string | MigrationFailed migrate_error

record ('sk, 'pk, 's) start_env =
  sn_crypto :: "('sk, 'pk) crypto_lib"
  sn_read_file :: "string \<Rightarrow> string + string"
  sn_generate :: "'sk option"
  sn_connect_err :: "string option"
  sn_migrate :: "'s migrate_env"
  sn_discovered :: "migrate_error + migration list"

record ('sk, 'pk, 's) started =
  sd_keys :: "('sk, 'pk) key_state"
  sd_db :: "'s database"
  sd_retention :: bool
  sd_tls :: bool
  sd_addr :: string

definition initial_keys :: "('sk, 'pk) key_state" where
  "initial_keys = \<lparr>ks_globalKeyPair = None, ks_keyIsEphemeral = False\<rparr>"

definition retention_enabled :: "config \<Rightarrow> bool" where
  "retention_enabled cfg \<longleftrightarrow> cfg_RetentionScansDays cfg > 0 \<or> cfg_RetentionAlertsDays cfg > 0 \<or>
     cfg_RetentionAuditLogDays cfg > 0 \<or> cfg_RetentionWebhookDelivDays cfg > 0"

definition use_tls :: "config \<Rightarrow> bool" where
  "use_tls cfg \<longleftrightarrow> cfg_TLSEnabled cfg \<and> cfg_TLSCertFile cfg \<noteq> [] \<and> cfg_TLSKeyFile cfg \<noteq> []"

definition main_start ::
  "('sk, 'pk, 's) start_env \<Rightarrow> config \<Rightarrow> 's database \<Rightarrow> start_error + ('sk, 'pk, 's) started" where
  "main_start ev cfg db =
     (case resolveJWTKey (sn_read_file ev) cfg of
        Inl e \<Rightarrow> Inl (KeyConfig e)
      | Inr jwtKey \<Rightarrow>
          (case SetJWTSecret (sn_crypto ev) (sn_generate ev) jwtKey initial_keys of
             Inl e \<Rightarrow> Inl (KeyPairFailed e)
           | Inr ks \<Rightarrow>
               if UsingEphemeralKey ks \<and> cfg_RequireSharedJWTKey cfg then Inl SharedKeyRequired
               else case sn_connect_err ev of
                      Some e \<Rightarrow> Inl (DatabaseDown e)
                    | None \<Rightarrow>
                        (case RunMigrations (sn_migrate ev) (sn_discovered ev) db of
                           (Some e, _) \<Rightarrow> Inl (MigrationFailed e)
                         | (None, db') \<Rightarrow>
                             Inr \<lparr>sd_keys = ks, sd_db = db', sd_retention = retention_enabled cfg, sd_tls = use_tls cfg,
                                  sd_addr = CHR '':'' # cfg_Port cfg\<rparr>)))"

section \<open>Lemmas\<close>

lemma getEnvInt_malformed:
  "env key = Some v \<Longrightarrow> \<not> snd (atoi v) \<Longrightarrow> getEnvInt env key d = d"
  by (auto simp: getEnvInt_def split: prod.split)

lemma allowed_origins_trimmed:
  "o' \<in> set (getAllowedOrigins val) \<Longrightarrow> o' \<noteq> [] \<and> trimSpace o' = o'"
  by (auto simp: getAllowedOrigins_def split: if_splits)

lemma resolveJWTKey_empty:
  "resolveJWTKey rf cfg = Inr [] \<longleftrightarrow> trimSpace (cfg_JWTSecret cfg) = [] \<and> cfg_JWTPrivateKeyFile cfg = []"
  by (auto simp: resolveJWTKey_def Let_def trimSpace_def split: sum.split)

lemma SetJWTSecret_cases:
  "SetJWTSecret L gen secret ks = Inr ks' \<Longrightarrow>
     (\<exists>sk. keys_ready L ks' sk \<and> (if secret = [] then gen = Some sk else parseRSAPrivateKeyPEM L secret = Inr sk)) \<and>
     (ks_keyIsEphemeral ks' \<longleftrightarrow> secret = [])"
  by (auto simp: SetJWTSecret_def LoadOrGenerateKeys_def keys_ready_def Let_def
      split: if_splits sum.splits option.splits)

section \<open>Property\<close>

text \<open>C36: The process serves requests with a key pair in place. The key is generated only when neither
  the secret nor the key file is configured; a configured key that cannot be read or parsed ends the
  process, and with a shared key required the process serves only with the configured key.\<close>

theorem startup_key_policy:
  assumes "main_start ev cfg db = Inr st"
  shows "\<exists>jwtKey sk. resolveJWTKey (sn_read_file ev) cfg = Inr jwtKey \<and> keys_ready (sn_crypto ev) (sd_keys st) sk \<and>
     (if trimSpace (cfg_JWTSecret cfg) = [] \<and> cfg_JWTPrivateKeyFile cfg = []
      then sn_generate ev = Some sk \<and> \<not> cfg_RequireSharedJWTKey cfg
      else parseRSAPrivateKeyPEM (sn_crypto ev) jwtKey = Inr sk \<and> \<not> UsingEphemeralKey (sd_keys st))"
proof -
  obtain jwtKey ks where k: "resolveJWTKey (sn_read_file ev) cfg = Inr jwtKey"
    "SetJWTSecret (sn_crypto ev) (sn_generate ev) jwtKey initial_keys = Inr ks"
    "\<not> (UsingEphemeralKey ks \<and> cfg_RequireSharedJWTKey cfg)" "sd_keys st = ks"
    using assms by (auto simp: main_start_def split: sum.splits if_splits option.splits prod.splits)
  have e: "jwtKey = [] \<longleftrightarrow> trimSpace (cfg_JWTSecret cfg) = [] \<and> cfg_JWTPrivateKeyFile cfg = []"
    using resolveJWTKey_empty [of "sn_read_file ev" cfg] k(1) by auto
  from SetJWTSecret_cases [OF k(2)] k e show ?thesis
    by (auto simp: UsingEphemeralKey_def split: if_splits)
qed

section \<open>A start on paper\<close>

definition demo_start :: "(unit, unit, string) start_env" where
  "demo_start = \<lparr>sn_crypto = toy_lib\<lparr>pem_decode := (\<lambda>_. Some (''RSA PRIVATE KEY'', [])), parsePKCS1 := (\<lambda>_. Inr ())\<rparr>,
     sn_read_file = (\<lambda>_. Inr ''PEM''), sn_generate = None, sn_connect_err = None,
     sn_migrate = demo_mig_env (\<lambda>_. CommitOk), sn_discovered = Inr []\<rparr>"

definition demo_config :: config where
  "demo_config = (config_Load Map.empty)\<lparr>cfg_JWTPrivateKeyFile := ''jwt.pem'', cfg_RequireSharedJWTKey := True\<rparr>"

theorem startup_key_policy_witness:
  "\<exists>st. main_start demo_start demo_config \<lparr>db_schema = [], db_table = False, db_applied = []\<rparr> = Inr st \<and>
     \<not> UsingEphemeralKey (sd_keys st)"
proof -
  have f: "cfg_JWTSecret demo_config = []" "cfg_JWTPrivateKeyFile demo_config = ''jwt.pem''" "cfg_RequireSharedJWTKey demo_config"
    by (simp_all add: demo_config_def config_Load_def getEnv_def)
  have "is_ok (main_start demo_start demo_config \<lparr>db_schema = [], db_table = False, db_applied = []\<rparr>)"
    by (simp add: main_start_def resolveJWTKey_def Let_def f demo_start_def trimSpace_def is_space_def SetJWTSecret_def
        LoadOrGenerateKeys_def parseRSAPrivateKeyPEM_def UsingEphemeralKey_def RunMigrations_def demo_mig_env_def
        ensureMigrationTable_def appliedMigrations_def)
  then obtain st where st: "main_start demo_start demo_config \<lparr>db_schema = [], db_table = False, db_applied = []\<rparr> = Inr st"
    by (rule is_okE)
  with startup_key_policy [OF st] show ?thesis by (auto simp: f)
qed

end
