(* ===== verification/Firmware.thy ===== *)
theory Firmware
  imports Alerts Sanitize Config Encoding
begin

text \<open>
  The firmware endpoints of \<open>backend/api/firmware.go\<close>: the list, the analysis of an image by the
  external analyzer, and the upload of an image.

  The analyzer, the file system and the object store are parameters: what the analyzer answers, and
  which of the operations fail. The files and objects themselves are part of the state, so that a
  theorem can say what a stored path holds. The name of an uploaded file is the base name that the
  multipart reader of the standard library gives; it has no path separators.
\<close>

section \<open>The list\<close>

text \<open>The row as \<open>rows.Scan\<close> reads it; a NULL score does not fit the struct's \<open>float64\<close>.\<close>

definition scan_firmware :: "firmware_row \<Rightarrow> firmware option" where
  "scan_firmware r =
     (case fr_entropy_score r of
        None \<Rightarrow> None
      | Some e \<Rightarrow> Some
          \<lparr>fw_ID = fr_id r, fw_DeviceID = fr_device_id r, fw_Version = fr_version r, fw_Vendor = fr_vendor r,
           fw_Checksum = fr_checksum r, fw_FilePath = fr_file_path r, fw_AnalyzedAt = fr_analyzed_at r, fw_EntropyScore = e,
           fw_HasDefaultCreds = fr_has_default_creds r, fw_HasTelnet = fr_has_telnet r,
           fw_HasBackdoorIndicators = fr_has_backdoor_indicators r, fw_StringsOfInterest = fr_strings_of_interest r,
           fw_CVEMatches = fr_cve_matches r, fw_AnalysisStatus = fr_analysis_status r, fw_AnalysisReport = fr_analysis_report r\<rparr>)"

text \<open>\<open>ORDER BY analyzed_at DESC NULLS LAST\<close>.\<close>

definition by_analysis :: "firmware_row list \<Rightarrow> firmware_row list" where
  "by_analysis rows =
     sort_key (\<lambda>r. - the (fr_analyzed_at r)) (filter (\<lambda>r. fr_analyzed_at r \<noteq> None) rows) @
     filter (\<lambda>r. fr_analyzed_at r = None) rows"

definition firmware_entry :: "fleet \<Rightarrow> firmware_row \<Rightarrow> json list" where
  "firmware_entry db r =
     (case scan_firmware r of
        None \<Rightarrow> []
      | Some f \<Rightarrow>
          (let dev = find (\<lambda>d. Some (d_ID d) = fr_device_id r) (fl_devices db) in
           case firmware_ToJSON f of
             JObj kvs \<Rightarrow> [JObj (kvs @ [(''device_ip'', jstr_opt (map_option d_IPAddress dev)),
                                       (''device_hostname'', jstr_opt (Option.bind dev d_Hostname))])]
           | _ \<Rightarrow> []))"

definition ListFirmwareHandler :: "(nat \<Rightarrow> string option) \<Rightarrow> fleet handler" where
  "ListFirmwareHandler err c db =
     (case err 0 of Some e \<Rightarrow> (failInternal 500 ''Failed to query firmware: '' e c, db)
      | None \<Rightarrow>
          (case err 1 of Some e \<Rightarrow> (failInternal 500 ''Failed to iterate firmware: '' e c, db)
           | None \<Rightarrow> (success (JArr (concat (map (firmware_entry db) (by_analysis (fl_firmware db))))) c, db)))"

section \<open>Analysis\<close>

definition upd_firmware :: "string \<Rightarrow> (firmware_row \<Rightarrow> firmware_row) \<Rightarrow> fleet \<Rightarrow> fleet" where
  "upd_firmware i f db = db\<lparr>fl_firmware := map (\<lambda>r. if fr_id r = i then f r else r) (fl_firmware db)\<rparr>"

definition set_analysis :: "string option \<Rightarrow> string \<Rightarrow> string \<Rightarrow> fleet \<Rightarrow> fleet" where
  "set_analysis err i status db =
     (if err \<noteq> None then db else upd_firmware i (\<lambda>r. r\<lparr>fr_analysis_status := status\<rparr>) db)"

text \<open>
  What the analyzer's answer comes to: the request cannot be made, the call fails, the status is not
  a success, the body cannot be decoded, or a report with its score and verdict.
\<close>

datatype analyzer_answer = BadRequest | CallFailed string | BadStatus int | Undecodable | Report rat bool

record analysis_env =
  nv_answer :: analyzer_answer
  nv_err_failed :: "string option"
  nv_err_complete :: "string option"
  nv_now :: time
  nv_alert :: alert_env

definition entropy_alert :: "string \<Rightarrow> rat \<Rightarrow> alert_request" where
  "entropy_alert dev score =
     \<lparr>ar_DeviceID = dev, ar_AlertType = ''firmware_entropy'', ar_Severity = ''high'',
      ar_Title = ''High entropy firmware detected (score: '' @ fmt_fixed 4 score @ '')'', ar_Description = [], ar_Metadata = None\<rparr>"

text \<open>The goroutine that runs the analysis. The score column is \<open>NUMERIC(5,4)\<close>.\<close>

definition analysis_job :: "analysis_env \<Rightarrow> string \<Rightarrow> string option \<Rightarrow> fleet \<Rightarrow> dispatch list \<times> fleet" where
  "analysis_job nv i dev db =
     (case nv_answer nv of
        Report score suspicious \<Rightarrow>
          (let db1 = (case (if nv_err_complete nv = None then numeric_4 score else None) of
                        None \<Rightarrow> db
                      | Some s \<Rightarrow> upd_firmware i (\<lambda>r. r\<lparr>fr_analysis_status := ''complete'', fr_analyzed_at := Some (nv_now nv),
                                                       fr_entropy_score := Some s\<rparr>) db)
           in case dev of
                Some d \<Rightarrow>
                  if suspicious
                  then (case CreateAlert (nv_alert nv) (entropy_alert d score) db1 of
                          (_, disp, db2) \<Rightarrow> (case disp of None \<Rightarrow> [] | Some x \<Rightarrow> [x], db2))
                  else ([], db1)
              | None \<Rightarrow> ([], db1))
      | _ \<Rightarrow> ([], set_analysis (nv_err_failed nv) i ''failed'' db))"

definition analyzer_url :: "config \<Rightarrow> string" where
  "analyzer_url cfg =
     (if cfg_FirmwareAnalyzerURL cfg = [] then ''http://firmware-analyzer:8001'' else cfg_FirmwareAnalyzerURL cfg) @ ''/analyze''"

text \<open>The handler; its third result is the job it starts: the image and its device.\<close>

definition AnalyzeFirmwareHandler ::
  "uuid_lib \<Rightarrow> (nat \<Rightarrow> string option) \<Rightarrow> config \<Rightarrow> ctx \<Rightarrow> fleet \<Rightarrow> ctx \<times> fleet \<times> (string \<times> string option) option" where
  "AnalyzeFirmwareHandler U err cfg c db =
     (if length (cfg_FirmwareAnalyzerToken cfg) < 32
      then (fail 503 ''Firmware analyzer authentication is not configured'' c, db, None)
      else case uuidParam U ''id'' c of
             Inl c' \<Rightarrow> (c', db, None)
           | Inr raw \<Rightarrow>
               (case uuid_arg U (err 0) raw of
                  Inl e \<Rightarrow> (failInternal 500 ''Failed to query firmware: '' e c, db, None)
                | Inr i \<Rightarrow>
                    (case find (\<lambda>r. fr_id r = i) (fl_firmware db) of
                       None \<Rightarrow> (fail 404 ''Firmware not found'' c, db, None)
                     | Some r \<Rightarrow>
                         (success (JObj [(''message'', JStr ''Firmware analysis started''), (''firmware_id'', JStr raw)]) c,
                          set_analysis (err 1) i ''pending'' db, Some (i, fr_device_id r)))))"

section \<open>Uploads\<close>

record upload_form =
  uf_Filename :: string
  uf_content :: string
  uf_device_id :: string
  uf_vendor :: string
  uf_version :: string

record upload_env =
  ue_sha :: "string \<Rightarrow> string"
  ue_read_err :: bool
  ue_tempPath :: "string option"
  ue_copy_err :: bool
  ue_minio_err :: bool
  ue_put_err :: bool
  ue_rename_err :: bool
  ue_insert_err :: bool
  ue_uuid :: string
  ue_uuids :: uuid_lib

record uploads =
  up_files :: "string \<rightharpoonup> string"
  up_objects :: "string \<rightharpoonup> string"
  up_fleet :: fleet

definition use_s3 :: "config \<Rightarrow> bool" where
  "use_s3 cfg \<longleftrightarrow> cfg_S3Endpoint cfg \<noteq> [] \<and> cfg_S3AccessKey cfg \<noteq> []"

definition object_path :: "config \<Rightarrow> string \<Rightarrow> string \<Rightarrow> string" where
  "object_path cfg checksum filename =
     ''s3://'' @ (if cfg_S3Bucket cfg = [] then ''seagles-firmware'' else cfg_S3Bucket cfg) @ ''/'' @ checksum @ ''/'' @ filename"

definition local_path :: "string \<Rightarrow> string \<Rightarrow> string" where
  "local_path checksum filename = ''data/firmware-uploads/'' @ take 8 checksum @ ''_'' @ filename"

text \<open>Where the temporary file ends up: in the object store, in the upload directory, or where it is.\<close>

definition place_file :: "upload_env \<Rightarrow> config \<Rightarrow> string \<Rightarrow> string \<Rightarrow> string \<Rightarrow> string \<Rightarrow> uploads \<Rightarrow> string \<times> uploads" where
  "place_file ue cfg tmp checksum filename content st =
     (if use_s3 cfg \<and> \<not> ue_minio_err ue \<and> \<not> ue_put_err ue
      then (object_path cfg checksum filename,
            st\<lparr>up_objects := (up_objects st)(object_path cfg checksum filename \<mapsto> content), up_files := (up_files st)(tmp := None)\<rparr>)
      else if ue_rename_err ue then (tmp, st)
      else (local_path checksum filename,
            st\<lparr>up_files := (up_files st)(tmp := None, local_path checksum filename \<mapsto> content)\<rparr>))"

definition upload_row :: "string \<Rightarrow> upload_form \<Rightarrow> string \<Rightarrow> string \<Rightarrow> firmware_row" where
  "upload_row uuid f checksum path =
     \<lparr>fr_id = uuid, fr_device_id = nullableString (uf_device_id f), fr_version = nullableString (uf_version f),
      fr_vendor = nullableString (uf_vendor f), fr_checksum = Some checksum, fr_file_path = Some path, fr_analyzed_at = None,
      fr_entropy_score = None, fr_has_default_creds = False, fr_has_telnet = False, fr_has_backdoor_indicators = False,
      fr_strings_of_interest = None, fr_cve_matches = None, fr_analysis_status = ''pending'', fr_analysis_report = [],
      fr_file_size_bytes = Some (int (length (uf_content f))), fr_original_filename = Some (uf_Filename f),
      fr_upload_source = ''upload''\<rparr>"

text \<open>The statement fails when the text given for the device is not a UUID, when there is no such device, or
  for a reason of its own.\<close>

definition insert_firmware :: "upload_env \<Rightarrow> firmware_row \<Rightarrow> fleet \<Rightarrow> fleet option" where
  "insert_firmware ue r db =
     (if ue_insert_err ue then None
      else case fr_device_id r of
             None \<Rightarrow> Some (db\<lparr>fl_firmware := fl_firmware db @ [r]\<rparr>)
           | Some raw \<Rightarrow>
               (case uu_pg (ue_uuids ue) raw of
                  None \<Rightarrow> None
                | Some d \<Rightarrow>
                    if list_ex (\<lambda>x. d_ID x = d) (fl_devices db)
                    then Some (db\<lparr>fl_firmware := fl_firmware db @ [r\<lparr>fr_device_id := Some d\<rparr>]\<rparr>) else None))"

definition upload_json :: "string \<Rightarrow> upload_form \<Rightarrow> string \<Rightarrow> string \<Rightarrow> json" where
  "upload_json uuid f checksum path = JObj
     [(''firmware_id'', JStr uuid), (''filename'', JStr (uf_Filename f)), (''size_bytes'', JNum (int (length (uf_content f)))),
      (''checksum_sha256'', JStr checksum), (''storage_path'', JStr path), (''analysis_status'', JStr ''pending''),
      (''message'', JStr (''Firmware uploaded. Use POST /firmware/'' @ uuid @ ''/analyze to start analysis.''))]"

text \<open>The part of the upload after the temporary file has been written.\<close>

definition store_upload :: "upload_env \<Rightarrow> config \<Rightarrow> upload_form \<Rightarrow> string \<Rightarrow> string \<Rightarrow> uploads handler" where
  "store_upload ue cfg f tmp content c st =
     (let checksum = hex_encode (ue_sha ue content);
          st1 = st\<lparr>up_files := (up_files st)(tmp \<mapsto> content)\<rparr>;
          (path, st2) = place_file ue cfg tmp checksum (uf_Filename f) content st1
      in case insert_firmware ue (upload_row (ue_uuid ue) f checksum path) (up_fleet st2) of
           None \<Rightarrow> (fail 500 ''Failed to create firmware record'' c, st2)
         | Some db \<Rightarrow> (success (upload_json (ue_uuid ue) f checksum path) c, st2\<lparr>up_fleet := db\<rparr>))"

text \<open>
  \<open>None\<close> is a request without the form field, or one whose body is over the limit. The first 512 bytes
  are read and checked, then put back in front of the rest, so the whole content is copied and hashed.
\<close>

definition UploadFirmwareHandler :: "upload_env \<Rightarrow> config \<Rightarrow> upload_form option \<Rightarrow> uploads handler" where
  "UploadFirmwareHandler ue cfg form c st =
     (case form of
        None \<Rightarrow> (fail 400 ''Firmware file is required (form field: 'firmware')'' c, st)
      | Some f \<Rightarrow>
          if length (uf_content f) = 0 then (fail 400 ''Uploaded file is empty'' c, st)
          else if ue_read_err ue then (fail 400 ''Failed to read file header'' c, st)
          else let headerBytes = take 512 (uf_content f); rest = drop 512 (uf_content f) in
            case ValidateFirmwareFile (uf_Filename f) headerBytes of
              Some e \<Rightarrow> (fail 400 (''Invalid firmware file: '' @ e) c, st)
            | None \<Rightarrow>
                (case ue_tempPath ue of
                   None \<Rightarrow> (fail 500 ''Failed to initialize upload buffer'' c, st)
                 | Some tmp \<Rightarrow>
                     if ue_copy_err ue
                     then (fail 500 ''Failed to write firmware file'' c, st\<lparr>up_files := (up_files st)(tmp := None)\<rparr>)
                     else store_upload ue cfg f tmp (headerBytes @ rest) c st))"

section \<open>Lemmas\<close>

lemma place_file_stored:
  assumes "place_file ue cfg tmp checksum name content st = (path, st')" "up_files st tmp = Some content"
  shows "up_fleet st' = up_fleet st" "up_files st' path = Some content \<or> up_objects st' path = Some content"
  using assms by (auto simp: place_file_def split: if_splits)

text \<open>The row and the answer of an upload that succeeds.\<close>

definition uploaded :: "upload_env \<Rightarrow> upload_form \<Rightarrow> ctx \<Rightarrow> uploads \<Rightarrow> uploads \<Rightarrow> bool" where
  "uploaded ue f c' st st' \<longleftrightarrow>
     (\<exists>path row. fl_firmware (up_fleet st') = fl_firmware (up_fleet st) @ [row] \<and>
        fr_id row = ue_uuid ue \<and> fr_checksum row = Some (hex_encode (ue_sha ue (uf_content f))) \<and>
        fr_file_path row = Some path \<and> fr_file_size_bytes row = Some (int (length (uf_content f))) \<and>
        fr_original_filename row = Some (uf_Filename f) \<and> fr_vendor row = nullableString (uf_vendor f) \<and>
        fr_version row = nullableString (uf_version f) \<and> fr_upload_source row = ''upload'' \<and> fr_analysis_status row = ''pending'' \<and>
        fr_device_id row = Option.bind (nullableString (uf_device_id f)) (uu_pg (ue_uuids ue)) \<and>
        set_option (fr_device_id row) \<subseteq> d_ID ` set (fl_devices (up_fleet st)) \<and>
        (up_files st' path = Some (uf_content f) \<or> up_objects st' path = Some (uf_content f)) \<and>
        cx_body c' = Some (JObj [(''data'', JObj
          [(''firmware_id'', JStr (ue_uuid ue)), (''filename'', JStr (uf_Filename f)), (''size_bytes'', JNum (int (length (uf_content f)))),
           (''checksum_sha256'', JStr (hex_encode (ue_sha ue (uf_content f)))), (''storage_path'', JStr path),
           (''analysis_status'', JStr ''pending''),
           (''message'', JStr (''Firmware uploaded. Use POST /firmware/'' @ ue_uuid ue @ ''/analyze to start analysis.''))]),
          (''error'', JNull)]))"

lemma insert_firmware_row:
  assumes "insert_firmware ue r db = Some db'"
  shows "fl_firmware db' = fl_firmware db @ [r\<lparr>fr_device_id := Option.bind (fr_device_id r) (uu_pg (ue_uuids ue))\<rparr>]"
    and "Option.bind (fr_device_id r) (uu_pg (ue_uuids ue)) = Some d \<Longrightarrow> d \<in> d_ID ` set (fl_devices db)"
  using assms by (cases r; auto simp: insert_firmware_def list_ex_iff split: if_splits option.splits)+

lemma store_upload_cases:
  assumes "store_upload ue cfg f tmp (uf_content f) c st = (c', st')"
  shows "fl_firmware (up_fleet st') = fl_firmware (up_fleet st) \<and> cx_status c' = 500 \<or>
    cx_status c' = 200 \<and> uploaded ue f c' st st'"
proof -
  let ?content = "uf_content f" and ?sum = "hex_encode (ue_sha ue (uf_content f))"
  obtain path st2 where p: "place_file ue cfg tmp ?sum (uf_Filename f) ?content (st\<lparr>up_files := (up_files st)(tmp \<mapsto> ?content)\<rparr>) = (path, st2)"
    by fastforce
  have st2: "up_fleet st2 = up_fleet st" "up_files st2 path = Some ?content \<or> up_objects st2 path = Some ?content"
    using place_file_stored [OF p] by simp_all
  let ?row = "upload_row (ue_uuid ue) f ?sum path"
  show ?thesis
  proof (cases "insert_firmware ue ?row (up_fleet st2)")
    case None
    then show ?thesis using assms st2 by (auto simp: store_upload_def Let_def p)
  next
    case (Some db)
    note row = insert_firmware_row [OF Some]
    have res: "c' = success (upload_json (ue_uuid ue) f ?sum path) c" "st' = st2\<lparr>up_fleet := db\<rparr>"
      using assms Some by (simp_all add: store_upload_def Let_def p)
    have "uploaded ue f c' st st'"
      unfolding uploaded_def
      by (rule exI [of _ path], rule exI [of _ "?row\<lparr>fr_device_id := Option.bind (fr_device_id ?row) (uu_pg (ue_uuids ue))\<rparr>"])
         (use row st2 in \<open>auto simp: res upload_row_def upload_json_def success_def reply_def envelope_def\<close>)
    then show ?thesis using res by simp
  qed
qed

text \<open>What the job leaves of the images: only the row of the analysed one changes.\<close>

definition analysed :: "analysis_env \<Rightarrow> firmware_row \<Rightarrow> firmware_row" where
  "analysed nv r =
     (case nv_answer nv of
        Report score _ \<Rightarrow>
          (case (if nv_err_complete nv = None then numeric_4 score else None) of
             None \<Rightarrow> r
           | Some s \<Rightarrow> r\<lparr>fr_analysis_status := ''complete'', fr_analyzed_at := Some (nv_now nv), fr_entropy_score := Some s\<rparr>)
      | _ \<Rightarrow> if nv_err_failed nv = None then r\<lparr>fr_analysis_status := ''failed''\<rparr> else r)"

lemma analysis_job_firmware:
  "fl_firmware (snd (analysis_job nv i dev db)) =
     map (\<lambda>r. if fr_id r = i then analysed nv r else r) (fl_firmware db)"
proof -
  have created: "fl_firmware (snd (case CreateAlert ev req db1 of
      (_, disp, db2) \<Rightarrow> (case disp of None \<Rightarrow> [] | Some x \<Rightarrow> [x], db2))) = fl_firmware db1" for ev req db1
    using CreateAlert_frame(3) [of ev req db1] by (cases "CreateAlert ev req db1") simp
  show ?thesis
    by (cases "nv_answer nv")
       (auto simp: analysis_job_def analysed_def set_analysis_def upd_firmware_def Let_def created intro!: map_idI [symmetric] split: option.split)
qed

lemma AnalyzeFirmwareHandler_started:
  assumes "AnalyzeFirmwareHandler U err cfg c db = (c', db1, Some (i, dev))"
  shows "32 \<le> length (cfg_FirmwareAnalyzerToken cfg)" "\<exists>raw. uu_Parse U raw \<and> uu_pg U raw = Some i" "cx_status c' = 200"
    "db1 = set_analysis (err 1) i ''pending'' db" "\<exists>r \<in> set (fl_firmware db). fr_id r = i \<and> fr_device_id r = dev"
  using assms
  by (auto simp: AnalyzeFirmwareHandler_def uuidParam_def uuid_arg_def dest: find_SomeD split: if_splits option.splits sum.splits)

section \<open>Properties\<close>


text \<open>An analysis ends. Once the handler has started it on an image, and if the statements that
  record its outcome succeed, the image is complete, with the score and the time, when the analyzer sent a
  report whose score fits the column, and failed when the analyzer could not be asked or sent anything else.
  Only a report with a score that does not fit leaves it pending. No other image changes.\<close>

theorem analysis_ends:
  assumes "AnalyzeFirmwareHandler U err cfg c db = (c', db1, Some (i, dev))"
    and "err 1 = None" "nv_err_failed nv = None" "nv_err_complete nv = None"
  shows "32 \<le> length (cfg_FirmwareAnalyzerToken cfg) \<and>
    fl_firmware (snd (analysis_job nv i dev db1)) =
    map (\<lambda>r. if fr_id r = i
             then (case nv_answer nv of
                     Report score suspicious \<Rightarrow>
                       (case numeric_4 score of
                          Some s \<Rightarrow> r\<lparr>fr_analysis_status := ''complete'', fr_analyzed_at := Some (nv_now nv), fr_entropy_score := Some s\<rparr>
                        | None \<Rightarrow> r\<lparr>fr_analysis_status := ''pending''\<rparr>)
                   | _ \<Rightarrow> r\<lparr>fr_analysis_status := ''failed''\<rparr>)
             else r) (fl_firmware db)"
proof -
  note st = AnalyzeFirmwareHandler_started [OF assms(1)]
  show ?thesis
    using st(1) assms(2-4) unfolding analysis_job_firmware st(4)
    by (auto simp: set_analysis_def upd_firmware_def analysed_def split: analyzer_answer.split option.split)
qed

section \<open>An analysis on paper\<close>

definition demo_image :: firmware_row where
  "demo_image = upload_row ''f1'' \<lparr>uf_Filename = ''a.bin'', uf_content = ''x'', uf_device_id = [], uf_vendor = [], uf_version = []\<rparr> ''00'' ''p''"

definition demo_firmware_fleet :: fleet where
  "demo_firmware_fleet = \<lparr>fl_devices = [], fl_scans = [], fl_vulns = [], fl_firmware = [demo_image], fl_alerts = []\<rparr>"

definition demo_analyzer_config :: config where
  "demo_analyzer_config = (config_Load Map.empty)\<lparr>cfg_FirmwareAnalyzerToken := replicate 32 CHR ''k''\<rparr>"

definition demo_analyze_ctx :: ctx where
  "demo_analyze_ctx = (bare_request ''POST'' ''/api/v1/firmware/f1/analyze'')\<lparr>cx_req :=
     (cx_req (bare_request ''POST'' ''/api/v1/firmware/f1/analyze''))\<lparr>rq_params := [''id'' \<mapsto> ''f1'']\<rparr>\<rparr>"

definition demo_analysis :: "analyzer_answer \<Rightarrow> analysis_env" where
  "demo_analysis a = \<lparr>nv_answer = a, nv_err_failed = None, nv_err_complete = None, nv_now = 5,
     nv_alert = \<lparr>ae_now = 5, ae_now' = 5, ae_uuid = ''u'', ae_err_count = None, ae_err_insert = None\<rparr>\<rparr>"

lemma demo_analyze_starts:
  "\<exists>c' db1. AnalyzeFirmwareHandler plain_uuids (\<lambda>_. None) demo_analyzer_config demo_analyze_ctx demo_firmware_fleet =
     (c', db1, Some (''f1'', None))"
  by (simp add: AnalyzeFirmwareHandler_def demo_analyzer_config_def uuidParam_def getParam_def demo_analyze_ctx_def bare_request_def
      new_ctx_def demo_firmware_fleet_def demo_image_def upload_row_def nullableString_def trimSpace_def)

theorem analysis_ends_witness:
  "map fr_analysis_status (fl_firmware (snd (analysis_job (demo_analysis (BadStatus 503)) ''f1'' None
     (fst (snd (AnalyzeFirmwareHandler plain_uuids (\<lambda>_. None) demo_analyzer_config demo_analyze_ctx demo_firmware_fleet)))))) =
   [''failed'']"
proof -
  obtain c' db1 where s: "AnalyzeFirmwareHandler plain_uuids (\<lambda>_. None) demo_analyzer_config demo_analyze_ctx demo_firmware_fleet =
     (c', db1, Some (''f1'', None))" using demo_analyze_starts by blast
  have "fr_id demo_image = ''f1''" by (simp add: demo_image_def upload_row_def)
  with analysis_ends [OF s, of "demo_analysis (BadStatus 503)"] show ?thesis
    unfolding s fst_conv snd_conv by (simp add: demo_analysis_def demo_firmware_fleet_def)
qed

end
