(* ===== verification/Health.thy ===== *)
theory Health
  imports Config Probes
begin

text \<open>
  The dependency checks of \<open>backend/middleware/health.go\<close> and the liveness, readiness and health
  endpoints of \<open>backend/api/health.go\<close>.

  The network is a parameter: \<open>dial\<close> gives the connection to an address, \<open>http_get\<close> the status of
  the answer to a request, or nothing when the request fails. \<open>dep_ready\<close> says what readiness is
  meant to be, in terms of the configured dependencies.
\<close>

section \<open>Checks\<close>

record outside =
  od_dial :: "string \<Rightarrow> conn option"
  od_http_get :: "string \<Rightarrow> int option"

definition redisAddr :: "string \<Rightarrow> string" where
  "redisAddr redisURL =
     (let a1 = trimSpace redisURL; a2 = trimPrefix a1 ''rediss://''; a3 = trimPrefix a2 ''redis://'';
          a4 = takeWhile (\<lambda>c. c \<noteq> CHR ''/'') a3
      in if a4 \<noteq> [] \<and> \<not> contains a4 '':'' then a4 @ '':6379'' else a4)"

definition crlf :: string where
  "crlf = [CHR 0x0D, CHR 0x0A]"

definition redis_ping :: string where
  "redis_ping = ''*1'' @ crlf @ ''$4'' @ crlf @ ''PING'' @ crlf"

definition CheckRedis :: "outside \<Rightarrow> string \<Rightarrow> bool" where
  "CheckRedis od redisURL =
     (case od_dial od (redisAddr redisURL) of
        None \<Rightarrow> False
      | Some cn \<Rightarrow>
          if \<not> cn_write_ok cn redis_ping then False
          else if cn_read_err cn redis_ping then False
          else hasPrefix (conn_read cn redis_ping 32) ''+PONG'')"

definition CheckMinIO :: "outside \<Rightarrow> string \<Rightarrow> bool" where
  "CheckMinIO od endpoint =
     (case od_http_get od (''http://'' @ endpoint @ ''/minio/health/live'') of None \<Rightarrow> False | Some st \<Rightarrow> st = 200)"

definition CheckFirmwareAnalyzer :: "outside \<Rightarrow> string \<Rightarrow> bool" where
  "CheckFirmwareAnalyzer od url =
     (case od_http_get od (url @ ''/health'') of None \<Rightarrow> False | Some st \<Rightarrow> st = 200)"

section \<open>The cached probe\<close>

abbreviation depProbeTTL :: duration where
  "depProbeTTL \<equiv> 15 * second"

record dep_state =
  ds_redis :: bool
  ds_minio :: bool
  ds_analyzer :: bool
  ds_checked :: time
  ds_valid :: bool

definition no_deps :: dep_state where
  "no_deps = \<lparr>ds_redis = False, ds_minio = False, ds_analyzer = False, ds_checked = zero_time, ds_valid = False\<rparr>"

text \<open>\<open>now\<close> is the reading of the clock for the age of the cached state, \<open>now'\<close> the one stored.\<close>

definition probe_run :: "outside \<Rightarrow> config \<Rightarrow> time \<Rightarrow> time \<Rightarrow> dep_state \<Rightarrow> dep_state" where
  "probe_run od cfg now now' prev =
     (if ds_valid prev \<and> time_sub now (ds_checked prev) < depProbeTTL then prev
      else \<lparr>ds_redis = (cfg_RedisURL cfg \<noteq> [] \<and> CheckRedis od (cfg_RedisURL cfg)),
            ds_minio = (cfg_S3Endpoint cfg \<noteq> [] \<and> CheckMinIO od (cfg_S3Endpoint cfg)),
            ds_analyzer = (cfg_FirmwareAnalyzerURL cfg \<noteq> [] \<and> CheckFirmwareAnalyzer od (cfg_FirmwareAnalyzerURL cfg)),
            ds_checked = now', ds_valid = True\<rparr>)"

definition unconfiguredOrOK :: "bool \<Rightarrow> bool \<Rightarrow> bool" where
  "unconfiguredOrOK configured ok = (if \<not> configured then True else ok)"

section \<open>Handlers\<close>

definition LivezHandler :: "'w handler" where
  "LivezHandler c w = (reply 200 (JObj [(''status'', JStr ''alive''), (''service'', JStr ''seagles-api'')]) c, w)"

definition redisOK :: "config \<Rightarrow> dep_state \<Rightarrow> bool" where
  "redisOK cfg deps = unconfiguredOrOK (cfg_RedisURL cfg \<noteq> []) (ds_redis deps)"

definition minioOK :: "config \<Rightarrow> dep_state \<Rightarrow> bool" where
  "minioOK cfg deps = unconfiguredOrOK (cfg_S3Endpoint cfg \<noteq> []) (ds_minio deps)"

definition faOK :: "config \<Rightarrow> dep_state \<Rightarrow> bool" where
  "faOK cfg deps = unconfiguredOrOK (cfg_FirmwareAnalyzerURL cfg \<noteq> []) (ds_analyzer deps)"

text \<open>The keys of a JSON object made from a map come in alphabetical order.\<close>

definition unavailable :: "config \<Rightarrow> dep_state \<Rightarrow> string list" where
  "unavailable cfg deps =
     (if faOK cfg deps then [] else [''firmware_analyzer'']) @ (if minioOK cfg deps then [] else [''minio'']) @
     (if redisOK cfg deps then [] else [''redis''])"

definition readiness_json :: "bool \<Rightarrow> string list \<Rightarrow> json" where
  "readiness_json databaseUp un = JObj
     ([(''status'', JStr (if databaseUp then ''ready'' else ''not_ready'')), (''service'', JStr ''seagles-api''),
       (''db_ok'', JBool databaseUp), (''degraded'', JBool (un \<noteq> []))]
      @ (if un = [] then [] else [(''unavailable'', JObj (map (\<lambda>n. (n, JBool True)) un))]))"

definition ReadyzHandler :: "outside \<Rightarrow> config \<Rightarrow> bool \<Rightarrow> time \<Rightarrow> time \<Rightarrow> dep_state handler" where
  "ReadyzHandler od cfg databaseUp now now' c prev =
     (let deps = probe_run od cfg now now' prev
      in (reply (if databaseUp then 200 else 503) (readiness_json databaseUp (unavailable cfg deps)) c, deps))"

definition HealthHandler :: "outside \<Rightarrow> config \<Rightarrow> bool \<Rightarrow> time \<Rightarrow> time \<Rightarrow> dep_state handler" where
  "HealthHandler od cfg databaseUp now now' c prev =
     (let deps = probe_run od cfg now now' prev;
          allOK = (databaseUp \<and> redisOK cfg deps \<and> minioOK cfg deps \<and> faOK cfg deps)
      in (reply (if databaseUp then 200 else 503)
            (JObj [(''status'', JStr (if allOK then ''ok'' else ''degraded'')), (''service'', JStr ''seagles-api''),
                   (''version'', JStr ''2.1.0''), (''db_ok'', JBool databaseUp), (''redis_ok'', JBool (redisOK cfg deps)),
                   (''minio_ok'', JBool (minioOK cfg deps)), (''fa_ok'', JBool (faOK cfg deps))]) c, deps))"

section \<open>Lemmas\<close>

text \<open>A round of checks on a given network.\<close>

definition fresh_deps :: "outside \<Rightarrow> config \<Rightarrow> time \<Rightarrow> dep_state" where
  "fresh_deps od cfg t =
     \<lparr>ds_redis = (cfg_RedisURL cfg \<noteq> [] \<and> CheckRedis od (cfg_RedisURL cfg)),
      ds_minio = (cfg_S3Endpoint cfg \<noteq> [] \<and> CheckMinIO od (cfg_S3Endpoint cfg)),
      ds_analyzer = (cfg_FirmwareAnalyzerURL cfg \<noteq> [] \<and> CheckFirmwareAnalyzer od (cfg_FirmwareAnalyzerURL cfg)),
      ds_checked = t, ds_valid = True\<rparr>"

lemma fresh_deps_simps [simp]: "ds_checked (fresh_deps od cfg t) = t" "ds_valid (fresh_deps od cfg t)"
  by (simp_all add: fresh_deps_def)

lemma probe_run_eq:
  "probe_run od cfg now now' prev =
     (if ds_valid prev \<and> now - ds_checked prev < depProbeTTL then prev else fresh_deps od cfg now')"
  using time_sub_ge_iff [of depProbeTTL now "ds_checked prev"] by (auto simp: probe_run_def fresh_deps_def not_less)

text \<open>A poll of either endpoint: the network it met and its two readings of the clock.\<close>

type_synonym poll = "outside \<times> time \<times> time"

definition poll_step :: "config \<Rightarrow> poll \<Rightarrow> dep_state \<Rightarrow> dep_state" where
  "poll_step cfg p st = (case p of (od, now, now') \<Rightarrow> probe_run od cfg now now' st)"

lemma polls_state:
  "fold (poll_step cfg) ps no_deps = no_deps \<or>
   (\<exists>od now t. (od, now, t) \<in> set ps \<and> fold (poll_step cfg) ps no_deps = fresh_deps od cfg t)"
  by (induction ps rule: rev_induct) (auto simp: poll_step_def probe_run_eq, blast+)

lemma probe_run_sound:
  "probe_run od cfg now now' (fold (poll_step cfg) ps no_deps) = fresh_deps od cfg now' \<or>
   (\<exists>od' s t. (od', s, t) \<in> set ps \<and> now - t < depProbeTTL \<and>
      probe_run od cfg now now' (fold (poll_step cfg) ps no_deps) = fresh_deps od' cfg t)"
proof -
  consider "fold (poll_step cfg) ps no_deps = no_deps"
    | od' s t where "(od', s, t) \<in> set ps" "fold (poll_step cfg) ps no_deps = fresh_deps od' cfg t"
    using polls_state [of cfg ps] by blast
  then show ?thesis
  proof cases
    case 1
    then show ?thesis by (simp add: probe_run_eq) (simp add: no_deps_def)
  next
    case 2
    then show ?thesis by (cases "now - t < depProbeTTL") (auto simp: probe_run_eq)
  qed
qed

section \<open>Property\<close>

text \<open>Readiness is the health of the database and nothing else: whatever the other services answer,
  the endpoint replies 200 when the database is up and 503 when it is not. What it says of the other
  services is true: it is the outcome of a round of checks made by this poll or by one of the polls
  before it less than 15 seconds ago.\<close>

theorem readiness_truthful:
  "case ReadyzHandler od cfg up now now' c (fold (poll_step cfg) ps no_deps) of
     (c', st) \<Rightarrow>
       cx_status c' = (if up then 200 else 503) \<and>
       (\<exists>od' t. ((od', t) = (od, now') \<or> (\<exists>s. (od', s, t) \<in> set ps) \<and> now - t < depProbeTTL) \<and>
          cx_body c' = Some (readiness_json up (unavailable cfg (fresh_deps od' cfg t))))"
proof -
  obtain od' t where "(od', t) = (od, now') \<or> (\<exists>s. (od', s, t) \<in> set ps) \<and> now - t < depProbeTTL"
    "probe_run od cfg now now' (fold (poll_step cfg) ps no_deps) = fresh_deps od' cfg t"
    using probe_run_sound [of od cfg now now' ps] by blast
  then show ?thesis unfolding ReadyzHandler_def Let_def prod.case
    by (intro conjI exI [of _ od'] exI [of _ t]) simp_all
qed

end
