(* ===== verification/Ws_Hub.thy ===== *)
theory Ws_Hub
  imports Gin_Context "HOL-Library.Sublist"
begin

text \<open>
  The WebSocket hub of \<open>backend/api/ws.go\<close>.

  A client is a number that names its \<open>send\<close> channel: a buffer of at most 256 messages that may be
  closed. Closing a closed channel and sending on one are panics, so \<open>Unregister\<close> and \<open>Broadcast\<close>
  give \<open>None\<close> there. The hub's mutex makes each of them one step; a receive by a client's
  \<open>writePump\<close> is a step of its own. The order in which \<open>Broadcast\<close> meets the clients is open in Go
  and an argument here.

  \<open>hub_reach\<close> is the set of states such steps lead to, with what each client was sent by broadcasts
  since it registered and what its pump has received.
\<close>

section \<open>Channels and clients\<close>

record chan =
  ch_buf :: "string list"
  ch_closed :: bool

record ws_hub =
  hb_clients :: "nat list"
  hb_send :: "nat \<rightharpoonup> chan"

abbreviation send_cap :: nat where
  "send_cap \<equiv> 256"

definition close_chan :: "nat \<Rightarrow> ws_hub \<Rightarrow> ws_hub option" where
  "close_chan i h =
     (case hb_send h i of
        None \<Rightarrow> None
      | Some ch \<Rightarrow> if ch_closed ch then None else Some (h\<lparr>hb_send := (hb_send h)(i \<mapsto> ch\<lparr>ch_closed := True\<rparr>)\<rparr>))"

definition Register :: "nat \<Rightarrow> ws_hub \<Rightarrow> ws_hub" where
  "Register i h = h\<lparr>hb_clients := List.insert i (hb_clients h)\<rparr>"

definition Unregister :: "nat \<Rightarrow> ws_hub \<Rightarrow> ws_hub option" where
  "Unregister i h =
     (if i \<in> set (hb_clients h) then close_chan i (h\<lparr>hb_clients := removeAll i (hb_clients h)\<rparr>) else Some h)"

text \<open>The body of the loop of \<open>Broadcast\<close>: a send that would block drops the client.\<close>

definition offer :: "string \<Rightarrow> nat \<Rightarrow> ws_hub \<Rightarrow> ws_hub option" where
  "offer msg i h =
     (case hb_send h i of
        None \<Rightarrow> None
      | Some ch \<Rightarrow>
          if ch_closed ch then None
          else if length (ch_buf ch) < send_cap
          then Some (h\<lparr>hb_send := (hb_send h)(i \<mapsto> ch\<lparr>ch_buf := ch_buf ch @ [msg]\<rparr>)\<rparr>)
          else map_option (\<lambda>h'. h'\<lparr>hb_clients := removeAll i (hb_clients h')\<rparr>) (close_chan i h))"

fun offer_all :: "string \<Rightarrow> nat list \<Rightarrow> ws_hub \<Rightarrow> ws_hub option" where
  "offer_all msg [] h = Some h"
| "offer_all msg (i # is) h = (case offer msg i h of None \<Rightarrow> None | Some h' \<Rightarrow> offer_all msg is h')"

text \<open>\<open>order\<close> is the order of the iteration; a message that cannot be encoded is not sent.\<close>

definition Broadcast :: "string option \<Rightarrow> nat list \<Rightarrow> ws_hub \<Rightarrow> ws_hub option" where
  "Broadcast marshalled order h = (case marshalled of None \<Rightarrow> Some h | Some msg \<Rightarrow> offer_all msg order h)"

section \<open>The pumps\<close>

datatype recv = Got string | Closed | Blocked

definition receive :: "nat \<Rightarrow> ws_hub \<Rightarrow> recv \<times> ws_hub" where
  "receive i h =
     (case hb_send h i of
        None \<Rightarrow> (Blocked, h)
      | Some ch \<Rightarrow>
          (case ch_buf ch of
             m # ms \<Rightarrow> (Got m, h\<lparr>hb_send := (hb_send h)(i \<mapsto> ch\<lparr>ch_buf := ms\<rparr>)\<rparr>)
           | [] \<Rightarrow> (if ch_closed ch then Closed else Blocked, h)))"

datatype frame = TextFrame string | CloseFrame | PingFrame

text \<open>
  One turn of \<open>writePump\<close>: what it writes, and whether it goes on. \<open>tick\<close> says that the ticker fired
  and \<open>write_ok\<close> whether the write succeeds.
\<close>

definition writePump_turn :: "bool \<Rightarrow> bool \<Rightarrow> nat \<Rightarrow> ws_hub \<Rightarrow> (frame option \<times> bool) \<times> ws_hub" where
  "writePump_turn tick write_ok i h =
     (if tick then ((Some PingFrame, write_ok), h)
      else case receive i h of
             (Got m, h') \<Rightarrow> ((Some (TextFrame m), write_ok), h')
           | (Closed, h') \<Rightarrow> ((Some CloseFrame, False), h')
           | (Blocked, h') \<Rightarrow> ((None, True), h'))"

text \<open>\<open>readPump\<close> discards what the peer sends; when reading fails it unregisters the client.\<close>

fun readPump :: "bool list \<Rightarrow> nat \<Rightarrow> ws_hub \<Rightarrow> ws_hub option" where
  "readPump [] i h = Some h"
| "readPump (read_ok # rs) i h = (if read_ok then readPump rs i h else Unregister i h)"

section \<open>The endpoint\<close>

definition checkOrigin :: "string list \<Rightarrow> ctx \<Rightarrow> bool" where
  "checkOrigin allowedOrigins c =
     (let origin = getHeader c ''Origin'' in
      if allowedOrigins = [] then False else if origin = [] then False else origin \<in> set allowedOrigins)"

text \<open>
  \<open>upgrade\<close> stands for the handshake of the WebSocket package, which is given the verdict of
  \<open>CheckOrigin\<close>; it answers the request in either case. \<open>i\<close> is the new client.
\<close>

definition WSHandler :: "(bool \<Rightarrow> ctx \<Rightarrow> ctx + ctx) \<Rightarrow> string list \<Rightarrow> nat \<Rightarrow> ws_hub handler" where
  "WSHandler upgrade allowedOrigins i c h =
     (case upgrade (checkOrigin allowedOrigins c) c of
        Inl c' \<Rightarrow> (c', h)
      | Inr c' \<Rightarrow> (c', Register i (h\<lparr>hb_send := (hb_send h)(i \<mapsto> \<lparr>ch_buf = [], ch_closed = False\<rparr>)\<rparr>)))"

section \<open>Runs\<close>

record hub_run =
  hr_hub :: ws_hub
  hr_sent :: "nat \<Rightarrow> string list"
  hr_recv :: "nat \<Rightarrow> string list"

definition empty_hub :: ws_hub where
  "empty_hub = \<lparr>hb_clients = [], hb_send = Map.empty\<rparr>"

definition enumerates :: "nat list \<Rightarrow> ws_hub \<Rightarrow> bool" where
  "enumerates order h \<longleftrightarrow> distinct order \<and> set order = set (hb_clients h)"

inductive hub_reach :: "hub_run \<Rightarrow> bool" where
  start: "hub_reach \<lparr>hr_hub = empty_hub, hr_sent = (\<lambda>_. []), hr_recv = (\<lambda>_. [])\<rparr>"
| connect: "hub_reach s \<Longrightarrow> hb_send (hr_hub s) i = None \<Longrightarrow>
    hub_reach (s\<lparr>hr_hub := snd (WSHandler upgrade allowed i c (hr_hub s))\<rparr>)"
| leave: "hub_reach s \<Longrightarrow> Unregister i (hr_hub s) = Some h' \<Longrightarrow> hub_reach (s\<lparr>hr_hub := h'\<rparr>)"
| broadcast: "hub_reach s \<Longrightarrow> enumerates order (hr_hub s) \<Longrightarrow> Broadcast (Some msg) order (hr_hub s) = Some h' \<Longrightarrow>
    hub_reach (s\<lparr>hr_hub := h',
      hr_sent := (\<lambda>i. if i \<in> set (hb_clients (hr_hub s)) then hr_sent s i @ [msg] else hr_sent s i)\<rparr>)"
| pump: "hub_reach s \<Longrightarrow> receive i (hr_hub s) = (Got m, h') \<Longrightarrow>
    hub_reach (s\<lparr>hr_hub := h', hr_recv := (hr_recv s)(i := hr_recv s i @ [m])\<rparr>)"

section \<open>The invariant\<close>

text \<open>
  A client is registered exactly as long as its channel is open; what was received and what waits in
  the buffer is what was sent, up to the point where the client was dropped.
\<close>

definition client_ok :: "hub_run \<Rightarrow> nat \<Rightarrow> bool" where
  "client_ok s i \<longleftrightarrow>
     (case hb_send (hr_hub s) i of
        None \<Rightarrow> i \<notin> set (hb_clients (hr_hub s)) \<and> hr_sent s i = [] \<and> hr_recv s i = []
      | Some ch \<Rightarrow>
          (ch_closed ch \<longleftrightarrow> i \<notin> set (hb_clients (hr_hub s))) \<and> length (ch_buf ch) \<le> send_cap \<and>
          prefix (hr_recv s i @ ch_buf ch) (hr_sent s i) \<and>
          (\<not> ch_closed ch \<longrightarrow> hr_recv s i @ ch_buf ch = hr_sent s i))"

definition hub_inv :: "hub_run \<Rightarrow> bool" where
  "hub_inv s \<longleftrightarrow> (\<forall>i. client_ok s i)"

lemma client_ok_frame:
  assumes "client_ok s i" "hb_send (hr_hub t) i = hb_send (hr_hub s) i"
    "i \<in> set (hb_clients (hr_hub t)) \<longleftrightarrow> i \<in> set (hb_clients (hr_hub s))" "hr_sent t i = hr_sent s i" "hr_recv t i = hr_recv s i"
  shows "client_ok t i"
  using assms by (auto simp: client_ok_def split: option.splits)

text \<open>What \<open>offer\<close> does to the client it is made to, and to the others.\<close>

lemma offer_open:
  assumes "hb_send h i = Some ch" "\<not> ch_closed ch"
  obtains h' where "offer msg i h = Some h'"
    "\<And>j. j \<noteq> i \<Longrightarrow> hb_send h' j = hb_send h j \<and> (j \<in> set (hb_clients h') \<longleftrightarrow> j \<in> set (hb_clients h))"
    "if length (ch_buf ch) < send_cap
     then hb_send h' i = Some (ch\<lparr>ch_buf := ch_buf ch @ [msg]\<rparr>) \<and> (i \<in> set (hb_clients h') \<longleftrightarrow> i \<in> set (hb_clients h))
     else hb_send h' i = Some (ch\<lparr>ch_closed := True\<rparr>) \<and> i \<notin> set (hb_clients h')"
  using assms by (cases "length (ch_buf ch) < send_cap") (simp_all add: offer_def close_chan_def)

definition after_offer :: "string \<Rightarrow> chan \<Rightarrow> chan" where
  "after_offer msg ch = (if length (ch_buf ch) < send_cap then ch\<lparr>ch_buf := ch_buf ch @ [msg]\<rparr> else ch\<lparr>ch_closed := True\<rparr>)"

lemma offer_all_open:
  assumes "distinct is" "\<And>i. i \<in> set is \<Longrightarrow> i \<in> set (hb_clients h) \<and> (\<exists>ch. hb_send h i = Some ch \<and> \<not> ch_closed ch)"
  shows "\<exists>h'. offer_all msg is h = Some h' \<and>
     (\<forall>j. hb_send h' j = (if j \<in> set is then map_option (after_offer msg) (hb_send h j) else hb_send h j) \<and>
          (j \<in> set (hb_clients h') \<longleftrightarrow> j \<in> set (hb_clients h) \<and>
             (j \<in> set is \<longrightarrow> (\<exists>ch. hb_send h j = Some ch \<and> length (ch_buf ch) < send_cap))))"
  using assms
proof (induction "is" arbitrary: h)
  case (Cons i rest)
  obtain ch where ch: "hb_send h i = Some ch" "\<not> ch_closed ch" using Cons.prems(2) [of i] by auto
  obtain h1 where h1: "offer msg i h = Some h1"
    "\<And>j. j \<noteq> i \<Longrightarrow> hb_send h1 j = hb_send h j \<and> (j \<in> set (hb_clients h1) \<longleftrightarrow> j \<in> set (hb_clients h))"
    "if length (ch_buf ch) < send_cap
     then hb_send h1 i = Some (ch\<lparr>ch_buf := ch_buf ch @ [msg]\<rparr>) \<and> (i \<in> set (hb_clients h1) \<longleftrightarrow> i \<in> set (hb_clients h))
     else hb_send h1 i = Some (ch\<lparr>ch_closed := True\<rparr>) \<and> i \<notin> set (hb_clients h1)"
    by (rule offer_open [OF ch]) blast
  have open1: "j \<in> set (hb_clients h1) \<and> (\<exists>ch. hb_send h1 j = Some ch \<and> \<not> ch_closed ch)" if "j \<in> set rest" for j
  proof -
    have "j \<noteq> i" using Cons.prems(1) that by auto
    then show ?thesis using h1(2) [of j] Cons.prems(2) [of j] that by auto
  qed
  obtain h' where h': "offer_all msg rest h1 = Some h'"
    "\<And>j. hb_send h' j = (if j \<in> set rest then map_option (after_offer msg) (hb_send h1 j) else hb_send h1 j)"
    "\<And>j. j \<in> set (hb_clients h') \<longleftrightarrow> j \<in> set (hb_clients h1) \<and>
       (j \<in> set rest \<longrightarrow> (\<exists>ch. hb_send h1 j = Some ch \<and> length (ch_buf ch) < send_cap))"
    using Cons.IH [of h1] Cons.prems(1) open1 by auto
  have "i \<notin> set rest" "i \<in> set (hb_clients h)" using Cons.prems by auto
  note i = this
  have at_i: "hb_send h' i = Some (after_offer msg ch)" "i \<in> set (hb_clients h') \<longleftrightarrow> length (ch_buf ch) < send_cap"
    using h1(3) h'(2,3) [of i] i by (auto simp: after_offer_def split: if_splits)
  have other: "hb_send h' j = (if j \<in> set rest then map_option (after_offer msg) (hb_send h j) else hb_send h j)"
    "j \<in> set (hb_clients h') \<longleftrightarrow> j \<in> set (hb_clients h) \<and>
       (j \<in> set rest \<longrightarrow> (\<exists>ch. hb_send h j = Some ch \<and> length (ch_buf ch) < send_cap))" if "j \<noteq> i" for j
    using h1(2) [OF that] h'(2,3) [of j] by simp_all
  have "hb_send h' j = (if j \<in> set (i # rest) then map_option (after_offer msg) (hb_send h j) else hb_send h j) \<and>
     (j \<in> set (hb_clients h') \<longleftrightarrow> j \<in> set (hb_clients h) \<and>
        (j \<in> set (i # rest) \<longrightarrow> (\<exists>ch. hb_send h j = Some ch \<and> length (ch_buf ch) < send_cap)))" for j
  proof (cases "j = i")
    case True
    then show ?thesis using at_i ch i by simp
  next
    case False
    then show ?thesis using other [OF False] by simp
  qed
  with h1(1) h'(1) show ?case by auto
qed simp

text \<open>In a state with the invariant, no operation panics.\<close>

lemma inv_open:
  assumes "hub_inv s" "i \<in> set (hb_clients (hr_hub s))"
  obtains ch where "hb_send (hr_hub s) i = Some ch" "\<not> ch_closed ch"
proof -
  have "client_ok s i" using assms(1) by (simp add: hub_inv_def)
  with assms(2) that show thesis by (auto simp: client_ok_def split: option.splits)
qed

lemma Unregister_total:
  assumes "hub_inv s"
  obtains h' where "Unregister i (hr_hub s) = Some h'"
  using assms by (cases "i \<in> set (hb_clients (hr_hub s))")
    (auto simp: Unregister_def close_chan_def elim: inv_open)

lemma Broadcast_total:
  assumes "hub_inv s" "enumerates order (hr_hub s)"
  shows "\<exists>h'. Broadcast (Some msg) order (hr_hub s) = Some h' \<and>
     (\<forall>j. hb_send h' j = (if j \<in> set (hb_clients (hr_hub s)) then map_option (after_offer msg) (hb_send (hr_hub s) j)
                        else hb_send (hr_hub s) j) \<and>
          (j \<in> set (hb_clients h') \<longleftrightarrow> j \<in> set (hb_clients (hr_hub s)) \<and>
             (\<exists>ch. hb_send (hr_hub s) j = Some ch \<and> length (ch_buf ch) < send_cap)))"
proof -
  have o: "distinct order" "set order = set (hb_clients (hr_hub s))" using assms(2) by (simp_all add: enumerates_def)
  have "i \<in> set (hb_clients (hr_hub s)) \<and> (\<exists>ch. hb_send (hr_hub s) i = Some ch \<and> \<not> ch_closed ch)" if "i \<in> set order" for i
    using that o(2) inv_open [OF assms(1), of i] by blast
  from offer_all_open [OF o(1) this, of msg] show ?thesis
    unfolding Broadcast_def o(2) by auto
qed

lemma inv_connect:
  assumes "hub_inv s" "hb_send (hr_hub s) i = None"
  shows "hub_inv (s\<lparr>hr_hub := snd (WSHandler upgrade allowed i c (hr_hub s))\<rparr>)"
  unfolding hub_inv_def
proof
  fix j
  have ok: "client_ok s j" "client_ok s i" using assms(1) by (simp_all add: hub_inv_def)
  show "client_ok (s\<lparr>hr_hub := snd (WSHandler upgrade allowed i c (hr_hub s))\<rparr>) j"
  proof (cases "j = i")
    case True
    then show ?thesis using ok(2) assms(2)
      by (auto simp: client_ok_def WSHandler_def Register_def split: sum.split)
  next
    case False
    with ok(1) show ?thesis
      by (auto intro: client_ok_frame simp: WSHandler_def Register_def split: sum.split)
  qed
qed

lemma inv_leave:
  assumes "hub_inv s" "Unregister i (hr_hub s) = Some h'"
  shows "hub_inv (s\<lparr>hr_hub := h'\<rparr>)"
  unfolding hub_inv_def
proof
  fix j
  have ok: "client_ok s j" using assms(1) by (simp add: hub_inv_def)
  show "client_ok (s\<lparr>hr_hub := h'\<rparr>) j"
    using ok assms(2) by (auto simp: client_ok_def Unregister_def close_chan_def split: if_splits option.splits)
qed

lemma inv_broadcast:
  assumes "hub_inv s" "enumerates order (hr_hub s)" "Broadcast (Some msg) order (hr_hub s) = Some h'"
  shows "hub_inv (s\<lparr>hr_hub := h',
      hr_sent := (\<lambda>i. if i \<in> set (hb_clients (hr_hub s)) then hr_sent s i @ [msg] else hr_sent s i)\<rparr>)"
  unfolding hub_inv_def
proof
  fix j
  have ok: "client_ok s j" using assms(1) by (simp add: hub_inv_def)
  have h': "hb_send h' j = (if j \<in> set (hb_clients (hr_hub s)) then map_option (after_offer msg) (hb_send (hr_hub s) j)
              else hb_send (hr_hub s) j)"
    "j \<in> set (hb_clients h') \<longleftrightarrow> j \<in> set (hb_clients (hr_hub s)) \<and>
       (\<exists>ch. hb_send (hr_hub s) j = Some ch \<and> length (ch_buf ch) < send_cap)"
    using Broadcast_total [OF assms(1,2), of msg] assms(3) by auto
  show "client_ok (s\<lparr>hr_hub := h',
      hr_sent := (\<lambda>i. if i \<in> set (hb_clients (hr_hub s)) then hr_sent s i @ [msg] else hr_sent s i)\<rparr>) j"
  proof (cases "j \<in> set (hb_clients (hr_hub s))")
    case True
    with inv_open [OF assms(1)] obtain ch where ch: "hb_send (hr_hub s) j = Some ch" "\<not> ch_closed ch" by blast
    with ok True have "hr_recv s j @ ch_buf ch = hr_sent s j" "length (ch_buf ch) \<le> send_cap" by (auto simp: client_ok_def)
    with True ch h' show ?thesis
      by (auto simp: client_ok_def after_offer_def)
  next
    case False
    with h' ok show ?thesis by (auto simp: client_ok_def split: option.splits)
  qed
qed

lemma inv_pump:
  assumes "hub_inv s" "receive i (hr_hub s) = (Got m, h')"
  shows "hub_inv (s\<lparr>hr_hub := h', hr_recv := (hr_recv s)(i := hr_recv s i @ [m])\<rparr>)"
  unfolding hub_inv_def
proof
  fix j
  have ok: "client_ok s j" using assms(1) by (simp add: hub_inv_def)
  then show "client_ok (s\<lparr>hr_hub := h', hr_recv := (hr_recv s)(i := hr_recv s i @ [m])\<rparr>) j"
    using assms(2) by (auto simp: client_ok_def receive_def split: option.splits list.splits if_splits)
qed

lemma hub_reach_inv: "hub_reach s \<Longrightarrow> hub_inv s"
proof (induction rule: hub_reach.induct)
  case start
  show ?case by (simp add: hub_inv_def client_ok_def empty_hub_def)
qed (simp_all add: inv_connect inv_leave inv_broadcast inv_pump)

section \<open>Property\<close>

text \<open>C17: The hub never panics and delivers in order: in every reachable state, unregistering any client
  and broadcasting to the registered ones succeed, so no channel is closed twice or sent on after it was
  closed. A registered client has received, followed by what waits in its buffer, exactly the messages
  broadcast since it connected; a client that was dropped has a first part of them.\<close>

theorem hub_safe_and_in_order:
  assumes "hub_reach s"
  shows "(\<exists>h'. Unregister i (hr_hub s) = Some h') \<and>
    (enumerates order (hr_hub s) \<longrightarrow> (\<exists>h'. Broadcast marshalled order (hr_hub s) = Some h')) \<and>
    (case hb_send (hr_hub s) i of
       None \<Rightarrow> i \<notin> set (hb_clients (hr_hub s))
     | Some ch \<Rightarrow>
         length (ch_buf ch) \<le> send_cap \<and>
         (if i \<in> set (hb_clients (hr_hub s)) then hr_recv s i @ ch_buf ch = hr_sent s i
          else prefix (hr_recv s i @ ch_buf ch) (hr_sent s i)))"
proof (intro conjI impI)
  have inv: "hub_inv s" using assms by (rule hub_reach_inv)
  then show "\<exists>h'. Unregister i (hr_hub s) = Some h'" using Unregister_total by blast
  show "\<exists>h'. Broadcast marshalled order (hr_hub s) = Some h'" if "enumerates order (hr_hub s)"
    using Broadcast_total [OF inv that] by (cases marshalled) (simp add: Broadcast_def, blast)
  have "client_ok s i" using inv by (simp add: hub_inv_def)
  then show "case hb_send (hr_hub s) i of
       None \<Rightarrow> i \<notin> set (hb_clients (hr_hub s))
     | Some ch \<Rightarrow>
         length (ch_buf ch) \<le> send_cap \<and>
         (if i \<in> set (hb_clients (hr_hub s)) then hr_recv s i @ ch_buf ch = hr_sent s i
          else prefix (hr_recv s i @ ch_buf ch) (hr_sent s i))"
    by (auto simp: client_ok_def split: option.split)
qed

section \<open>A run on paper\<close>

text \<open>Client 7 connects from an allowed origin, and one message is broadcast.\<close>

definition demo_ws_ctx :: ctx where
  "demo_ws_ctx = new_ctx \<lparr>rq_method = ''GET'', rq_path = ''/api/v1/ws'', rq_headers = [''Origin'' \<mapsto> ''https://ui''],
     rq_clientIP = [], rq_params = Map.empty, rq_query = Map.empty, rq_contentLength = 0\<rparr>"

definition demo_connected :: ws_hub where
  "demo_connected = snd (WSHandler (\<lambda>ok c. if ok then Inr c else Inl c) [''https://ui''] 7 demo_ws_ctx empty_hub)"

definition demo_hub_run :: hub_run where
  "demo_hub_run = \<lparr>hr_hub = the (Broadcast (Some ''m'') [7] demo_connected), hr_sent = (\<lambda>i. if i = 7 then [''m''] else []),
     hr_recv = (\<lambda>_. [])\<rparr>"

lemma demo_connected_eq: "demo_connected = \<lparr>hb_clients = [7], hb_send = [7 \<mapsto> \<lparr>ch_buf = [], ch_closed = False\<rparr>]\<rparr>"
  by (simp add: demo_connected_def WSHandler_def checkOrigin_def demo_ws_ctx_def new_ctx_def getHeader_def Register_def empty_hub_def)

lemma demo_hub_reach: "hub_reach demo_hub_run"
proof -
  have "hub_reach \<lparr>hr_hub = demo_connected, hr_sent = (\<lambda>_. []), hr_recv = (\<lambda>_. [])\<rparr>"
    using hub_reach.connect [OF hub_reach.start, of 7 "\<lambda>ok c. if ok then Inr c else Inl c" "[''https://ui'']" demo_ws_ctx]
    by (simp add: demo_connected_def empty_hub_def)
  from hub_reach.broadcast [OF this, of "[7]" "''m''" "the (Broadcast (Some ''m'') [7] demo_connected)"]
  show ?thesis
    by (simp add: demo_hub_run_def demo_connected_eq enumerates_def Broadcast_def offer_def if_distrib [of "\<lambda>x. x @ _"] cong: if_cong)
qed

theorem hub_safe_and_in_order_witness:
  "hub_reach demo_hub_run \<and> (\<exists>h'. Unregister 7 (hr_hub demo_hub_run) = Some h') \<and>
   hr_recv demo_hub_run 7 @ ch_buf (the (hb_send (hr_hub demo_hub_run) 7)) = hr_sent demo_hub_run 7"
proof -
  have "hb_send (hr_hub demo_hub_run) 7 = Some \<lparr>ch_buf = [''m''], ch_closed = False\<rparr>" "hb_clients (hr_hub demo_hub_run) = [7]"
    by (simp_all add: demo_hub_run_def demo_connected_eq Broadcast_def offer_def)
  with demo_hub_reach hub_safe_and_in_order [OF demo_hub_reach, of 7] show ?thesis by simp
qed

end
