(* ===== verification/Fleet_Api.thy ===== *)
theory Fleet_Api
  imports Risk Alerts
begin

text \<open>
  The handlers over devices, vulnerabilities and risk: \<open>backend/api/devices.go\<close>,
  \<open>backend/api/vulnerabilities.go\<close> and the breakdown handler of \<open>backend/api/risks.go\<close>.

  \<open>err n\<close> is the error of a handler's \<open>n\<close>-th statement; an error while the rows of statement 0 are
  read is \<open>err 1\<close>. \<open>strconv.ParseFloat\<close> is the parameter \<open>pf\<close>. The product of page and limit is
  computed in 64 bits (\<open>wrap64\<close>), and PostgreSQL refuses a negative offset.
\<close>

section \<open>Devices\<close>

text \<open>\<open>c.DefaultQuery\<close>: the default only when the parameter is absent.\<close>

definition defaultQuery :: "ctx \<Rightarrow> string \<Rightarrow> string \<Rightarrow> string" where
  "defaultQuery c k d = (case rq_query (cx_req c) k of None \<Rightarrow> d | Some v \<Rightarrow> v)"

definition page_of :: "ctx \<Rightarrow> int" where
  "page_of c = (let p = fst (atoi (defaultQuery c ''page'' ''1'')) in if p < 1 then 1 else p)"

definition limit_of :: "ctx \<Rightarrow> int" where
  "limit_of c = (let l = fst (atoi (defaultQuery c ''limit'' ''50'')) in if l < 1 \<or> l > 200 then 50 else l)"

definition offset_of :: "ctx \<Rightarrow> int" where
  "offset_of c = wrap64 (wrap64 (page_of c - 1) * limit_of c)"

definition matching_devices :: "(string \<Rightarrow> rat) \<Rightarrow> ctx \<Rightarrow> fleet \<Rightarrow> device list" where
  "matching_devices pf c db =
     (let rmin = getQuery c ''risk_min''; rmax = getQuery c ''risk_max''; ty = getQuery c ''device_type''
      in sort_key (\<lambda>d. - d_RiskScore d)
           (query_filter ty (\<lambda>d. d_DeviceType d = ty)
             (query_filter rmax (\<lambda>d. d_RiskScore d \<le> pf rmax)
               (query_filter rmin (\<lambda>d. pf rmin \<le> d_RiskScore d) (fl_devices db)))))"

definition device_rows :: "(string \<Rightarrow> rat) \<Rightarrow> ctx \<Rightarrow> fleet \<Rightarrow> device list" where
  "device_rows pf c db = take (nat (limit_of c)) (drop (nat (offset_of c)) (matching_devices pf c db))"

definition ListDevicesHandler :: "(string \<Rightarrow> rat) \<Rightarrow> (nat \<Rightarrow> string option) \<Rightarrow> fleet handler" where
  "ListDevicesHandler pf err c db =
     (case (if offset_of c < 0 then Some ''pq: OFFSET must not be negative'' else err 0) of
        Some e \<Rightarrow> (failInternal 500 ''Failed to query devices: '' e c, db)
      | None \<Rightarrow>
          (case err 1 of Some e \<Rightarrow> (failInternal 500 ''Failed to iterate devices: '' e c, db)
           | None \<Rightarrow>
               (success (JArr (map device_ToJSON (device_rows pf c db))) c, db)))"

fun latest_scan :: "scan list \<Rightarrow> scan option" where
  "latest_scan [] = None"
| "latest_scan (s # ss) =
     (case latest_scan ss of None \<Rightarrow> Some s
      | Some b \<Rightarrow> if s_StartedAt b \<le> s_StartedAt s then Some s else Some b)"

definition GetDeviceHandler :: "uuid_lib \<Rightarrow> (nat \<Rightarrow> string option) \<Rightarrow> fleet handler" where
  "GetDeviceHandler U err c db =
     (case uuidParam U ''id'' c of
        Inl c' \<Rightarrow> (c', db)
      | Inr raw \<Rightarrow>
          (case uuid_arg U (err 0) raw of Inl e \<Rightarrow> (failInternal 500 ''Failed to query device: '' e c, db)
           | Inr i \<Rightarrow>
               (case find (\<lambda>d. d_ID d = i) (fl_devices db) of
                  None \<Rightarrow> (fail 404 ''Device not found'' c, db)
                | Some d \<Rightarrow>
                    (let scan = (if err 1 = None then latest_scan (filter (\<lambda>s. s_DeviceID s = Some i) (fl_scans db)) else None);
                         openVulns = (if err 2 = None then int (length (open_vulns i (fl_vulns db))) else 0)
                     in (success (JObj [(''device'', device_ToJSON d),
                                        (''latest_scan'', case scan of None \<Rightarrow> JNull | Some s \<Rightarrow> scan_ToJSON s),
                                        (''open_vulnerabilities'', JNum openVulns)]) c, db)))))"

definition deactivate_row :: "string \<Rightarrow> device \<Rightarrow> device" where
  "deactivate_row i d = (if d_ID d = i then d\<lparr>d_IsActive := False\<rparr> else d)"

definition DeleteDeviceHandler :: "uuid_lib \<Rightarrow> (nat \<Rightarrow> string option) \<Rightarrow> fleet handler" where
  "DeleteDeviceHandler U err c db =
     (case uuidParam U ''id'' c of
        Inl c' \<Rightarrow> (c', db)
      | Inr raw \<Rightarrow>
          (case uuid_arg U (err 0) raw of Inl e \<Rightarrow> (failInternal 500 ''Failed to delete device: '' e c, db)
           | Inr i \<Rightarrow>
               (let db' = db\<lparr>fl_devices := map (deactivate_row i) (fl_devices db)\<rparr> in
                if \<not> list_ex (\<lambda>d. d_ID d = i) (fl_devices db) then (fail 404 ''Device not found'' c, db')
                else (success (JObj [(''message'', JStr ''Device deactivated'')]) c, db'))))"

section \<open>Vulnerabilities\<close>

text \<open>\<open>ORDER BY cvss_score DESC NULLS LAST, discovered_at DESC\<close>.\<close>

definition vuln_before :: "vuln_row \<Rightarrow> vuln_row \<Rightarrow> bool" where
  "vuln_before a b =
     (case (vu_CVSSScore a, vu_CVSSScore b) of
        (Some x, Some y) \<Rightarrow> x > y \<or> (x = y \<and> vu_DiscoveredAt a \<ge> vu_DiscoveredAt b)
      | (Some x, None) \<Rightarrow> True
      | (None, Some y) \<Rightarrow> False
      | (None, None) \<Rightarrow> vu_DiscoveredAt a \<ge> vu_DiscoveredAt b)"

fun vuln_insert :: "vuln_row \<Rightarrow> vuln_row list \<Rightarrow> vuln_row list" where
  "vuln_insert v [] = [v]"
| "vuln_insert v (w # ws) = (if vuln_before v w then v # w # ws else w # vuln_insert v ws)"

definition vuln_sort :: "vuln_row list \<Rightarrow> vuln_row list" where
  "vuln_sort vs = foldr vuln_insert vs []"

definition ListVulnerabilitiesHandler :: "uuid_lib \<Rightarrow> (nat \<Rightarrow> string option) \<Rightarrow> fleet handler" where
  "ListVulnerabilitiesHandler U err c db =
     (case uuid_filter U (err 0) (getQuery c ''device_id'') of
        Inl e \<Rightarrow> (failInternal 500 ''Failed to query vulnerabilities: '' e c, db)
      | Inr dev \<Rightarrow>
        (case err 1 of Some e \<Rightarrow> (failInternal 500 ''Failed to iterate vulnerabilities: '' e c, db)
         | None \<Rightarrow>
           (let sev = getQuery c ''severity''; kev = getQuery c ''is_kev'';
                res = getQuery c ''is_resolved'';
                rows = query_filter res (\<lambda>v. vu_IsResolved v = parseBool res)
                         (query_filter kev (\<lambda>v. vu_IsKEV v = parseBool kev)
                           (query_filter (getQuery c ''device_id'') (\<lambda>v. vu_DeviceID v = Some dev)
                             (query_filter sev (\<lambda>v. vu_Severity v = sev) (fl_vulns db))))
            in (success (JArr (map vulnerability_ToJSON (vuln_sort rows))) c, db))))"

definition resolve_row :: "time \<Rightarrow> string \<Rightarrow> vuln_row \<Rightarrow> vuln_row" where
  "resolve_row now i v = (if vu_ID v = i then v\<lparr>vu_IsResolved := True, vu_ResolvedAt := Some now\<rparr> else v)"

text \<open>
  The last component is the device whose score the goroutine started by the handler updates, with
  \<open>UpdateDeviceRiskScore\<close>. Statement 1 is the query for that device; its error is ignored.
\<close>

definition ResolveVulnerabilityHandler ::
  "uuid_lib \<Rightarrow> (nat \<Rightarrow> string option) \<Rightarrow> time \<Rightarrow> ctx \<Rightarrow> fleet \<Rightarrow> ctx \<times> fleet \<times> string option" where
  "ResolveVulnerabilityHandler U err now c db =
     (case uuidParam U ''id'' c of
        Inl c' \<Rightarrow> (c', db, None)
      | Inr raw \<Rightarrow>
          (case uuid_arg U (err 0) raw of Inl e \<Rightarrow> (failInternal 500 ''Failed to resolve vulnerability: '' e c, db, None)
           | Inr i \<Rightarrow>
               (let db' = db\<lparr>fl_vulns := map (resolve_row now i) (fl_vulns db)\<rparr> in
                if \<not> list_ex (\<lambda>v. vu_ID v = i) (fl_vulns db) then (fail 404 ''Vulnerability not found'' c, db', None)
                else (success (JObj [(''message'', JStr ''Vulnerability resolved'')]) c, db',
                      if err 1 = None then Option.bind (find (\<lambda>v. vu_ID v = i) (fl_vulns db')) vu_DeviceID else None))))"

section \<open>Risk\<close>

text \<open>
  The counts of the dashboard. The average of a \<open>NUMERIC\<close> column, as the driver hands it over, is the
  parameter \<open>avg\<close>; it is NULL, and shown as 0, when no device is active.
\<close>

definition count_if :: "('a \<Rightarrow> bool) \<Rightarrow> 'a list \<Rightarrow> json" where
  "count_if P xs = JNum (int (length (filter P xs)))"

definition open_severity :: "string \<Rightarrow> vuln_row \<Rightarrow> bool" where
  "open_severity sev v \<longleftrightarrow> vu_Severity v = sev \<and> \<not> vu_IsResolved v"

definition StatsHandler :: "(rat list \<Rightarrow> rat) \<Rightarrow> (nat \<Rightarrow> string option) \<Rightarrow> time \<Rightarrow> fleet handler" where
  "StatsHandler avg err now c db =
     (case err 0 of Some e \<Rightarrow> (failInternal 500 ''Failed to query stats: '' e c, db)
      | None \<Rightarrow>
          (case err 1 of Some e \<Rightarrow> (failInternal 500 ''Failed to query stats counts: '' e c, db)
           | None \<Rightarrow>
               (let active = filter d_IsActive (fl_devices db) in
                (success (JObj
                   [(''total_devices'', JNum (int (length active))),
                    (''online_devices'', count_if (\<lambda>d. d_LastSeen d > now - 5 * minute) active),
                    (''avg_risk_score'', JFloat (if active = [] then 0 else avg (map d_RiskScore active))),
                    (''critical_vulns'', count_if (open_severity ''critical'') (fl_vulns db)),
                    (''high_vulns'', count_if (open_severity ''high'') (fl_vulns db)),
                    (''medium_vulns'', count_if (open_severity ''medium'') (fl_vulns db)),
                    (''low_vulns'', count_if (open_severity ''low'') (fl_vulns db)),
                    (''kev_vulns'', count_if (\<lambda>v. vu_IsKEV v \<and> \<not> vu_IsResolved v) (fl_vulns db)),
                    (''open_alerts'', count_if (\<lambda>a. \<not> al_IsAcknowledged a) (fl_alerts db)),
                    (''suspicious_firmware'', count_if (\<lambda>f. fr_analysis_status f = ''complete'' \<and>
                        (fr_has_backdoor_indicators f \<or> fr_has_default_creds f)) (fl_firmware db))]) c, db))))"

definition RiskBreakdownHandler :: "uuid_lib \<Rightarrow> (nat \<Rightarrow> string option) \<Rightarrow> time \<Rightarrow> fleet handler" where
  "RiskBreakdownHandler U err now c db =
     (case uuidParam U ''id'' c of
        Inl c' \<Rightarrow> (c', db)
      | Inr raw \<Rightarrow>
          (case (case uu_pg U raw of
                   None \<Rightarrow> GetRiskBreakdown (\<lambda>_. Some invalid_uuid) now db raw
                 | Some i \<Rightarrow> GetRiskBreakdown err now db i) of
             Inl e \<Rightarrow> (fail 500 (''Failed to compute risk breakdown: '' @ e) c, db)
           | Inr result \<Rightarrow> (success result c, db)))"

section \<open>Lemmas\<close>

lemma limit_of_range: "1 \<le> limit_of c" "limit_of c \<le> 200"
  by (auto simp: limit_of_def Let_def)

lemma page_of_ge: "1 \<le> page_of c"
  by (auto simp: page_of_def Let_def)

lemma offset_of_small:
  assumes "page_of c \<le> 46116860184273879"
  shows "offset_of c = (page_of c - 1) * limit_of c"
proof -
  have "(page_of c - 1) * limit_of c \<le> (46116860184273879 - 1) * 200"
    using assms page_of_ge [of c] limit_of_range [of c] by (intro mult_mono) auto
  moreover have "0 \<le> (page_of c - 1) * limit_of c"
    using page_of_ge [of c] limit_of_range [of c] by simp
  ultimately show ?thesis using assms page_of_ge [of c] by (simp add: offset_of_def)
qed

lemma open_vulns_resolve:
  "open_vulns dev (map (resolve_row now i) vs) = filter (\<lambda>v. vu_ID v \<noteq> i) (open_vulns dev vs)"
  by (induction vs) (auto simp: open_vulns_def resolve_row_def)

lemma length_filter_conj: "length (filter (\<lambda>x. Q x \<and> P x) xs) \<le> length (filter P xs)"
  by (induction xs) auto

lemma resolve_factors_le:
  assumes "BuildRiskFactors (\<lambda>_. None) now db dev = Inr f"
    and "BuildRiskFactors (\<lambda>_. None) now (db\<lparr>fl_vulns := map (resolve_row t i) (fl_vulns db)\<rparr>) dev = Inr g"
  shows "factors_le g f \<and> 0 \<le> KnownCVECount g \<and> 0 \<le> KEVMatchCount g"
  using assms
  by (auto simp: BuildRiskFactors_def Let_def factors_le_def fold_title_factors open_vulns_resolve no_factors_def
      intro!: length_filter_conj)

lemma concat_pages: "concat (map (\<lambda>k. take L (drop (k * L) xs)) [0..<n]) = take (n * L) xs"
proof (induction n)
  case (Suc n)
  have "take (n * L) xs @ take L (drop (n * L) xs) = take (n * L + L) xs" by (simp add: take_add)
  with Suc show ?case by (simp add: add.commute)
qed simp

definition page_request :: "string \<Rightarrow> string \<Rightarrow> ctx" where
  "page_request p l = new_ctx \<lparr>rq_method = ''GET'', rq_path = ''/api/v1/devices'', rq_headers = Map.empty,
     rq_clientIP = [], rq_params = Map.empty, rq_query = [''page'' \<mapsto> p, ''limit'' \<mapsto> l], rq_contentLength = 0\<rparr>"

section \<open>Properties\<close>

text \<open>C28: Resolving a vulnerability never raises a risk score: for every device, the score computed
  after the request, at the same time, is at most the score computed before it.\<close>

theorem resolving_never_raises_score:
  assumes "ResolveVulnerabilityHandler U err t c db = (c', db', upd)"
    and "BuildRiskFactors (\<lambda>_. None) now db dev = Inr f" "BuildRiskFactors (\<lambda>_. None) now db' dev = Inr g"
  shows "CalculateRiskScore g \<le> CalculateRiskScore f"
proof -
  consider "db' = db" | i where "db' = db\<lparr>fl_vulns := map (resolve_row t i) (fl_vulns db)\<rparr>"
    using assms(1) by (auto simp: ResolveVulnerabilityHandler_def Let_def split: sum.splits option.splits if_splits)
  then show ?thesis
  proof cases
    case 1
    then show ?thesis using assms(2,3) by simp
  next
    case 2
    then show ?thesis using resolve_factors_le [OF assms(2)] assms(3) by (auto intro: score_mono)
  qed
qed

definition demo_vuln :: vuln_row where
  "demo_vuln = \<lparr>vu_ID = ''v1'', vu_DeviceID = Some ''d1'', vu_ScanID = None, vu_CVEID = None, vu_CVSSScore = None,
     vu_Severity = ''critical'', vu_Title = ''Telnet'', vu_Description = None, vu_AffectedComponent = None,
     vu_Remediation = None, vu_IsKEV = False, vu_DiscoveredAt = 0, vu_ResolvedAt = None, vu_IsResolved = False,
     vu_epss_score = None, vu_epss_percentile = None, vu_epss_updated_at = None\<rparr>"

definition demo_fleet :: fleet where
  "demo_fleet = \<lparr>fl_devices = [demo_device], fl_scans = [], fl_vulns = [demo_vuln], fl_firmware = [], fl_alerts = []\<rparr>"

definition resolve_request :: ctx where
  "resolve_request = new_ctx \<lparr>rq_method = ''PATCH'', rq_path = ''/api/v1/vulnerabilities/v1/resolve'', rq_headers = Map.empty,
     rq_clientIP = [], rq_params = [''id'' \<mapsto> ''v1''], rq_query = Map.empty, rq_contentLength = 0\<rparr>"

theorem resolving_never_raises_score_witness:
  "CalculateRiskScore (no_factors\<lparr>HasTelnet := False\<rparr>) \<le> CalculateRiskScore (no_factors\<lparr>HasTelnet := True\<rparr>)"
proof (rule resolving_never_raises_score [where db = demo_fleet and dev = "''d1''" and now = 5 and c = resolve_request])
  show "ResolveVulnerabilityHandler plain_uuids (\<lambda>_. None) 3 resolve_request demo_fleet =
    (success (JObj [(''message'', JStr ''Vulnerability resolved'')]) resolve_request,
     demo_fleet\<lparr>fl_vulns := [demo_vuln\<lparr>vu_IsResolved := True, vu_ResolvedAt := Some 3\<rparr>]\<rparr>, Some ''d1'')"
    by (simp add: ResolveVulnerabilityHandler_def uuidParam_def getParam_def resolve_request_def new_ctx_def demo_fleet_def
        resolve_row_def demo_vuln_def)
  show "BuildRiskFactors (\<lambda>_. None) 5 demo_fleet ''d1'' = Inr (no_factors\<lparr>HasTelnet := True\<rparr>)"
    by (simp add: BuildRiskFactors_def demo_fleet_def open_vulns_def demo_vuln_def title_factors_def no_factors_def
        last_scan_def toLower_def char_lower_def hasPrefix_def char_of_def bit_0)
  show "BuildRiskFactors (\<lambda>_. None) 5 (demo_fleet\<lparr>fl_vulns := [demo_vuln\<lparr>vu_IsResolved := True, vu_ResolvedAt := Some 3\<rparr>]\<rparr>) ''d1''
    = Inr (no_factors\<lparr>HasTelnet := False\<rparr>)"
    by (simp add: BuildRiskFactors_def demo_fleet_def open_vulns_def demo_vuln_def no_factors_def last_scan_def)
qed

text \<open>The pages of the device list cover it without gap or overlap: the rows of the first \<open>n\<close>
  pages, put together, are the first \<open>n\<close> times \<open>limit\<close> rows of the filtered and sorted list.\<close>

theorem device_pages_partition:
  assumes "\<And>k. k < n \<Longrightarrow> page_of (cs k) = int k + 1 \<and> limit_of (cs k) = L \<and> matching_devices pf (cs k) db = xs"
    and "int n \<le> 46116860184273879"
  shows "concat (map (\<lambda>k. device_rows pf (cs k) db) [0..<n]) = take (n * nat L) xs"
proof -
  have "device_rows pf (cs k) db = take (nat L) (drop (k * nat L) xs)" if "k < n" for k
  proof -
    have "offset_of (cs k) = int k * L" using assms that offset_of_small [of "cs k"] by simp
    then show ?thesis using assms(1) [OF that] limit_of_range [of "cs k"] by (simp add: device_rows_def nat_mult_distrib)
  qed
  then have "map (\<lambda>k. device_rows pf (cs k) db) [0..<n] = map (\<lambda>k. take (nat L) (drop (k * nat L) xs)) [0..<n]"
    by simp
  then show ?thesis by (simp only: concat_pages)
qed

theorem device_pages_partition_witness:
  "concat (map (\<lambda>k. device_rows (\<lambda>_. 0) (page_request (if k = 0 then ''1'' else ''2'') ''1'') demo_fleet) [0..<2]) =
   take (2 * nat 1) [demo_device]"
proof (rule device_pages_partition)
  fix k :: nat assume "k < 2"
  then have "k = 0 \<or> k = 1" by auto
  then show "page_of (page_request (if k = 0 then ''1'' else ''2'') ''1'') = int k + 1 \<and>
     limit_of (page_request (if k = 0 then ''1'' else ''2'') ''1'') = 1 \<and>
     matching_devices (\<lambda>_. 0) (page_request (if k = 0 then ''1'' else ''2'') ''1'') demo_fleet = [demo_device]"
    by (auto simp: page_of_def limit_of_def defaultQuery_def page_request_def new_ctx_def atoi_def hasPrefix_def is_digit_def
        digits_value_def matching_devices_def query_filter_def getQuery_def demo_fleet_def Let_def)
qed simp

text \<open>A page number so large that the product with the limit overflows makes the offset
  negative, and the request is answered with an internal error.\<close>

theorem device_page_overflow:
  "cx_status (fst (ListDevicesHandler pf err (page_request ''9223372036854775807'' ''200'') db)) = 500"
  by (simp add: ListDevicesHandler_def offset_of_def page_of_def limit_of_def defaultQuery_def page_request_def new_ctx_def
      atoi_def hasPrefix_def is_digit_def digits_value_def wrap64_def failInternal_def Let_def)

end
