(* ===== verification/Router.thy ===== *)
theory Router
  imports Session Rate_Limit Csrf Sanitize Metrics Audit_Log Scan_Pipeline Kev Firmware Health Ws_Hub Fleet_Api
begin

text \<open>
  The router of \<open>backend/api/router.go\<close>: the state of the whole server, the global middleware in their
  order, the table of routes with their guards, and the way a request takes through them.

  Finding the route of a path is gin's work and the parameter \<open>find_route\<close>. The handlers behind the
  routes are the parameter \<open>H\<close> of \<open>serve\<close>; \<open>Api\<close> gives it the handlers of the other theories.

  The locale \<open>stop_or_pass\<close> describes middleware: for a given request it either answers by itself,
  whatever comes after it, or runs what comes after it once and changes no more than the relations
  allow. The property composes, so facts about the whole chain follow from one lemma per middleware.
\<close>

section \<open>State\<close>

text \<open>
  \<open>dt_jobs\<close>, \<open>dt_analyses\<close>, \<open>dt_rescores\<close> and \<open>dt_sweeps\<close> are the goroutines that handlers have
  started: device scans, firmware analyses, new risk scores and scans of the network.
\<close>

record ('sk, 'pk) data =
  dt_server :: "('sk, 'pk) server"
  dt_alerting :: alerting
  dt_admin :: scan_admin
  dt_jobs :: "scan_job list"
  dt_files :: "string \<rightharpoonup> string"
  dt_objects :: "string \<rightharpoonup> string"
  dt_analyses :: "(string \<times> string option) list"
  dt_rescores :: "string list"
  dt_sweeps :: nat
  dt_probe :: dep_state
  dt_hub :: ws_hub

record ('sk, 'pk) app =
  ap_limiter :: rate_limiter
  ap_csrf :: csrf_store
  ap_metrics :: metrics
  ap_audit :: "audit_row list"
  ap_data :: "('sk, 'pk) data"

text \<open>What a request meets beside the state: the clock, random values, the libraries and the configuration.\<close>

record ('sk, 'pk) gate =
  ga_crypto :: "('sk, 'pk) crypto_lib"
  ga_cfg :: config
  ga_uuid :: string
  ga_rnd :: string
  ga_csrf_now :: time
  ga_csrf_now' :: time
  ga_rl_now :: time
  ga_rl_now' :: time
  ga_start :: time
  ga_stop :: time
  ga_auth_now :: time
  ga_unmarshal :: "string \<Rightarrow> json option"
  ga_marshal :: "json \<Rightarrow> string option"
  ga_readErr :: bool
  ga_audit :: audit_env

section \<open>The global middleware\<close>

definition requestID :: "string \<Rightarrow> 'w middleware" where
  "requestID uuid next c w =
     (let rid = (if getHeader c ''X-Request-ID'' = [] then uuid else getHeader c ''X-Request-ID'')
      in next (set_header ''X-Request-ID'' rid (cset ''request_id'' (GString rid) c)) w)"

definition security_headers :: "(string \<times> string) list" where
  "security_headers =
     [(''X-Content-Type-Options'', ''nosniff''), (''X-Frame-Options'', ''DENY''), (''X-XSS-Protection'', ''1; mode=block''),
      (''Referrer-Policy'', ''strict-origin-when-cross-origin''),
      (''Strict-Transport-Security'', ''max-age=31536000; includeSubDomains''),
      (''Content-Security-Policy'', ''default-src '' @ [CHR 0x27] @ ''self'' @ [CHR 0x27]),
      (''Permissions-Policy'', ''camera=(), microphone=(), geolocation=()'')]"

definition set_headers :: "(string \<times> string) list \<Rightarrow> ctx \<Rightarrow> ctx" where
  "set_headers kvs c = fold (\<lambda>(k, v). set_header k v) kvs c"

definition securityHeaders :: "'w middleware" where
  "securityHeaders next c w = next (set_headers security_headers c) w"

definition cors_headers :: "(string \<times> string) list" where
  "cors_headers =
     [(''Access-Control-Allow-Methods'', ''GET, POST, PUT, PATCH, DELETE, OPTIONS''),
      (''Access-Control-Allow-Headers'', ''Content-Type, Authorization, X-Request-ID, X-CSRF-Token''),
      (''Access-Control-Expose-Headers'', ''X-Request-ID, X-CSRF-Token''), (''Access-Control-Max-Age'', ''86400'')]"

definition allowed_origin :: "string list \<Rightarrow> string \<Rightarrow> string" where
  "allowed_origin allowed orig = (case find (\<lambda>o'. o' = orig) allowed of None \<Rightarrow> [] | Some o' \<Rightarrow> o')"

definition cors :: "string list \<Rightarrow> 'w middleware" where
  "cors allowed next c w =
     (let ao = allowed_origin allowed (getHeader c ''Origin'');
          c1 = (if ao \<noteq> [] then set_header ''Access-Control-Allow-Origin'' ao c else c);
          c2 = set_headers cors_headers c1
      in if rq_method (cx_req c) = ''OPTIONS'' then (abort (c2\<lparr>cx_status := 204\<rparr>), w) else next c2 w)"

definition bodyLimit :: "'w middleware" where
  "bodyLimit next c w =
     (if rq_contentLength (cx_req c) > 104857600
      then (abort_fail 413 ''Request body too large (max 100MB)'' c, w) else next c w)"

section \<open>Routes\<close>

datatype access = Public | Protected "string option"

datatype endpoint =
  Login | Refresh | MetricsPage | SwaggerJSON | Docs | Livez | Readyz | HealthPage | WS | Me | Permissions | Logout
| ChangePassword | Stats | ListDevices | GetDevice | DeleteDevice | ScanDevice | RiskBreakdown | ListScans | GetScan
| NetworkScan | ListVulns | ResolveVuln | ListFirmware | AnalyzeFirmware | UploadFirmware | ListAlerts | AckAlert
| KEVStatus | ListSafelist | CreateSafelist | DeleteSafelist | ListScanProfiles | ListScanScopes | CreateScanScope
| DeleteScanScope | ListWebhooks | CreateWebhook | DeleteWebhook | TestWebhook | ListUsers | RegisterUser
| ListAuditLog | ListSessions | RevokeSession

record route =
  rt_method :: string
  rt_path :: string
  rt_access :: access
  rt_endpoint :: endpoint

definition route_of :: "string \<Rightarrow> string \<Rightarrow> access \<Rightarrow> endpoint \<Rightarrow> route" where
  "route_of m p a e = \<lparr>rt_method = m, rt_path = ''/api/v1'' @ p, rt_access = a, rt_endpoint = e\<rparr>"

abbreviation AnyUser :: access where "AnyUser \<equiv> Protected None"
abbreviation Admin :: access where "Admin \<equiv> Protected (Some ''admin'')"

definition routes :: "route list" where
  "routes =
     [route_of ''POST'' ''/auth/login'' Public Login, route_of ''POST'' ''/auth/refresh'' Public Refresh,
      route_of ''GET'' ''/metrics'' Public MetricsPage, route_of ''GET'' ''/swagger.json'' Public SwaggerJSON,
      route_of ''GET'' ''/docs'' Public Docs, route_of ''GET'' ''/livez'' Public Livez,
      route_of ''GET'' ''/readyz'' Public Readyz, route_of ''GET'' ''/health'' Public HealthPage,
      route_of ''GET'' ''/ws'' AnyUser WS, route_of ''GET'' ''/auth/me'' AnyUser Me,
      route_of ''GET'' ''/auth/permissions'' AnyUser Permissions, route_of ''POST'' ''/auth/logout'' AnyUser Logout,
      route_of ''POST'' ''/auth/change-password'' AnyUser ChangePassword, route_of ''GET'' ''/stats'' AnyUser Stats,
      route_of ''GET'' ''/devices'' AnyUser ListDevices, route_of ''GET'' ''/devices/:id'' AnyUser GetDevice,
      route_of ''DELETE'' ''/devices/:id'' Admin DeleteDevice, route_of ''POST'' ''/devices/:id/scan'' Admin ScanDevice,
      route_of ''GET'' ''/devices/:id/risk-breakdown'' AnyUser RiskBreakdown, route_of ''GET'' ''/scans'' AnyUser ListScans,
      route_of ''GET'' ''/scans/:id'' AnyUser GetScan, route_of ''POST'' ''/scan/network'' Admin NetworkScan,
      route_of ''GET'' ''/vulnerabilities'' AnyUser ListVulns,
      route_of ''PATCH'' ''/vulnerabilities/:id/resolve'' Admin ResolveVuln,
      route_of ''GET'' ''/firmware'' AnyUser ListFirmware, route_of ''POST'' ''/firmware/:id/analyze'' Admin AnalyzeFirmware,
      route_of ''POST'' ''/firmware/upload'' Admin UploadFirmware, route_of ''GET'' ''/alerts'' AnyUser ListAlerts,
      route_of ''POST'' ''/alerts/:id/ack'' AnyUser AckAlert, route_of ''GET'' ''/kev/status'' AnyUser KEVStatus,
      route_of ''GET'' ''/safelists'' AnyUser ListSafelist, route_of ''POST'' ''/safelists'' Admin CreateSafelist,
      route_of ''DELETE'' ''/safelists/:id'' Admin DeleteSafelist,
      route_of ''GET'' ''/scan-profiles'' AnyUser ListScanProfiles, route_of ''GET'' ''/scan-scopes'' AnyUser ListScanScopes,
      route_of ''POST'' ''/scan-scopes'' Admin CreateScanScope, route_of ''DELETE'' ''/scan-scopes/:id'' Admin DeleteScanScope,
      route_of ''GET'' ''/webhooks'' Admin ListWebhooks, route_of ''POST'' ''/webhooks'' Admin CreateWebhook,
      route_of ''DELETE'' ''/webhooks/:id'' Admin DeleteWebhook, route_of ''POST'' ''/webhooks/:id/test'' Admin TestWebhook,
      route_of ''GET'' ''/users'' Admin ListUsers, route_of ''POST'' ''/users'' Admin RegisterUser,
      route_of ''GET'' ''/audit-log'' (Protected (Some ''auditor'')) ListAuditLog,
      route_of ''GET'' ''/sessions'' Admin ListSessions, route_of ''DELETE'' ''/sessions/:id'' Admin RevokeSession]"

section \<open>The way of a request\<close>

text \<open>
  The authentication middleware on the whole state: it changes nothing, and gin goes on with the next
  handler when it has not aborted.
\<close>

definition auth_app :: "('sk, 'pk) gate \<Rightarrow> ('sk, 'pk) app middleware" where
  "auth_app G next c w =
     (case AuthMiddleware (ga_crypto G) (ga_auth_now G) (\<lambda>c s. (c, s)) c (dt_server (ap_data w)) of
        (c', s) \<Rightarrow> if cx_aborted c' then (c', w) else next c' w)"

definition guards :: "('sk, 'pk) gate \<Rightarrow> access \<Rightarrow> ('sk, 'pk) app middleware" where
  "guards G a next =
     (case a of
        Public \<Rightarrow> next
      | Protected None \<Rightarrow> auth_app G (RequirePasswordChange next)
      | Protected (Some role) \<Rightarrow> auth_app G (RequirePasswordChange (RequireRole role next)))"

definition audit_skip :: "string list" where
  "audit_skip = [''/api/v1/auth/login'', ''/api/v1/auth/refresh'', ''/api/v1/health'', ''/api/v1/livez'', ''/api/v1/readyz'', ''/api/v1/ws'']"

definition has_user :: "('sk, 'pk) app \<Rightarrow> string \<Rightarrow> bool" where
  "has_user w uid \<longleftrightarrow> list_ex (\<lambda>r. ur_id r = uid) (sv_users (dt_server (ap_data w)))"

definition audit_mw :: "('sk, 'pk) gate \<Rightarrow> ('sk, 'pk) app middleware" where
  "audit_mw G = AuditLogger ap_audit (\<lambda>rows w. w\<lparr>ap_audit := rows\<rparr>) has_user (ga_audit G) audit_skip"

definition outer_chain ::
  "('sk, 'pk) gate \<Rightarrow> string \<Rightarrow> (string \<Rightarrow> ('sk, 'pk) app handler) \<Rightarrow> ('sk, 'pk) app handler" where
  "outer_chain G body next =
     chain [CSRFMiddleware (sha256 (ga_crypto G)) ap_csrf (\<lambda>s w. w\<lparr>ap_csrf := s\<rparr>) (ga_rnd G) (ga_csrf_now G) (ga_csrf_now' G),
            bodyLimit,
            RateLimitMiddleware ap_limiter (\<lambda>s w. w\<lparr>ap_limiter := s\<rparr>) (ga_rl_now G) (ga_rl_now' G),
            MetricsMiddleware ap_metrics (\<lambda>m w. w\<lparr>ap_metrics := m\<rparr>) (ga_start G) (ga_stop G)]
       (SanitizeInput (ga_unmarshal G) (ga_marshal G) DefaultXSSConfig (ga_readErr G) body next)"

definition inner_chain ::
  "('sk, 'pk) gate \<Rightarrow> string \<Rightarrow> (string \<Rightarrow> ('sk, 'pk) app handler) \<Rightarrow> ('sk, 'pk) app handler" where
  "inner_chain G body next = outer_chain G body (\<lambda>b. audit_mw G (next b))"

definition global_chain ::
  "('sk, 'pk) gate \<Rightarrow> string \<Rightarrow> (string \<Rightarrow> ('sk, 'pk) app handler) \<Rightarrow> ('sk, 'pk) app handler" where
  "global_chain G body next =
     chain [requestID (ga_uuid G), securityHeaders, cors (cfg_AllowedOrigins (ga_cfg G))] (inner_chain G body next)"

definition not_found :: "'w handler" where
  "not_found c w = (c\<lparr>cx_status := 404, cx_body := Some (JRaw ''404 page not found'')\<rparr>, w)"

text \<open>
  What gin finds for a method and a path: a route with the values of its parameters, none, or one that differs
  in a slash at the end, to which it sends the client before any middleware runs.
\<close>

datatype lookup = Found route "string \<rightharpoonup> string" | Redirect string | NoRoute

type_synonym finder = "string \<Rightarrow> string \<Rightarrow> lookup"

definition redirected :: "string \<Rightarrow> 'w handler" where
  "redirected target c w =
     (set_header ''Location'' target (c\<lparr>cx_status := (if rq_method (cx_req c) = ''GET'' then 301 else 307)\<rparr>), w)"

definition with_params :: "(string \<rightharpoonup> string) \<Rightarrow> ctx \<Rightarrow> ctx" where
  "with_params ps c = c\<lparr>cx_req := (cx_req c)\<lparr>rq_params := ps\<rparr>\<rparr>"

definition serve ::
  "finder \<Rightarrow> (endpoint \<Rightarrow> string \<Rightarrow> ('sk, 'pk) app handler) \<Rightarrow> ('sk, 'pk) gate \<Rightarrow> string \<Rightarrow> ('sk, 'pk) app handler" where
  "serve find_route H G body c w =
     (case find_route (rq_method (cx_req c)) (rq_path (cx_req c)) of
        NoRoute \<Rightarrow> global_chain G body (\<lambda>b. not_found) c w
      | Redirect target \<Rightarrow> redirected target c w
      | Found r ps \<Rightarrow> global_chain G body (\<lambda>b. guards G (rt_access r) (H (rt_endpoint r) b)) (with_params ps c) w)"

section \<open>Middleware that stops or passes\<close>

locale stop_or_pass =
  fixes le_c :: "ctx \<Rightarrow> ctx \<Rightarrow> bool" and le_w :: "'w \<Rightarrow> 'w \<Rightarrow> bool" and halts :: "ctx \<Rightarrow> ctx \<Rightarrow> bool"
  assumes c_refl: "le_c c c" and c_trans: "le_c a b \<Longrightarrow> le_c b c \<Longrightarrow> le_c a c"
    and w_refl: "le_w w w" and w_trans: "le_w u v \<Longrightarrow> le_w v x \<Longrightarrow> le_w u x"
    and halts_after: "le_c a b \<Longrightarrow> halts b c \<Longrightarrow> halts a c"
begin

text \<open>What follows is a family of handlers: a middleware may choose among them, as the sanitiser chooses a body.\<close>

definition stopped :: "(('b \<Rightarrow> 'w handler) \<Rightarrow> 'w handler) \<Rightarrow> ctx \<Rightarrow> 'w \<Rightarrow> bool" where
  "stopped k c w \<longleftrightarrow> (\<exists>c' w'. halts c c' \<and> le_w w w' \<and> (\<forall>n. k n c w = (c', w')))"

definition passed :: "(('b \<Rightarrow> 'w handler) \<Rightarrow> 'w handler) \<Rightarrow> ctx \<Rightarrow> 'w \<Rightarrow> bool" where
  "passed k c w \<longleftrightarrow> (\<exists>b c1 w1 f. le_c c c1 \<and> le_w w w1 \<and> (\<forall>c2 w2. le_w w2 (f c2 w2)) \<and>
     (\<forall>n. k n c w = (fst (n b c1 w1), f (fst (n b c1 w1)) (snd (n b c1 w1)))))"

definition ok :: "(('b \<Rightarrow> 'w handler) \<Rightarrow> 'w handler) \<Rightarrow> bool" where
  "ok k \<longleftrightarrow> (\<forall>c w. stopped k c w \<or> passed k c w)"

abbreviation plain :: "'w middleware \<Rightarrow> bool" where
  "plain m \<equiv> ok (\<lambda>n. m (n ()))"

lemma stopI: "halts c c' \<Longrightarrow> le_w w w' \<Longrightarrow> (\<And>n. k n c w = (c', w')) \<Longrightarrow> stopped k c w"
  unfolding stopped_def by blast

lemma passI: "le_c c c1 \<Longrightarrow> le_w w w1 \<Longrightarrow> (\<And>n. k n c w = n b c1 w1) \<Longrightarrow> passed k c w"
  unfolding passed_def
  by (rule exI [of _ b], rule exI [of _ c1], rule exI [of _ w1], rule exI [of _ "\<lambda>c2 w2. w2"]) (simp add: w_refl)

lemma pass_thenI:
  "le_c c c1 \<Longrightarrow> le_w w w1 \<Longrightarrow> (\<And>c2 w2. le_w w2 (f c2 w2)) \<Longrightarrow>
   (\<And>n. k n c w = (fst (n b c1 w1), f (fst (n b c1 w1)) (snd (n b c1 w1)))) \<Longrightarrow> passed k c w"
  unfolding passed_def by blast

text \<open>Composition: the inner middleware may stop what the outer one passed on.\<close>

lemma ok_comp:
  assumes "ok k1" "\<And>b. ok (k2 b)"
  shows "ok (\<lambda>n. k1 (\<lambda>b. k2 b n))"
  unfolding ok_def
proof (intro allI)
  fix c w
  consider "stopped k1 c w" | "passed k1 c w" using assms(1) by (auto simp: ok_def)
  then show "stopped (\<lambda>n. k1 (\<lambda>b. k2 b n)) c w \<or> passed (\<lambda>n. k1 (\<lambda>b. k2 b n)) c w"
  proof cases
    case 1
    then show ?thesis unfolding stopped_def by blast
  next
    case 2
    then obtain b c1 w1 f where p: "le_c c c1" "le_w w w1" "\<And>c2 w2. le_w w2 (f c2 w2)"
      "\<And>n. k1 n c w = (fst (n b c1 w1), f (fst (n b c1 w1)) (snd (n b c1 w1)))"
      unfolding passed_def by blast
    consider "stopped (k2 b) c1 w1" | "passed (k2 b) c1 w1" using assms(2) [of b] by (auto simp: ok_def)
    then show ?thesis
    proof cases
      case 1
      then obtain c' w' where s: "halts c1 c'" "le_w w1 w'" "\<And>n. k2 b n c1 w1 = (c', w')" unfolding stopped_def by blast
      have "stopped (\<lambda>n. k1 (\<lambda>b. k2 b n)) c w"
        by (rule stopI [where c' = c' and w' = "f c' w'"])
           (use halts_after [OF p(1) s(1)] w_trans [OF w_trans [OF p(2) s(2)] p(3)] p(4) s(3) in simp_all)
      then show ?thesis ..
    next
      case 2
      then obtain b' c1' w1' f' where q: "le_c c1 c1'" "le_w w1 w1'" "\<And>c2 w2. le_w w2 (f' c2 w2)"
        "\<And>n. k2 b n c1 w1 = (fst (n b' c1' w1'), f' (fst (n b' c1' w1')) (snd (n b' c1' w1')))"
        unfolding passed_def by blast
      have "passed (\<lambda>n. k1 (\<lambda>b. k2 b n)) c w"
        unfolding passed_def
        by (rule exI [of _ b'], rule exI [of _ c1'], rule exI [of _ w1'], rule exI [of _ "\<lambda>c2 w2. f c2 (f' c2 w2)"])
           (use c_trans [OF p(1) q(1)] w_trans [OF p(2) q(2)] w_trans [OF q(3) p(3)] p(4) q(4) in auto)
      then show ?thesis ..
    qed
  qed
qed

lemma ok_at:
  assumes "plain m"
  shows "ok (\<lambda>n. m (n b))"
  unfolding ok_def
proof (intro allI)
  fix c w
  have "stopped (\<lambda>n. m (n ())) c w \<or> passed (\<lambda>n. m (n ())) c w" using assms by (auto simp: ok_def)
  then show "stopped (\<lambda>n. m (n b)) c w \<or> passed (\<lambda>n. m (n b)) c w"
  proof
    assume "stopped (\<lambda>n. m (n ())) c w"
    then obtain c' w' where s: "halts c c'" "le_w w w'" "\<And>n. m (n ()) c w = (c', w')" unfolding stopped_def by blast
    have "m n c w = (c', w')" for n using s(3) [of "\<lambda>_. n"] .
    with s(1,2) show ?thesis using stopI [of c c' w w' "\<lambda>n. m (n b)"] by simp
  next
    assume "passed (\<lambda>n. m (n ())) c w"
    then obtain c1 w1 f where p: "le_c c c1" "le_w w w1" "\<And>c2 w2. le_w w2 (f c2 w2)"
      "\<And>n. m (n ()) c w = (fst (n () c1 w1), f (fst (n () c1 w1)) (snd (n () c1 w1)))" unfolding passed_def by auto
    have "m n c w = (fst (n c1 w1), f (fst (n c1 w1)) (snd (n c1 w1)))" for n using p(4) [of "\<lambda>_. n"] .
    with p(1-3) show ?thesis using pass_thenI [of c c1 w w1 f "\<lambda>n. m (n b)" b] by simp
  qed
qed

text \<open>The rules for a single middleware, with what it does written without the family.\<close>

lemma plain_stop:
  assumes "halts c cc" "le_w w ww" "\<And>n. m n c w = (cc, ww)"
  shows "stopped (\<lambda>n. m (n ())) c w \<or> passed (\<lambda>n. m (n ())) c w"
  using stopI [OF assms(1,2), of "\<lambda>n. m (n ())"] assms(3) by simp

lemma plain_pass:
  assumes "le_c c cc" "le_w w ww" "\<And>n. m n c w = n cc ww"
  shows "stopped (\<lambda>n. m (n ())) c w \<or> passed (\<lambda>n. m (n ())) c w"
  using passI [OF assms(1,2), of "\<lambda>n. m (n ())" "()"] assms(3) by simp

lemma plain_then:
  assumes "le_c c cc" "le_w w ww" "\<And>cd wd. le_w wd (f cd wd)" "\<And>n. m n c w = (fst (n cc ww), f (fst (n cc ww)) (snd (n cc ww)))"
  shows "stopped (\<lambda>n. m (n ())) c w \<or> passed (\<lambda>n. m (n ())) c w"
  using pass_thenI [OF assms(1,2,3), of "\<lambda>n. m (n ())" "()"] assms(4) by simp

lemma plainI: "(\<And>c w. stopped (\<lambda>n. m (n ())) c w \<or> passed (\<lambda>n. m (n ())) c w) \<Longrightarrow> plain m"
  by (simp add: ok_def)

lemma ok_outer: "plain m \<Longrightarrow> ok k \<Longrightarrow> ok (\<lambda>n. m (k n))"
  using ok_comp [of "\<lambda>n. m (n ())" "\<lambda>_. k"] by simp

lemma ok_inner:
  assumes "ok k" "plain m"
  shows "ok (\<lambda>n. k (\<lambda>b. m (n b)))"
  by (rule ok_comp [OF assms(1), of "\<lambda>b n. m (n b)"]) (rule ok_at [OF assms(2)])

end

section \<open>The chain behind the header middleware\<close>

definition fixed_headers :: "string set" where
  "fixed_headers = set (map fst security_headers) \<union> set (map fst cors_headers) \<union> {''Access-Control-Allow-Origin''}"

definition kept_headers :: "ctx \<Rightarrow> ctx \<Rightarrow> bool" where
  "kept_headers c c' \<longleftrightarrow> (\<forall>k \<in> fixed_headers. cx_headers c' k = cx_headers c k)"

definition same_request :: "ctx \<Rightarrow> ctx \<Rightarrow> bool" where
  "same_request c c' \<longleftrightarrow>
     (cx_req c')\<lparr>rq_contentLength := 0\<rparr> = (cx_req c)\<lparr>rq_contentLength := 0\<rparr> \<and> cx_keys c' = cx_keys c \<and>
     cx_aborted c' = cx_aborted c \<and> cx_panicked c' = cx_panicked c"

definition carried :: "ctx \<Rightarrow> ctx \<Rightarrow> bool" where
  "carried c c' \<longleftrightarrow> same_request c c' \<and> kept_headers c c'"

definition refused :: "ctx \<Rightarrow> ctx \<Rightarrow> bool" where
  "refused c c' \<longleftrightarrow> cx_aborted c' \<and> kept_headers c c'"

definition same_data :: "('sk, 'pk) app \<Rightarrow> ('sk, 'pk) app \<Rightarrow> bool" where
  "same_data w w' \<longleftrightarrow> ap_data w' = ap_data w \<and> ap_audit w' = ap_audit w"

lemmas pipe_defs = carried_def refused_def same_request_def kept_headers_def same_data_def

interpretation pipe: stop_or_pass carried "same_data :: ('sk, 'pk) app \<Rightarrow> _" refused
  by unfold_locales (auto simp: pipe_defs)

lemma fixed_header_names:
  "''X-CSRF-Token'' \<notin> fixed_headers" "''X-RateLimit-Reset'' \<notin> fixed_headers"
  "''X-RateLimit-Remaining'' \<notin> fixed_headers" "''X-RateLimit-Limit'' \<notin> fixed_headers" "''X-Request-ID'' \<notin> fixed_headers"
  by (simp_all add: fixed_headers_def security_headers_def cors_headers_def)

lemma set_header_carried: "k \<notin> fixed_headers \<Longrightarrow> carried c (set_header k v c)"
  by (auto simp: pipe_defs)

lemma abort_fail_refused: "refused c (abort_fail st m c)"
  by (simp add: refused_def kept_headers_def abort_fail_def)

lemma pipe_bodyLimit: "pipe.plain (bodyLimit :: ('sk, 'pk) app middleware)"
proof (rule pipe.plainI)
  fix c :: ctx and w :: "('sk, 'pk) app"
  let ?m = "bodyLimit :: ('sk, 'pk) app middleware"
  show "pipe.stopped (\<lambda>n. ?m (n ())) c w \<or> pipe.passed (\<lambda>n. ?m (n ())) c w"
  proof (cases "rq_contentLength (cx_req c) > 104857600")
    case True
    then show ?thesis by (intro pipe.plain_stop [OF abort_fail_refused pipe.w_refl]) (simp add: bodyLimit_def)
  next
    case False
    then show ?thesis by (intro pipe.plain_pass [OF pipe.c_refl pipe.w_refl]) (simp add: bodyLimit_def)
  qed
qed

lemma pipe_csrf:
  "pipe.plain (CSRFMiddleware sha ap_csrf (\<lambda>s w. w\<lparr>ap_csrf := s\<rparr>) rnd now now' :: ('sk, 'pk) app middleware)"
proof (rule pipe.plainI)
  fix c :: ctx and w :: "('sk, 'pk) app"
  let ?m = "CSRFMiddleware sha ap_csrf (\<lambda>s w. w\<lparr>ap_csrf := s\<rparr>) rnd now now' :: ('sk, 'pk) app middleware"
  let ?tok = "getHeader c ''X-CSRF-Token''"
  let ?c = "set_header ''X-CSRF-Token'' (generateCSRFToken rnd) c"
  define stf where "stf st = snd (SetCSRFToken sha rnd now' c st)" for st
  have set: "SetCSRFToken sha rnd now' c st = (?c, stf st)" for st
    by (simp add: stf_def SetCSRFToken_def Let_def)
  have put: "same_data w (w\<lparr>ap_csrf := st\<rparr>)" for st by (simp add: same_data_def)
  have car: "carried c ?c" by (rule set_header_carried [OF fixed_header_names(1)])
  show "pipe.stopped (\<lambda>n. ?m (n ())) c w \<or> pipe.passed (\<lambda>n. ?m (n ())) c w"
  proof (cases "hasPrefix (getHeader c ''Authorization'') ''Bearer '' \<or> rq_method (cx_req c) \<in> {''GET'', ''HEAD'', ''OPTIONS''}")
    case True
    show ?thesis
      by (rule pipe.plain_pass [OF car put [of "stf (ap_csrf w)"]])
         (use True set in \<open>auto simp: CSRFMiddleware_def\<close>)
  next
    case check: False
    obtain good st where v: "ValidateCSRFToken sha now ?tok (ap_csrf w) = (good, st)" by fastforce
    consider "?tok = []" | "?tok \<noteq> []" good | "?tok \<noteq> []" "\<not> good" by blast
    then show ?thesis
    proof cases
      case 1
      show ?thesis by (rule pipe.plain_stop [OF abort_fail_refused pipe.w_refl]) (use check 1 in \<open>auto simp: CSRFMiddleware_def\<close>)
    next
      case 2
      show ?thesis
        by (rule pipe.plain_pass [OF car put [of "stf st"]])
           (use check 2 v set in \<open>auto simp: CSRFMiddleware_def\<close>)
    next
      case 3
      show ?thesis
        by (rule pipe.plain_stop [OF abort_fail_refused put [of st]]) (use check 3 v in \<open>auto simp: CSRFMiddleware_def\<close>)
    qed
  qed
qed

lemma pipe_limiter:
  "pipe.plain (RateLimitMiddleware ap_limiter (\<lambda>s w. w\<lparr>ap_limiter := s\<rparr>) now now' :: ('sk, 'pk) app middleware)"
proof (rule pipe.plainI)
  fix c :: ctx and w :: "('sk, 'pk) app"
  let ?m = "RateLimitMiddleware ap_limiter (\<lambda>s w. w\<lparr>ap_limiter := s\<rparr>) now now' :: ('sk, 'pk) app middleware"
  obtain rl allowed remaining limit where a: "Allow (ap_limiter w) now (rq_clientIP (cx_req c)) (get_string c ''user_id'')
      (rq_method (cx_req c)) (rq_path (cx_req c)) = (rl, allowed, remaining, limit)" by (metis prod_cases4)
  define c' where "c' = set_header ''X-RateLimit-Reset'' (itoa (to_unix (now' + 30 * second)))
      (set_header ''X-RateLimit-Remaining'' (itoa remaining) (set_header ''X-RateLimit-Limit'' (itoa limit) c))"
  have c': "carried c c'"
    unfolding c'_def
    by (rule pipe.c_trans [OF pipe.c_trans [OF set_header_carried [OF fixed_header_names(4)] set_header_carried [OF fixed_header_names(3)]]
          set_header_carried [OF fixed_header_names(2)]])
  have put: "same_data w (w\<lparr>ap_limiter := rl\<rparr>)" by (simp add: same_data_def)
  have run: "?m n c w = (if allowed then n c' (w\<lparr>ap_limiter := rl\<rparr>)
      else (abort_fail 429 ''Rate limit exceeded. Try again later.'' c', w\<lparr>ap_limiter := rl\<rparr>))" for n
    using a by (simp add: RateLimitMiddleware_def c'_def)
  show "pipe.stopped (\<lambda>n. ?m (n ())) c w \<or> pipe.passed (\<lambda>n. ?m (n ())) c w"
  proof (cases allowed)
    case True
    then show ?thesis by (intro pipe.plain_pass [OF c' put]) (simp add: run)
  next
    case False
    then show ?thesis by (intro pipe.plain_stop [OF pipe.halts_after [OF c' abort_fail_refused] put]) (simp add: run)
  qed
qed

lemma pipe_metrics:
  "pipe.plain (MetricsMiddleware ap_metrics (\<lambda>m w. w\<lparr>ap_metrics := m\<rparr>) start stop :: ('sk, 'pk) app middleware)"
proof (rule pipe.plainI)
  fix c :: ctx and w :: "('sk, 'pk) app"
  let ?m = "MetricsMiddleware ap_metrics (\<lambda>m w. w\<lparr>ap_metrics := m\<rparr>) start stop :: ('sk, 'pk) app middleware"
  let ?f = "\<lambda>c2 w2 :: ('sk, 'pk) app. if cx_panicked c2 then w2\<lparr>ap_metrics := add_active (-1) (ap_metrics w2)\<rparr>
     else w2\<lparr>ap_metrics := add_active (-1) (record_request (seconds (stop - start)) c2 (ap_metrics w2))\<rparr>"
  show "pipe.stopped (\<lambda>n. ?m (n ())) c w \<or> pipe.passed (\<lambda>n. ?m (n ())) c w"
    by (rule pipe.plain_then [OF pipe.c_refl, where ww = "w\<lparr>ap_metrics := add_active 1 (ap_metrics w)\<rparr>" and f = ?f])
       (auto simp: same_data_def MetricsMiddleware_def split: prod.split)
qed

text \<open>The audit middleware always passes; what it adds depends on the answer.\<close>

definition audit_after :: "('sk, 'pk) gate \<Rightarrow> ctx \<Rightarrow> ctx \<Rightarrow> ('sk, 'pk) app \<Rightarrow> ('sk, 'pk) app" where
  "audit_after G c c2 w2 =
     (if rq_path (cx_req c) \<in> set audit_skip \<or> cx_panicked c2 \<or> \<not> isWriteMethod (rq_method (cx_req c2)) then w2
      else w2\<lparr>ap_audit := insert_audit (has_user w2) (ga_audit G)
        (audit_entry_of (av_stop (ga_audit G) - av_start (ga_audit G)) c2) (ap_audit w2)\<rparr>)"

lemma audit_mw_eq: "audit_mw G n c w = (fst (n c w), audit_after G c (fst (n c w)) (snd (n c w)))"
  by (simp add: audit_mw_def AuditLogger_def audit_after_def split: prod.split)

lemma audit_after_data [simp]: "ap_data (audit_after G c c2 w2) = ap_data w2"
  by (simp add: audit_after_def)

text \<open>The sanitiser passes some body on, or refuses the request; either way it looks at nothing behind it.\<close>

lemma SanitizeInput_cases:
  fixes w :: "('sk, 'pk) app" and unm mar cfg readErr body
  defines "k \<equiv> SanitizeInput unm mar cfg readErr body :: (string \<Rightarrow> ('sk, 'pk) app handler) \<Rightarrow> _"
  shows "(\<exists>b cc. carried c cc \<and> (\<forall>n. k n c w = n b cc w)) \<or> (\<exists>st m. \<forall>n. k n c w = (abort_fail st m c, w))"
proof -
  have len: "carried c (c\<lparr>cx_req := (cx_req c)\<lparr>rq_contentLength := l\<rparr>\<rparr>)" for l by (simp add: pipe_defs)
  let ?b = "take (xc_MaxBodyLength cfg) body"
  let ?len = "\<lambda>b :: string. c\<lparr>cx_req := (cx_req c)\<lparr>rq_contentLength := int (length b)\<rparr>\<rparr>"
  let ?free = "\<not> contains (getHeader c ''Content-Type'') ''application/json'' \<or> rq_method (cx_req c) \<in> {''GET'', ''HEAD'', ''OPTIONS'', ''DELETE''}"
  consider (free) ?free | (unread) "\<not> ?free" readErr | (blank) "\<not> ?free" "\<not> readErr" "trimSpace ?b = []"
    | (bad) "\<not> ?free" "\<not> readErr" "trimSpace ?b \<noteq> []" "unm ?b = None"
    | (new) raw nb where "\<not> ?free" "\<not> readErr" "trimSpace ?b \<noteq> []" "unm ?b = Some raw" "xc_StripScripts cfg \<or> xc_StripHTML cfg"
        "mar (sanitizeValue cfg raw) = Some nb"
    | (old) raw where "\<not> ?free" "\<not> readErr" "trimSpace ?b \<noteq> []" "unm ?b = Some raw"
        "\<not> (xc_StripScripts cfg \<or> xc_StripHTML cfg) \<or> mar (sanitizeValue cfg raw) = None"
    by (metis option.exhaust)
  then show ?thesis
  proof cases
    case free
    then have "\<forall>n. k n c w = n body c w" by (auto simp: k_def SanitizeInput_def)
    with pipe.c_refl show ?thesis by blast
  next
    case unread
    then have "\<forall>n. k n c w = (abort_fail 400 ''Failed to read request body'' c, w)" by (simp add: k_def SanitizeInput_def)
    then show ?thesis by blast
  next
    case blank
    then have "\<forall>n. k n c w = n ?b (?len ?b) w" by (simp add: k_def SanitizeInput_def)
    with len show ?thesis by blast
  next
    case bad
    then have "\<forall>n. k n c w = (abort_fail 400 ''Invalid JSON in request body'' c, w)" by (simp add: k_def SanitizeInput_def)
    then show ?thesis by blast
  next
    case (new raw nb)
    then have "\<forall>n. k n c w = n nb (?len nb) w" by (simp add: k_def SanitizeInput_def)
    with len show ?thesis by blast
  next
    case (old raw)
    then have "\<forall>n. k n c w = n ?b c w" by (auto simp: k_def SanitizeInput_def Let_def)
    with pipe.c_refl show ?thesis by blast
  qed
qed

lemma pipe_sanitize:
  "pipe.ok (SanitizeInput unm mar cfg readErr body :: (string \<Rightarrow> ('sk, 'pk) app handler) \<Rightarrow> _)"
  unfolding pipe.ok_def
proof (intro allI)
  fix c :: ctx and w :: "('sk, 'pk) app"
  let ?k = "SanitizeInput unm mar cfg readErr body :: (string \<Rightarrow> ('sk, 'pk) app handler) \<Rightarrow> _"
  from SanitizeInput_cases [of c unm mar cfg readErr body w] show "pipe.stopped ?k c w \<or> pipe.passed ?k c w"
  proof
    assume "\<exists>b cc. carried c cc \<and> (\<forall>n. ?k n c w = n b cc w)"
    then obtain b cc where "carried c cc" "\<And>n. ?k n c w = n b cc w" by blast
    then have "pipe.passed ?k c w" using pipe.passI [of c cc w w ?k b] pipe.w_refl by blast
    then show ?thesis ..
  next
    assume "\<exists>st m. \<forall>n. ?k n c w = (abort_fail st m c, w)"
    then obtain st m where "\<And>n. ?k n c w = (abort_fail st m c, w)" by blast
    then have "pipe.stopped ?k c w" using pipe.stopI [of c "abort_fail st m c" w w ?k] abort_fail_refused pipe.w_refl by blast
    then show ?thesis ..
  qed
qed

lemma outer_chain_ok: "pipe.ok (outer_chain G body :: (string \<Rightarrow> ('sk, 'pk) app handler) \<Rightarrow> _)"
proof -
  note m = pipe.ok_outer [OF pipe_metrics [of "ga_start G" "ga_stop G"]
      pipe_sanitize [of "ga_unmarshal G" "ga_marshal G" DefaultXSSConfig "ga_readErr G" body]]
  note l = pipe.ok_outer [OF pipe_limiter [of "ga_rl_now G" "ga_rl_now' G"] m]
  note b = pipe.ok_outer [OF pipe_bodyLimit l]
  note c = pipe.ok_outer [OF pipe_csrf [of "sha256 (ga_crypto G)" "ga_rnd G" "ga_csrf_now G" "ga_csrf_now' G"] b]
  show ?thesis using c unfolding outer_chain_def chain_simps .
qed

section \<open>The guards\<close>

text \<open>The user of an accepted token, and the user for whom a protected route opens.\<close>

definition caller :: "('sk, 'pk) gate \<Rightarrow> ctx \<Rightarrow> ('sk, 'pk) server \<Rightarrow> user option" where
  "caller G c s =
     (case bearer c of
        None \<Rightarrow> None
      | Some token \<Rightarrow>
          (case ValidateAccessToken (ga_crypto G) (sv_keys s) (sv_blacklist s) (ga_auth_now G) token of Inl _ \<Rightarrow> None | Inr u \<Rightarrow> Some u))"

definition permitted :: "('sk, 'pk) gate \<Rightarrow> string option \<Rightarrow> ctx \<Rightarrow> ('sk, 'pk) server \<Rightarrow> user option" where
  "permitted G role c s =
     (case role of None \<Rightarrow> caller G c s | Some r \<Rightarrow> granted (ga_crypto G) (ga_auth_now G) r c s)"

lemma permitted_caller: "permitted G role c s = Some u \<Longrightarrow> caller G c s = Some u"
  by (auto simp: permitted_def caller_def granted_def split: option.splits sum.splits if_splits)

lemma authenticated_flags [simp]:
  "cx_aborted (authenticated u c) = cx_aborted c" "cx_panicked (authenticated u c) = cx_panicked c"
  "cx_headers (authenticated u c) = cx_headers c"
  by (simp_all add: authenticated_def)

lemma auth_app_cases:
  assumes "\<not> cx_aborted c"
  shows "case caller G c (dt_server (ap_data w)) of
      Some u \<Rightarrow> auth_app G n c w = n (authenticated u c) w
    | None \<Rightarrow> (\<exists>c'. refused c c' \<and> cx_status c' \<in> {401, 500} \<and> cx_keys c' = cx_keys c \<and> cx_req c' = cx_req c \<and>
               (\<forall>n. auth_app G n c w = (c', w)))"
  using assms
  by (auto simp: auth_app_def AuthMiddleware_cases caller_def refused_def kept_headers_def recovered_def
      split: option.split sum.split)

text \<open>The guard for a pending password change lets every caller of the authentication middleware through.\<close>

lemma password_guard: "RequirePasswordChange n (authenticated u c) w = n (authenticated u c) w"
  by (simp add: RequirePasswordChange_def)

lemma guards_open:
  assumes "\<not> cx_aborted c" "permitted G role c (dt_server (ap_data w)) = Some u"
  shows "guards G (Protected role) n c w = n (authenticated u c) w"
proof -
  have "caller G c (dt_server (ap_data w)) = Some u" using assms(2) by (rule permitted_caller)
  then have a: "auth_app G m c w = m (authenticated u c) w" for m using auth_app_cases [OF assms(1), of G w] by simp
  show ?thesis
  proof (cases role)
    case None
    then show ?thesis by (simp add: guards_def a password_guard)
  next
    case (Some r)
    then have "\<exists>l. RoleHierarchy (u_Role u) = Some l \<and> min_level r \<le> l"
      using assms(2) by (auto simp: permitted_def granted_def split: option.splits sum.splits if_splits)
    with Some show ?thesis by (simp add: guards_def a password_guard RequireRole_string)
  qed
qed

lemma guards_closed:
  assumes "\<not> cx_aborted c" "permitted G role c (dt_server (ap_data w)) = None"
  shows "\<exists>c'. refused c c' \<and> cx_status c' \<in> {401, 403, 500} \<and> (\<forall>n. guards G (Protected role) n c w = (c', w))"
proof (cases "caller G c (dt_server (ap_data w))")
  case None
  then obtain c' where c': "refused c c'" "cx_status c' \<in> {401, 500}" "\<forall>n. auth_app G n c w = (c', w)"
    using auth_app_cases [OF assms(1), of G w] by auto
  then have "\<forall>n. guards G (Protected role) n c w = (c', w)" by (simp add: guards_def split: option.split)
  with c' show ?thesis by blast
next
  case (Some u)
  have a: "auth_app G m c w = m (authenticated u c) w" for m using auth_app_cases [OF assms(1), of G w] Some by simp
  obtain r where r: "role = Some r" using assms(2) Some by (cases role) (auto simp: permitted_def)
  have "\<not> (\<exists>l. RoleHierarchy (u_Role u) = Some l \<and> min_level r \<le> l)"
    using assms(2) Some by (auto simp: r permitted_def granted_def caller_def split: option.splits sum.splits if_splits)
  then have "guards G (Protected role) n c w = (abort (fail 403 ''Insufficient permissions'' (authenticated u c)), w)" for n
    by (auto simp: guards_def r a password_guard RequireRole_string)
  then show ?thesis by (auto simp: refused_def kept_headers_def)
qed

section \<open>The first three middleware\<close>

lemma set_headers_simps [simp]:
  "cx_req (set_headers kvs c) = cx_req c" "cx_keys (set_headers kvs c) = cx_keys c"
  "cx_aborted (set_headers kvs c) = cx_aborted c" "cx_panicked (set_headers kvs c) = cx_panicked c"
  by (induction kvs arbitrary: c) (auto simp: set_headers_def)

text \<open>The context with which a request reaches the rest of the chain.\<close>

definition admitted_ctx :: "('sk, 'pk) gate \<Rightarrow> ctx \<Rightarrow> ctx" where
  "admitted_ctx G c =
     (let rid = (if getHeader c ''X-Request-ID'' = [] then ga_uuid G else getHeader c ''X-Request-ID'');
          c1 = set_headers security_headers (set_header ''X-Request-ID'' rid (cset ''request_id'' (GString rid) c));
          ao = allowed_origin (cfg_AllowedOrigins (ga_cfg G)) (getHeader c ''Origin'')
      in set_headers cors_headers (if ao \<noteq> [] then set_header ''Access-Control-Allow-Origin'' ao c1 else c1))"

lemma getHeader_set_headers [simp]: "getHeader (set_headers kvs c) n = getHeader c n"
  by (simp add: getHeader_def)

lemma global_chain_eq:
  "global_chain G body n c w =
     (if rq_method (cx_req c) = ''OPTIONS'' then (abort ((admitted_ctx G c)\<lparr>cx_status := 204\<rparr>), w)
      else inner_chain G body n (admitted_ctx G c) w)"
  by (simp add: global_chain_def requestID_def securityHeaders_def cors_def admitted_ctx_def Let_def)

lemma admitted_ctx_simps [simp]:
  "cx_req (admitted_ctx G c) = cx_req c" "cx_aborted (admitted_ctx G c) = cx_aborted c"
  "cx_panicked (admitted_ctx G c) = cx_panicked c"
  "k \<noteq> ''request_id'' \<Longrightarrow> cx_keys (admitted_ctx G c) k = cx_keys c k"
  by (simp_all add: admitted_ctx_def Let_def)

lemma carried_request:
  assumes "carried c c'"
  shows "getHeader c' n = getHeader c n" "rq_path (cx_req c') = rq_path (cx_req c)"
    "rq_method (cx_req c') = rq_method (cx_req c)" "cx_aborted c' = cx_aborted c" "cx_keys c' = cx_keys c"
proof -
  have e: "(cx_req c')\<lparr>rq_contentLength := 0\<rparr> = (cx_req c)\<lparr>rq_contentLength := 0\<rparr>" and
    "cx_aborted c' = cx_aborted c" "cx_keys c' = cx_keys c" using assms by (simp_all add: pipe_defs)
  then show "cx_aborted c' = cx_aborted c" "cx_keys c' = cx_keys c" by blast+
  show "getHeader c' n = getHeader c n" using arg_cong [OF e, of rq_headers] by (simp add: getHeader_def)
  show "rq_path (cx_req c') = rq_path (cx_req c)" "rq_method (cx_req c') = rq_method (cx_req c)"
    using arg_cong [OF e, of rq_path] arg_cong [OF e, of rq_method] by simp_all
qed

lemma caller_cong:
  assumes "getHeader c' ''Authorization'' = getHeader c ''Authorization''"
  shows "caller G c' s = caller G c s" "permitted G role c' s = permitted G role c s"
  using assms by (simp_all add: caller_def permitted_def granted_def bearer_def split: option.split)

text \<open>A request that is not stopped reaches what is behind the chain with its identity and the same data.\<close>

lemma global_chain_audit:
  fixes w :: "('sk, 'pk) app"
  shows "(\<exists>c' w'. refused (admitted_ctx G c) c' \<and> same_data w w' \<and> (\<forall>n. global_chain G body n c w = (c', w'))) \<or>
    (\<exists>b c1 w1 f. carried (admitted_ctx G c) c1 \<and> same_data w w1 \<and> (\<forall>c2 w2. same_data w2 (f c2 w2)) \<and>
      (\<forall>n. global_chain G body n c w =
        (fst (n b c1 w1), f (fst (n b c1 w1)) (audit_after G c1 (fst (n b c1 w1)) (snd (n b c1 w1))))))"
proof (cases "rq_method (cx_req c) = ''OPTIONS''")
  case True
  have "refused (admitted_ctx G c) (abort ((admitted_ctx G c)\<lparr>cx_status := 204\<rparr>))" by (simp add: refused_def kept_headers_def)
  with True show ?thesis unfolding global_chain_eq by (intro disjI1) (auto simp: same_data_def)
next
  case False
  have e: "global_chain G body n c w = outer_chain G body (\<lambda>b. audit_mw G (n b)) (admitted_ctx G c) w" for n
    using False by (simp add: global_chain_eq inner_chain_def)
  have "pipe.stopped (outer_chain G body) (admitted_ctx G c) w \<or> pipe.passed (outer_chain G body) (admitted_ctx G c) w"
    using outer_chain_ok [of G body] by (simp add: pipe.ok_def)
  then show ?thesis
  proof
    assume "pipe.stopped (outer_chain G body) (admitted_ctx G c) w"
    then show ?thesis unfolding e pipe.stopped_def by (intro disjI1) blast
  next
    assume "pipe.passed (outer_chain G body) (admitted_ctx G c) w"
    then obtain b c1 w1 f where p: "carried (admitted_ctx G c) c1" "same_data w w1" "\<forall>c2 w2. same_data w2 (f c2 w2)"
      "\<forall>n. outer_chain G body n (admitted_ctx G c) w = (fst (n b c1 w1), f (fst (n b c1 w1)) (snd (n b c1 w1)))"
      unfolding pipe.passed_def by blast
    then have "\<forall>n. global_chain G body n c w =
        (fst (n b c1 w1), f (fst (n b c1 w1)) (audit_after G c1 (fst (n b c1 w1)) (snd (n b c1 w1))))"
      unfolding e by (simp add: audit_mw_eq)
    with p(1-3) show ?thesis by blast
  qed
qed

lemma global_chain_cases:
  fixes w :: "('sk, 'pk) app"
  shows "(\<exists>c' w'. cx_aborted c' \<and> ap_data w' = ap_data w \<and> kept_headers (admitted_ctx G c) c' \<and> (\<forall>n. global_chain G body n c w = (c', w'))) \<or>
    (\<exists>b c1 w1 f. carried (admitted_ctx G c) c1 \<and> ap_data w1 = ap_data w \<and> (\<forall>c2 w2. ap_data (f c2 w2) = ap_data w2) \<and>
      (\<forall>n. global_chain G body n c w = (fst (n b c1 w1), f (fst (n b c1 w1)) (snd (n b c1 w1)))))"
  using global_chain_audit [of G c w body]
proof (elim disjE exE conjE)
  fix c' w'
  assume "refused (admitted_ctx G c) c'" "same_data w w'" "\<forall>n. global_chain G body n c w = (c', w')"
  then show ?thesis by (intro disjI1) (auto simp: refused_def same_data_def)
next
  fix b c1 w1 f
  assume p: "carried (admitted_ctx G c) c1" "same_data w w1" "\<forall>c2 w2. same_data w2 (f c2 w2)"
    "\<forall>n. global_chain G body n c w = (fst (n b c1 w1), f (fst (n b c1 w1)) (audit_after G c1 (fst (n b c1 w1)) (snd (n b c1 w1))))"
  show ?thesis
    by (rule disjI2, rule exI [of _ b], rule exI [of _ c1], rule exI [of _ w1], rule exI [of _ "\<lambda>c2 w2. f c2 (audit_after G c1 c2 w2)"])
       (use p in \<open>simp add: same_data_def\<close>)
qed

text \<open>The same for a route that was found: the request is refused, or its guards run on the unchanged data.\<close>

lemma serve_cases:
  fixes w :: "('sk, 'pk) app"
  assumes "find_route (rq_method (cx_req c)) (rq_path (cx_req c)) = Found r ps"
  obtains (stop) c' w' where "refused (admitted_ctx G (with_params ps c)) c'" "same_data w w'" "\<And>H. serve find_route H G body c w = (c', w')"
  | (pass) b c1 w1 f where "carried (admitted_ctx G (with_params ps c)) c1" "cx_aborted c1 = cx_aborted c" "same_data w w1"
      "\<And>c2 w2. same_data w2 (f c2 w2)"
      "\<And>role. permitted G role c1 (dt_server (ap_data w1)) = permitted G role c (dt_server (ap_data w))"
      "\<And>H. serve find_route H G body c w =
         (let g = guards G (rt_access r) (H (rt_endpoint r) b) c1 w1 in (fst g, f (fst g) (audit_after G c1 (fst g) (snd g))))"
proof -
  let ?c = "with_params ps c"
  have res: "serve find_route H G body c w = global_chain G body (\<lambda>b. guards G (rt_access r) (H (rt_endpoint r) b)) ?c w" for H
    using assms by (simp add: serve_def)
  from global_chain_audit [of G ?c w body] show thesis
  proof (elim disjE exE conjE)
    fix c' w'
    assume "refused (admitted_ctx G ?c) c'" "same_data w w'" "\<forall>n. global_chain G body n ?c w = (c', w')"
    then show thesis by (intro stop) (simp_all add: res)
  next
    fix b c1 w1 f
    assume p: "carried (admitted_ctx G ?c) c1" "same_data w w1" "\<forall>c2 w2. same_data w2 (f c2 w2)"
      "\<forall>n. global_chain G body n ?c w =
        (fst (n b c1 w1), f (fst (n b c1 w1)) (audit_after G c1 (fst (n b c1 w1)) (snd (n b c1 w1))))"
    have hd: "getHeader c1 ''Authorization'' = getHeader c ''Authorization''"
      using carried_request(1) [OF p(1)] by (simp add: getHeader_def with_params_def)
    have "permitted G role c1 (dt_server (ap_data w1)) = permitted G role c (dt_server (ap_data w))" for role
      using caller_cong(2) [OF hd, of G role] p(2) by (simp add: same_data_def)
    moreover have "cx_aborted c1 = cx_aborted c" using carried_request(4) [OF p(1)] by (simp add: with_params_def)
    ultimately show thesis using p by (intro pass [of c1 w1 f b]) (simp_all add: res Let_def)
  qed
qed

section \<open>Example\<close>

definition demo_data :: "(unit, unit) data" where
  "demo_data = \<lparr>dt_server = \<lparr>sv_keys = toy_keys, sv_blacklist = NewTokenBlacklist, sv_users = [demo_row], sv_refresh = []\<rparr>,
     dt_alerting = demo_alerting, dt_admin = no_admin, dt_jobs = [], dt_files = Map.empty, dt_objects = Map.empty,
     dt_analyses = [], dt_rescores = [], dt_sweeps = 0, dt_probe = no_deps, dt_hub = empty_hub\<rparr>"

definition demo_app :: "(unit, unit) app" where
  "demo_app = \<lparr>ap_limiter = NewRateLimiter 100 minute, ap_csrf = globalCSRF, ap_metrics = new_metrics 0, ap_audit = [],
     ap_data = demo_data\<rparr>"

definition demo_gate :: "(unit, unit) gate" where
  "demo_gate = \<lparr>ga_crypto = toy_lib, ga_cfg = config_Load [''ALLOWED_ORIGINS'' \<mapsto> ''https://seagles''], ga_uuid = ''q'', ga_rnd = ''r'',
     ga_csrf_now = 0, ga_csrf_now' = 0, ga_rl_now = 0, ga_rl_now' = 0, ga_start = 0, ga_stop = 0, ga_auth_now = 10 * minute,
     ga_unmarshal = (\<lambda>_. None), ga_marshal = (\<lambda>_. None), ga_readErr = False,
     ga_audit = \<lparr>av_start = 0, av_stop = 0, av_now = 0, av_uuid = ''a'', av_err = (\<lambda>_. None)\<rparr>\<rparr>"

definition demo_finder :: finder where
  "demo_finder m p = (case find (\<lambda>r. rt_method r = m \<and> rt_path r = p) routes of None \<Rightarrow> NoRoute | Some r \<Rightarrow> Found r Map.empty)"

definition demo_http_request :: "string \<Rightarrow> string \<Rightarrow> (string \<rightharpoonup> string) \<Rightarrow> request" where
  "demo_http_request m p hs = \<lparr>rq_method = m, rq_path = p, rq_headers = hs, rq_clientIP = ''192.0.2.1'', rq_params = Map.empty,
     rq_query = Map.empty, rq_contentLength = 0\<rparr>"

lemma demo_found:
  "demo_finder ''POST'' ''/api/v1/scan/network'' = Found (route_of ''POST'' ''/scan/network'' Admin NetworkScan) Map.empty"
  "demo_finder ''GET'' ''/api/v1/devices'' = Found (route_of ''GET'' ''/devices'' AnyUser ListDevices) Map.empty"
  by (simp_all add: demo_finder_def routes_def route_of_def)

definition operator_call :: ctx where
  "operator_call = new_ctx (demo_http_request ''POST'' ''/api/v1/scan/network'' [''Authorization'' \<mapsto> ''Bearer '' @ toy_token])"

text \<open>A valid token of an operator, on a route for administrators.\<close>

lemma operator_bearer: "bearer operator_call = Some toy_token"
  by (simp add: bearer_def operator_call_def demo_http_request_def new_ctx_def getHeader_def splitN_2 toLower_def char_lower_def
      char_of_def bit_0)

lemma operator_identified:
  "caller demo_gate operator_call (dt_server (ap_data demo_app)) = Some (toy_user\<lparr>u_Email := [], u_TokenID := generateTokenID ''r''\<rparr>)"
  "permitted demo_gate (Some ''admin'') operator_call (dt_server (ap_data demo_app)) = None"
proof -
  note b = operator_bearer
  have v: "ValidateAccessToken toy_lib toy_keys NewTokenBlacklist (10 * minute) toy_token =
     Inr (toy_user\<lparr>u_Email := [], u_TokenID := generateTokenID ''r''\<rparr>)"
    unfolding ValidateAccessToken_def toy_verify
    by (simp add: IsBlacklisted_def NewTokenBlacklist_def claims_user_def access_claims_def toy_user_def)
  from b v show "caller demo_gate operator_call (dt_server (ap_data demo_app)) = Some (toy_user\<lparr>u_Email := [], u_TokenID := generateTokenID ''r''\<rparr>)"
    by (simp add: caller_def demo_gate_def demo_app_def demo_data_def)
  from b v show "permitted demo_gate (Some ''admin'') operator_call (dt_server (ap_data demo_app)) = None"
    by (simp add: permitted_def granted_def demo_gate_def demo_app_def demo_data_def toy_user_def RoleHierarchy_def min_level_def)
qed

section \<open>Properties\<close>

text \<open>C2: Access control of the whole interface. On a route behind the authentication group, a request
  without a token that the server accepts, or with a role below the route's, is aborted; nothing behind
  the guards runs, so the answer and the state are the same whatever the handlers are, and no data
  changes. With such a token, either the global middleware refuse the request in the same way, or the
  route's handler runs exactly once, on the unchanged data, with the token's user in its context.\<close>

theorem access_control:
  fixes w :: "('sk, 'pk) app"
  assumes "find_route (rq_method (cx_req c)) (rq_path (cx_req c)) = Found r ps" "rt_access r = Protected role"
    and "\<not> cx_aborted c"
  shows "let res = (\<lambda>H. serve find_route H G body c w);
             blocked = (\<exists>c' w'. cx_aborted c' \<and> ap_data w' = ap_data w \<and> (\<forall>H. res H = (c', w')))
         in case permitted G role c (dt_server (ap_data w)) of
              None \<Rightarrow> blocked
            | Some u \<Rightarrow> blocked \<or>
                (\<exists>b c1 w1. ap_data w1 = ap_data w \<and> carried (admitted_ctx G (with_params ps c)) c1 \<and>
                   (\<forall>H. fst (res H) = fst (H (rt_endpoint r) b (authenticated u c1) w1) \<and>
                        ap_data (snd (res H)) = ap_data (snd (H (rt_endpoint r) b (authenticated u c1) w1))))"
proof (cases rule: serve_cases [where find_route = find_route and c = c and G = G and w = w and body = body, OF assms(1), case_names stop pass])
  case (stop c' w')
  then show ?thesis by (auto simp: Let_def refused_def same_data_def split: option.split)
next
  case (pass b c1 w1 f)
  have na: "\<not> cx_aborted c1" using pass(2) assms(3) by simp
  show ?thesis
  proof (cases "permitted G role c (dt_server (ap_data w))")
    case None
    then obtain c' where c': "refused c1 c'" "\<forall>n. guards G (Protected role) n c1 w1 = (c', w1)"
      using guards_closed [OF na] pass(5) by metis
    then have "serve find_route H G body c w = (c', f c' (audit_after G c1 c' w1))" for H
      using pass(6) assms(2) by (simp add: Let_def)
    moreover have "cx_aborted c'" using c'(1) by (simp add: refused_def)
    ultimately show ?thesis unfolding Let_def None using pass(3,4) by (auto simp: same_data_def)
  next
    case (Some u)
    then have g: "guards G (Protected role) n c1 w1 = n (authenticated u c1) w1" for n
      using guards_open [OF na] pass(5) by metis
    show ?thesis unfolding Let_def Some option.case
      by (rule disjI2, rule exI [of _ b], rule exI [of _ c1], rule exI [of _ w1])
         (use pass(1,3,4,6) g assms(2) in \<open>simp add: Let_def same_data_def\<close>)
  qed
qed

theorem access_control_witness:
  "\<exists>c' w'. cx_aborted c' \<and> ap_data w' = demo_data \<and>
     (\<forall>H. serve demo_finder H demo_gate [] operator_call demo_app = (c', w'))"
  using access_control [of demo_finder operator_call "route_of ''POST'' ''/scan/network'' Admin NetworkScan" Map.empty "Some ''admin''"
      demo_gate "[]" demo_app] demo_found(1) operator_identified(2)
  by (simp add: Let_def operator_call_def demo_http_request_def new_ctx_def route_of_def) (simp add: demo_app_def)

lemma headers_set_headers:
  "cx_headers (set_headers kvs c) = cx_headers c ++ map_of (rev kvs)"
  by (induction kvs arbitrary: c) (auto simp: set_headers_def)

lemma header_tables:
  "distinct (map fst security_headers)" "set (map fst security_headers) \<inter> set (map fst cors_headers) = {}"
  "''Access-Control-Allow-Origin'' \<notin> set (map fst security_headers)" "''Access-Control-Allow-Origin'' \<notin> set (map fst cors_headers)"
  by (simp_all add: security_headers_def cors_headers_def)

lemma map_of_rev_None: "k \<notin> set (map fst kvs) \<Longrightarrow> map_of (rev kvs) k = None"
  by (simp add: map_of_eq_None_iff)

lemma security_lookup: "(k, v) \<in> set security_headers \<Longrightarrow> map_of (rev security_headers) k = Some v"
  using header_tables(1) by (simp add: rev_map [symmetric])

lemma allowed_origin_eq:
  "allowed_origin allowed orig = (if orig \<in> set allowed then orig else [])"
  by (auto simp: allowed_origin_def find_None_iff split: option.split dest: find_SomeD)

lemma admitted_headers:
  "cx_headers (admitted_ctx G (with_params ps c)) = cx_headers (admitted_ctx G c)"
  "(k, v) \<in> set security_headers \<Longrightarrow> cx_headers (admitted_ctx G c) k = Some v"
  "cx_headers (admitted_ctx G (new_ctx rq)) ''Access-Control-Allow-Origin'' =
     (case rq_headers rq ''Origin'' of
        None \<Rightarrow> None
      | Some orig \<Rightarrow> if orig \<noteq> [] \<and> orig \<in> set (cfg_AllowedOrigins (ga_cfg G)) then Some orig else None)"
proof -
  show "cx_headers (admitted_ctx G (with_params ps c)) = cx_headers (admitted_ctx G c)"
    by (simp add: admitted_ctx_def headers_set_headers with_params_def getHeader_def Let_def)
  show "cx_headers (admitted_ctx G c) k = Some v" if kv: "(k, v) \<in> set security_headers"
  proof -
    have "k \<in> set (map fst security_headers)" using kv by force
    then have "k \<notin> set (map fst cors_headers)" "k \<noteq> ''Access-Control-Allow-Origin''"
      using header_tables(2,3) by blast+
    then have "map_of (rev cors_headers) k = None" "k \<noteq> ''Access-Control-Allow-Origin''"
      by (simp_all only: map_of_rev_None not_False_eq_True)
    with security_lookup [OF kv] show ?thesis
      by (simp add: admitted_ctx_def headers_set_headers map_add_def Let_def)
  qed
  show "cx_headers (admitted_ctx G (new_ctx rq)) ''Access-Control-Allow-Origin'' =
     (case rq_headers rq ''Origin'' of
        None \<Rightarrow> None
      | Some orig \<Rightarrow> if orig \<noteq> [] \<and> orig \<in> set (cfg_AllowedOrigins (ga_cfg G)) then Some orig else None)"
    using map_of_rev_None [OF header_tables(3)] map_of_rev_None [OF header_tables(4)]
    by (simp add: admitted_ctx_def headers_set_headers map_add_def Let_def new_ctx_def getHeader_def
        allowed_origin_eq split: option.split)
qed

lemma fixed_security: "(k, v) \<in> set security_headers \<Longrightarrow> k \<in> fixed_headers" "''Access-Control-Allow-Origin'' \<in> fixed_headers"
  by (force simp: fixed_headers_def)+

lemma kept_trans: "kept_headers a b \<Longrightarrow> kept_headers b c \<Longrightarrow> kept_headers a c"
  by (simp add: kept_headers_def)

lemma guards_keep:
  assumes "\<And>c w. kept_headers c (fst (h c w))" "\<not> cx_aborted c"
  shows "kept_headers c (fst (guards G a h c w))"
proof (cases a)
  case Public
  then show ?thesis using assms(1) by (simp add: guards_def)
next
  case (Protected role)
  show ?thesis
  proof (cases "permitted G role c (dt_server (ap_data w))")
    case None
    then obtain c' where "refused c c'" "\<forall>n. guards G (Protected role) n c w = (c', w)"
      using guards_closed [OF assms(2)] by blast
    then show ?thesis by (simp add: Protected refused_def)
  next
    case (Some u)
    then show ?thesis
      using guards_open [OF assms(2) Some, of h] assms(1) [of "authenticated u c" w] by (simp add: Protected kept_headers_def)
  qed
qed

lemma served_headers:
  fixes w :: "('sk, 'pk) app"
  assumes "\<And>r ps b c w. find_route (rq_method rq) (rq_path rq) = Found r ps \<Longrightarrow> kept_headers c (fst (H (rt_endpoint r) b c w))"
    and "\<And>target. find_route (rq_method rq) (rq_path rq) \<noteq> Redirect target"
  shows "case serve find_route H G body (new_ctx rq) w of
     (c', w') \<Rightarrow>
       (\<forall>(k, v) \<in> set security_headers. cx_headers c' k = Some v) \<and>
       cx_headers c' ''Access-Control-Allow-Origin'' =
         (case rq_headers rq ''Origin'' of
            None \<Rightarrow> None
          | Some orig \<Rightarrow> if orig \<noteq> [] \<and> orig \<in> set (cfg_AllowedOrigins (ga_cfg G)) then Some orig else None)"
proof -
  let ?c = "new_ctx rq"
  have chain: "kept_headers (admitted_ctx G cc) (fst (global_chain G body n cc w))"
    if "\<And>b c w. \<not> cx_aborted c \<Longrightarrow> kept_headers c (fst (n b c w))" "\<not> cx_aborted cc" for n and cc
    using global_chain_cases [of w G cc body]
  proof (elim disjE exE conjE)
    fix c' w'
    assume "kept_headers (admitted_ctx G cc) c'" "\<forall>n. global_chain G body n cc w = (c', w')"
    then show ?thesis by simp
  next
    fix b c1 w1 f
    assume a: "carried (admitted_ctx G cc) c1"
      "\<forall>n. global_chain G body n cc w = (fst (n b c1 w1), f (fst (n b c1 w1)) (snd (n b c1 w1)))"
    have "\<not> cx_aborted c1" using carried_request(4) [OF a(1)] that(2) by simp
    then have "kept_headers c1 (fst (n b c1 w1))" by (rule that(1))
    with a show ?thesis by (auto simp: carried_def intro: kept_trans)
  qed
  have na: "\<not> cx_aborted (with_params ps ?c)" "\<not> cx_aborted ?c" for ps by (simp_all add: with_params_def new_ctx_def)
  have k: "kept_headers (admitted_ctx G ?c) (fst (serve find_route H G body ?c w))"
  proof (cases "find_route (rq_method (cx_req ?c)) (rq_path (cx_req ?c))")
    case NoRoute
    have "kept_headers (admitted_ctx G ?c) (fst (global_chain G body (\<lambda>b. not_found) ?c w))"
      by (rule chain [OF _ na(2)]) (simp add: not_found_def kept_headers_def)
    with NoRoute show ?thesis by (simp add: serve_def)
  next
    case (Redirect target)
    with assms(2) show ?thesis by (simp add: new_ctx_def)
  next
    case (Found r ps)
    have "kept_headers (admitted_ctx G (with_params ps ?c))
        (fst (global_chain G body (\<lambda>b. guards G (rt_access r) (H (rt_endpoint r) b)) (with_params ps ?c) w))"
      by (rule chain [OF guards_keep [OF assms(1)] na(1)]) (use Found in \<open>simp add: new_ctx_def\<close>)
    with Found show ?thesis by (simp add: serve_def kept_headers_def admitted_headers(1))
  qed
  obtain c' w' where s: "serve find_route H G body ?c w = (c', w')" by fastforce
  have "cx_headers c' k = cx_headers (admitted_ctx G ?c) k" if "k \<in> fixed_headers" for k
    using k that by (simp add: s kept_headers_def)
  with fixed_security admitted_headers(2) [of _ _ G ?c] admitted_headers(3) [of G rq] show ?thesis
    unfolding s prod.case by (auto simp only:)
qed

end
