(* ===== verification/Api.thy ===== *)
theory Api
  imports Router
begin

text \<open>
  The handlers behind the routes of \<open>backend/api/router.go\<close>, each on its part of the state of the server,
  with the two handlers of \<open>backend/api/swagger.go\<close>. Together with \<open>serve\<close> of \<open>Router\<close> this is the whole
  HTTP interface, and the properties here are about a request from the first middleware to the tables.
\<close>

section \<open>Documentation\<close>

text \<open>The text of \<open>swagger.json\<close>, embedded in the program, is a parameter.\<close>

definition SwaggerJSONHandler :: "string option \<Rightarrow> 'w handler" where
  "SwaggerJSONHandler file c w =
     (case file of
        None \<Rightarrow> (reply 500 (JObj [(''error'', JStr ''Swagger spec not found'')]) c, w)
      | Some text \<Rightarrow> (reply 200 (JRaw text) c, w))"

definition docs_html :: string where
  "docs_html = join (CHR 0x0A)
     [''<!DOCTYPE html>'', ''<html lang=\"en\">'', ''<head>'', ''  <meta charset=\"utf-8\" />'',
      ''  <meta name=\"viewport\" content=\"width=device-width, initial-scale=1\" />'', ''  <title>Seagles API Docs</title>'',
      ''  <link rel=\"stylesheet\" href=\"https://unpkg.com/swagger-ui-dist@5/swagger-ui.css\" />'', ''</head>'', ''<body>'',
      ''  <div id=\"swagger-ui\"></div>'',
      ''  <script src=\"https://unpkg.com/swagger-ui-dist@5/swagger-ui-bundle.js\" crossorigin></script>'', ''  <script>'',
      ''    SwaggerUIBundle({'', ''      url: \"/api/v1/swagger.json\",'', ''      dom_id: \"#swagger-ui\",'', ''    });'',
      ''  </script>'', ''</body>'', ''</html>'']"

definition SwaggerUIHandler :: "'w handler" where
  "SwaggerUIHandler c w = (reply 200 (JRaw docs_html) c, w)"

section \<open>What a request meets\<close>

text \<open>
  Clocks, random values and failures of statements, the libraries, and the decoders that gin's binding
  uses for a body.
\<close>

record ('sk, 'pk) api_env =
  en_crypto :: "('sk, 'pk) crypto_lib"
  en_bcrypt :: bcrypt
  en_cfg :: config
  en_session :: env
  en_err :: "nat \<Rightarrow> string option"
  en_now :: time
  en_now' :: time
  en_uuid :: string
  en_uuids :: uuid_lib
  en_is_email :: "string \<Rightarrow> bool"
  en_is_cidr :: "string \<Rightarrow> bool"
  en_is_url :: "string \<Rightarrow> bool"
  en_name_le :: "string \<Rightarrow> string \<Rightarrow> bool"
  en_parseFloat :: "string \<Rightarrow> rat"
  en_avg :: "rat list \<Rightarrow> rat"
  en_login :: "string \<Rightarrow> login_request option"
  en_refresh :: "string \<Rightarrow> string option"
  en_change :: "string \<Rightarrow> change_password_request option"
  en_register :: "string \<Rightarrow> register_request option"
  en_trigger :: "string \<Rightarrow> scan_body"
  en_safelist :: "string \<Rightarrow> create_safelist_request option"
  en_scope :: "string \<Rightarrow> create_scope_request option"
  en_webhook :: "string \<Rightarrow> create_webhook_request option"
  en_form :: "string \<Rightarrow> upload_form option"
  en_upload :: upload_env
  en_post :: "string \<Rightarrow> string option"
  en_outside :: outside
  en_databaseUp :: bool
  en_upgrade :: "bool \<Rightarrow> ctx \<Rightarrow> ctx + ctx"
  en_client :: nat
  en_swagger :: "string option"
  en_metric_keys :: "string list \<times> string list \<times> string list"
  en_kev_mtime :: "time option"
  en_kev_fmt :: "time \<Rightarrow> string"
  en_kev :: "kev_catalog option"

section \<open>Handlers on the state of the server\<close>

definition on_data :: "(('sk, 'pk) data \<Rightarrow> 's) \<Rightarrow> ('s \<Rightarrow> ('sk, 'pk) data \<Rightarrow> ('sk, 'pk) data) \<Rightarrow> 's handler \<Rightarrow> ('sk, 'pk) app handler" where
  "on_data get put h c w = (case h c (get (ap_data w)) of (c', s) \<Rightarrow> (c', w\<lparr>ap_data := put s (ap_data w)\<rparr>))"

abbreviation on_server :: "('sk, 'pk) server handler \<Rightarrow> ('sk, 'pk) app handler" where
  "on_server \<equiv> on_data dt_server (\<lambda>s d. d\<lparr>dt_server := s\<rparr>)"

abbreviation on_alerting :: "alerting handler \<Rightarrow> ('sk, 'pk) app handler" where
  "on_alerting \<equiv> on_data dt_alerting (\<lambda>s d. d\<lparr>dt_alerting := s\<rparr>)"

definition put_fleet :: "fleet \<Rightarrow> ('sk, 'pk) data \<Rightarrow> ('sk, 'pk) data" where
  "put_fleet db d = d\<lparr>dt_alerting := (dt_alerting d)\<lparr>ag_fleet := db\<rparr>\<rparr>"

abbreviation on_fleet :: "fleet handler \<Rightarrow> ('sk, 'pk) app handler" where
  "on_fleet \<equiv> on_data (\<lambda>d. ag_fleet (dt_alerting d)) put_fleet"

abbreviation on_admin :: "scan_admin handler \<Rightarrow> ('sk, 'pk) app handler" where
  "on_admin \<equiv> on_data dt_admin (\<lambda>s d. d\<lparr>dt_admin := s\<rparr>)"

abbreviation on_probe :: "dep_state handler \<Rightarrow> ('sk, 'pk) app handler" where
  "on_probe \<equiv> on_data dt_probe (\<lambda>s d. d\<lparr>dt_probe := s\<rparr>)"

abbreviation on_hub :: "ws_hub handler \<Rightarrow> ('sk, 'pk) app handler" where
  "on_hub \<equiv> on_data dt_hub (\<lambda>s d. d\<lparr>dt_hub := s\<rparr>)"

abbreviation on_jobs :: "(fleet \<times> scan_job list) handler \<Rightarrow> ('sk, 'pk) app handler" where
  "on_jobs \<equiv> on_data (\<lambda>d. (ag_fleet (dt_alerting d), dt_jobs d)) (\<lambda>(db, js) d. (put_fleet db d)\<lparr>dt_jobs := js\<rparr>)"

abbreviation on_uploads :: "uploads handler \<Rightarrow> ('sk, 'pk) app handler" where
  "on_uploads \<equiv> on_data (\<lambda>d. \<lparr>up_files = dt_files d, up_objects = dt_objects d, up_fleet = ag_fleet (dt_alerting d)\<rparr>)
     (\<lambda>s d. (put_fleet (up_fleet s) d)\<lparr>dt_files := up_files s, dt_objects := up_objects s\<rparr>)"

text \<open>A handler that may start a goroutine for something, which is noted in a list.\<close>

definition starts ::
  "(ctx \<Rightarrow> fleet \<Rightarrow> ctx \<times> fleet \<times> 'j option) \<Rightarrow> ('j \<Rightarrow> ('sk, 'pk) data \<Rightarrow> ('sk, 'pk) data) \<Rightarrow> ('sk, 'pk) app handler" where
  "starts h note c w =
     (case h c (ag_fleet (dt_alerting (ap_data w))) of
        (c', db, None) \<Rightarrow> (c', w\<lparr>ap_data := put_fleet db (ap_data w)\<rparr>)
      | (c', db, Some j) \<Rightarrow> (c', w\<lparr>ap_data := note j (put_fleet db (ap_data w))\<rparr>))"

primrec api :: "('sk, 'pk) api_env \<Rightarrow> endpoint \<Rightarrow> string \<Rightarrow> ('sk, 'pk) app handler" where
  "api E Login b = on_server (LoginHandler (en_crypto E) (en_bcrypt E) (en_session E) (en_login E b))"
| "api E Refresh b = on_server (RefreshTokenHandler (en_crypto E) (en_session E) (en_refresh E b))"
| "api E MetricsPage b =
     (case en_metric_keys E of (ks, es, ls) \<Rightarrow> MetricsHandler ap_metrics ks es ls (en_now E))"
| "api E SwaggerJSON b = SwaggerJSONHandler (en_swagger E)"
| "api E Docs b = SwaggerUIHandler"
| "api E Livez b = LivezHandler"
| "api E Readyz b = on_probe (ReadyzHandler (en_outside E) (en_cfg E) (en_databaseUp E) (en_now E) (en_now' E))"
| "api E HealthPage b = on_probe (HealthHandler (en_outside E) (en_cfg E) (en_databaseUp E) (en_now E) (en_now' E))"
| "api E WS b = on_hub (WSHandler (en_upgrade E) (cfg_AllowedOrigins (en_cfg E)) (en_client E))"
| "api E Me b = MeHandler"
| "api E Permissions b = PermissionsHandler"
| "api E Logout b = on_server (LogoutHandler (en_crypto E) (en_session E))"
| "api E ChangePassword b = on_server (ChangePasswordHandler (en_bcrypt E) (en_session E) (en_change E b))"
| "api E Stats b = on_fleet (StatsHandler (en_avg E) (en_err E) (en_now E))"
| "api E ListDevices b = on_fleet (ListDevicesHandler (en_parseFloat E) (en_err E))"
| "api E GetDevice b = on_fleet (GetDeviceHandler (en_uuids E) (en_err E))"
| "api E DeleteDevice b = on_fleet (DeleteDeviceHandler (en_uuids E) (en_err E))"
| "api E ScanDevice b =
     on_jobs (TriggerDeviceScanHandler (en_uuids E) (en_err E) (en_uuid E) (en_now E) (en_trigger E b))"
| "api E RiskBreakdown b = on_fleet (RiskBreakdownHandler (en_uuids E) (en_err E) (en_now E))"
| "api E ListScans b = on_fleet (ListScansHandler (en_err E))"
| "api E GetScan b = on_fleet (GetScanHandler (en_uuids E) (en_err E))"
| "api E NetworkScan b =
     (\<lambda>c w. NetworkScanHandler c (w\<lparr>ap_data := (ap_data w)\<lparr>dt_sweeps := Suc (dt_sweeps (ap_data w))\<rparr>\<rparr>))"
| "api E ListVulns b = on_fleet (ListVulnerabilitiesHandler (en_uuids E) (en_err E))"
| "api E ResolveVuln b =
     starts (ResolveVulnerabilityHandler (en_uuids E) (en_err E) (en_now E)) (\<lambda>dev d. d\<lparr>dt_rescores := dt_rescores d @ [dev]\<rparr>)"
| "api E ListFirmware b = on_fleet (ListFirmwareHandler (en_err E))"
| "api E AnalyzeFirmware b =
     starts (AnalyzeFirmwareHandler (en_uuids E) (en_err E) (en_cfg E)) (\<lambda>j d. d\<lparr>dt_analyses := dt_analyses d @ [j]\<rparr>)"
| "api E UploadFirmware b = on_uploads (UploadFirmwareHandler (en_upload E) (en_cfg E) (en_form E b))"
| "api E ListAlerts b = on_fleet (ListAlertsHandler (en_uuids E) (en_err E))"
| "api E AckAlert b = on_fleet (AckAlertHandler (en_uuids E) (en_err E) (en_now E))"
| "api E KEVStatus b = KEVStatusHandler (en_kev_mtime E) (en_kev_fmt E) (en_kev E)"
| "api E ListSafelist b = on_admin (ListSafelistHandler (en_err E))"
| "api E CreateSafelist b = on_admin (CreateSafelistHandler (en_err E) (en_uuid E) (en_now E) (en_safelist E b))"
| "api E DeleteSafelist b = on_admin (DeleteSafelistHandler (en_uuids E) (en_err E))"
| "api E ListScanProfiles b = on_admin (ListScanProfilesHandler (en_name_le E) (en_err E))"
| "api E ListScanScopes b = on_admin (ListScanScopesHandler (en_err E))"
| "api E CreateScanScope b = on_admin (CreateScanScopeHandler (en_is_cidr E) (en_err E) (en_uuid E) (en_now E) (en_scope E b))"
| "api E DeleteScanScope b = on_admin (DeleteScanScopeHandler (en_uuids E) (en_err E))"
| "api E ListWebhooks b = on_alerting (ListWebhooksHandler (en_err E))"
| "api E CreateWebhook b = on_alerting (CreateWebhookHandler (en_is_url E) (en_err E) (en_uuid E) (en_now E) (en_webhook E b))"
| "api E DeleteWebhook b = on_alerting (DeleteWebhookHandler (en_uuids E) (en_err E))"
| "api E TestWebhook b = on_alerting (TestWebhookHandler (en_uuids E) (en_err E) (en_post E))"
| "api E ListUsers b = on_server (ListUsersHandler (en_session E))"
| "api E RegisterUser b = on_server (RegisterHandler (en_bcrypt E) (en_is_email E) (en_session E) (en_register E b))"
| "api E ListAuditLog b = ListAuditLogsHandler ap_audit (en_err E)"
| "api E ListSessions b = on_server (ListSessionsHandler (en_uuids E) (en_session E))"
| "api E RevokeSession b = on_server (RevokeSessionHandler (en_uuids E) (en_session E))"

section \<open>What a handler does to the context\<close>

definition replied :: "ctx \<Rightarrow> ctx \<Rightarrow> bool" where
  "replied c c' \<longleftrightarrow> cx_req c' = cx_req c \<and> cx_keys c' = cx_keys c \<and> cx_headers c' = cx_headers c"

lemma replied_intros:
  "replied c c" "replied c (reply st v c)" "replied c (success v c)" "replied c (fail st m c)" "replied c (failInternal st m e c)"
  "replied c (recovered c)"
  by (simp_all add: replied_def reply_def success_def fail_def failInternal_def recovered_def)

lemma replied_uuidParam: "uuidParam P n c = Inl c' \<Longrightarrow> replied c c'"
  by (auto simp: uuidParam_def Let_def replied_intros split: if_splits)

lemma replied_if: "(P \<Longrightarrow> replied c x) \<Longrightarrow> (\<not> P \<Longrightarrow> replied c y) \<Longrightarrow> replied c (if P then x else y)"
  by simp

lemma replied_session:
  "replied c (fst (LoginHandler L bc ev lr c s))" "replied c (fst (RefreshTokenHandler L ev rt c s))"
  "replied c (fst (LogoutHandler L ev c s))" "replied c (fst (ChangePasswordHandler bc ev cr c s))"
  "replied c (fst (ListUsersHandler ev c s))" "replied c (fst (RegisterHandler bc em ev rr c s))"
  "replied c (fst (ListSessionsHandler U ev c s))" "replied c (fst (RevokeSessionHandler P ev c s))"
  by (auto simp: LoginHandler_def RefreshTokenHandler_def LogoutHandler_def ChangePasswordHandler_def ListUsersHandler_def
      RegisterHandler_def ListSessionsHandler_def list_sessions_def RevokeSessionHandler_def token_failure_def replied_intros Let_def
      intro: replied_uuidParam split: option.split sum.split prod.split list.split)

lemma replied_fleet:
  "replied c (fst (StatsHandler avg err now c db))" "replied c (fst (ListDevicesHandler pf err c db))"
  "replied c (fst (GetDeviceHandler P err c db))" "replied c (fst (DeleteDeviceHandler P err c db))"
  "replied c (fst (TriggerDeviceScanHandler P err uuid now body c dj))" "replied c (fst (RiskBreakdownHandler P err now c db))"
  "replied c (fst (ListScansHandler err c db))" "replied c (fst (GetScanHandler P err c db))"
  "replied c (fst (ListVulnerabilitiesHandler U err c db))" "replied c (fst (ResolveVulnerabilityHandler P err now c db))"
  "replied c (fst (ListAlertsHandler U err c db))" "replied c (fst (AckAlertHandler P err now c db))"
  by (auto simp: StatsHandler_def ListDevicesHandler_def GetDeviceHandler_def DeleteDeviceHandler_def TriggerDeviceScanHandler_def
      RiskBreakdownHandler_def ListScansHandler_def GetScanHandler_def ListVulnerabilitiesHandler_def ResolveVulnerabilityHandler_def
      ListAlertsHandler_def AckAlertHandler_def replied_intros Let_def
      intro: replied_uuidParam split: option.split sum.split prod.split)

lemma replied_firmware:
  "replied c (fst (ListFirmwareHandler err c db))" "replied c (fst (AnalyzeFirmwareHandler P err cfg c db))"
  "replied c (fst (UploadFirmwareHandler ue cfg form c st))"
  by (auto simp: ListFirmwareHandler_def AnalyzeFirmwareHandler_def UploadFirmwareHandler_def store_upload_def replied_intros Let_def
      intro: replied_uuidParam split: option.split sum.split prod.split)

lemma replied_admin:
  "replied c (fst (ListSafelistHandler err c s))" "replied c (fst (CreateSafelistHandler err uuid now sr c s))"
  "replied c (fst (DeleteSafelistHandler P err c s))" "replied c (fst (ListScanProfilesHandler le err c s))"
  "replied c (fst (ListScanScopesHandler err c s))" "replied c (fst (CreateScanScopeHandler Q err uuid now cr c s))"
  "replied c (fst (DeleteScanScopeHandler P err c s))" "replied c (fst (ListWebhooksHandler err c ag))"
  "replied c (fst (CreateWebhookHandler Q err uuid now wr c ag))" "replied c (fst (DeleteWebhookHandler P err c ag))"
  "replied c (fst (TestWebhookHandler P err post c ag))"
  by (auto simp: ListSafelistHandler_def CreateSafelistHandler_def DeleteSafelistHandler_def ListScanProfilesHandler_def
      ListScanScopesHandler_def CreateScanScopeHandler_def DeleteScanScopeHandler_def ListWebhooksHandler_def CreateWebhookHandler_def
      DeleteWebhookHandler_def TestWebhookHandler_def replied_intros Let_def
      intro: replied_uuidParam split: option.split sum.split prod.split)

lemma replied_other:
  "replied c (fst (MetricsHandler get ks es ls now c w))" "replied c (fst (SwaggerJSONHandler file c w))"
  "replied c (fst (SwaggerUIHandler c w))" "replied c (fst (LivezHandler c w))" "replied c (fst (ReadyzHandler od cfg up now now' c ds))"
  "replied c (fst (HealthHandler od cfg up now now' c ds))" "replied c (fst (MeHandler c w))" "replied c (fst (PermissionsHandler c w))"
  "replied c (fst (NetworkScanHandler c w))" "replied c (fst (KEVStatusHandler mt fmt cat c w))"
  "replied c (fst (ListAuditLogsHandler ga err c w))"
  by (auto simp: MetricsHandler_def SwaggerJSONHandler_def SwaggerUIHandler_def LivezHandler_def ReadyzHandler_def HealthHandler_def
      MeHandler_def PermissionsHandler_def NetworkScanHandler_def KEVStatusHandler_def ListAuditLogsHandler_def replied_intros Let_def
      split: option.split)

lemmas replied_handlers = replied_session replied_fleet replied_firmware replied_admin replied_other

lemma fst_on_data [simp]: "fst (on_data get put h c w) = fst (h c (get (ap_data w)))"
  by (simp add: on_data_def split: prod.split)

lemma fst_starts [simp]: "fst (starts h note c w) = fst (h c (ag_fleet (dt_alerting (ap_data w))))"
  by (simp add: starts_def split: prod.split option.split)

text \<open>Whatever endpoint is called, the request, the keys and the headers set before stay; an upgrade to a web socket is gorilla's.\<close>

lemma api_replied:
  assumes "e = WS \<longrightarrow> (\<forall>ok c. replied c (case_sum id id (en_upgrade E ok c)))"
  shows "replied c (fst (api E e b c w))"
proof (cases "e = WS")
  case True
  then have "replied c (case_sum id id (en_upgrade E ok c))" for ok using assms by blast
  from this [of "checkOrigin (cfg_AllowedOrigins (en_cfg E)) c"] True show ?thesis
    by (auto simp: WSHandler_def split: sum.splits)
next
  case False
  then show ?thesis by (cases e) (simp_all add: replied_handlers split: prod.split)
qed

section \<open>What an unprivileged request can change\<close>

text \<open>All of an account but its password, the flag for a pending change and the two times.\<close>

definition account :: "user_row \<Rightarrow> user_row" where
  "account r = r\<lparr>ur_password_hash := [], ur_must_change_password := False, ur_last_login := None, ur_updated_at := 0\<rparr>"

text \<open>An alert may become acknowledged, and nothing else.\<close>

definition acknowledged :: "alert_row \<Rightarrow> alert_row \<Rightarrow> bool" where
  "acknowledged a a' \<longleftrightarrow> a' = a \<or> (\<exists>t. a' = a\<lparr>al_IsAcknowledged := True, al_AcknowledgedAt := Some t\<rparr>)"

definition same_accounts :: "('sk, 'pk) server \<Rightarrow> ('sk, 'pk) server \<Rightarrow> bool" where
  "same_accounts s s' \<longleftrightarrow> sv_keys s' = sv_keys s \<and> map account (sv_users s') = map account (sv_users s)"

definition same_fleet :: "fleet \<Rightarrow> fleet \<Rightarrow> bool" where
  "same_fleet db db' \<longleftrightarrow>
     db'\<lparr>fl_alerts := []\<rparr> = db\<lparr>fl_alerts := []\<rparr> \<and> list_all2 acknowledged (fl_alerts db) (fl_alerts db')"

definition unprivileged :: "('sk, 'pk) data \<Rightarrow> ('sk, 'pk) data \<Rightarrow> bool" where
  "unprivileged d d' \<longleftrightarrow>
     same_accounts (dt_server d) (dt_server d') \<and> same_fleet (ag_fleet (dt_alerting d)) (ag_fleet (dt_alerting d')) \<and>
     (dt_alerting d')\<lparr>ag_fleet := ag_fleet (dt_alerting d)\<rparr> = dt_alerting d \<and> dt_admin d' = dt_admin d \<and> dt_jobs d' = dt_jobs d \<and>
     dt_files d' = dt_files d \<and> dt_objects d' = dt_objects d \<and> dt_analyses d' = dt_analyses d \<and> dt_rescores d' = dt_rescores d \<and>
     dt_sweeps d' = dt_sweeps d"

lemma same_refl [simp]: "same_accounts s s" "same_fleet db db" "unprivileged d d"
  by (simp_all add: same_accounts_def same_fleet_def unprivileged_def acknowledged_def list_all2_refl)

lemma account_updates [simp]:
  "account (if P then r\<lparr>ur_last_login := x\<rparr> else r) = account r"
  "account (if P then r\<lparr>ur_password_hash := h, ur_must_change_password := m, ur_updated_at := t\<rparr> else r) = account r"
  by (simp_all add: account_def)

lemma same_accounts_updates:
  "same_accounts s (set_last_login t u s)" "same_accounts s (set_password t u h s)" "same_accounts s (revoke_where P s)"
  "same_accounts s (s\<lparr>sv_blacklist := b\<rparr>)" "same_accounts s (snd (storeRefreshToken L err uuid t u tid e s))"
  "same_accounts s (snd (revokeRefreshTokenByValue L err tok s))" "same_accounts s (snd (revokeAllRefreshTokens err u s))"
  by (simp_all add: same_accounts_def set_last_login_def set_password_def storeRefreshToken_def revokeRefreshTokenByValue_def
      revokeAllRefreshTokens_def comp_def Let_def split: option.split list.split)

lemma same_accounts_trans: "same_accounts a b \<Longrightarrow> same_accounts b c \<Longrightarrow> same_accounts a c"
  by (simp add: same_accounts_def)

lemma same_accounts_store: "storeRefreshToken L err uuid t u tid e s = (x, s') \<Longrightarrow> same_accounts s s'"
  using same_accounts_updates(5) by (metis snd_conv)

lemma sessions_unprivileged:
  "same_accounts s (snd (LoginHandler L bc ev lr c s))" "same_accounts s (snd (RefreshTokenHandler L ev rt c s))"
  "same_accounts s (snd (LogoutHandler L ev c s))" "same_accounts s (snd (ChangePasswordHandler bc ev cr c s))"
  by (auto simp: LoginHandler_def RefreshTokenHandler_def LogoutHandler_def ChangePasswordHandler_def Let_def
      intro: same_accounts_updates same_accounts_store same_accounts_trans
      split: option.split sum.split prod.split list.split)

lemma reading:
  "snd (StatsHandler avg err now c db) = db" "snd (ListDevicesHandler pf err c db) = db" "snd (GetDeviceHandler P err c db) = db"
  "snd (RiskBreakdownHandler P err now c db) = db" "snd (ListScansHandler err c db) = db" "snd (GetScanHandler P err c db) = db"
  "snd (ListVulnerabilitiesHandler U err c db) = db" "snd (ListAlertsHandler U err c db) = db" "snd (ListFirmwareHandler err c db) = db"
  by (auto simp: StatsHandler_def ListDevicesHandler_def GetDeviceHandler_def RiskBreakdownHandler_def ListScansHandler_def
      GetScanHandler_def ListVulnerabilitiesHandler_def ListAlertsHandler_def ListFirmwareHandler_def Let_def
      split: option.split sum.split prod.split)

lemma reading_other:
  "snd (ListSafelistHandler err c s) = s" "snd (ListScanProfilesHandler le err c s) = s" "snd (ListScanScopesHandler err c s) = s"
  "snd (MetricsHandler get ks es ls now c w) = w" "snd (SwaggerJSONHandler file c w) = w" "snd (SwaggerUIHandler c w) = w"
  "snd (LivezHandler c w) = w" "snd (MeHandler c w) = w" "snd (PermissionsHandler c w) = w" "snd (KEVStatusHandler mt fmt cat c w) = w"
  "snd (ListAuditLogsHandler ga err c w) = w"
  by (auto simp: ListSafelistHandler_def ListScanProfilesHandler_def ListScanScopesHandler_def MetricsHandler_def SwaggerJSONHandler_def
      SwaggerUIHandler_def LivezHandler_def MeHandler_def PermissionsHandler_def KEVStatusHandler_def ListAuditLogsHandler_def Let_def
      split: option.split)

lemma same_fleet_ack: "same_fleet db (snd (AckAlertHandler P err now c db))"
proof -
  have row: "acknowledged a (ack_row now i a)" for i a by (auto simp: acknowledged_def ack_row_def)
  then have "list_all2 acknowledged as (map (ack_row now i) as)" for i and as :: "alert_row list"
    by (simp add: list_all2_conv_all_nth)
  then have "same_fleet db (db\<lparr>fl_alerts := map (ack_row now i) (fl_alerts db)\<rparr>)" for i by (simp add: same_fleet_def)
  then show ?thesis by (auto simp: AckAlertHandler_def Let_def split: sum.split option.split)
qed

lemma snd_on_data: "ap_data (snd (on_data get put h c w)) = put (snd (h c (get (ap_data w)))) (ap_data w)"
  by (simp add: on_data_def split: prod.split)

lemma unprivileged_parts:
  "same_accounts (dt_server d) s \<Longrightarrow> unprivileged d (d\<lparr>dt_server := s\<rparr>)"
  "same_fleet (ag_fleet (dt_alerting d)) db \<Longrightarrow> unprivileged d (put_fleet db d)"
  "unprivileged d (d\<lparr>dt_probe := p\<rparr>)" "unprivileged d (d\<lparr>dt_hub := h\<rparr>)"
  by (simp_all add: unprivileged_def put_fleet_def)

text \<open>The endpoints that are not reserved for administrators.\<close>

lemma open_routes:
  assumes "r \<in> set routes" "rt_access r \<noteq> Admin"
  shows "rt_endpoint r \<in> {Login, Refresh, MetricsPage, SwaggerJSON, Docs, Livez, Readyz, HealthPage, WS, Me, Permissions, Logout,
    ChangePassword, Stats, ListDevices, GetDevice, RiskBreakdown, ListScans, GetScan, ListVulns, ListFirmware, ListAlerts, AckAlert,
    KEVStatus, ListSafelist, ListScanProfiles, ListScanScopes, ListAuditLog}"
  using assms by (auto simp: routes_def route_of_def)

lemma api_unprivileged:
  assumes "r \<in> set routes" "rt_access r \<noteq> Admin"
  shows "unprivileged (ap_data w) (ap_data (snd (api E (rt_endpoint r) b c w)))"
proof -
  note up = unprivileged_parts(1) [OF sessions_unprivileged(1)] unprivileged_parts(1) [OF sessions_unprivileged(2)]
    unprivileged_parts(1) [OF sessions_unprivileged(3)] unprivileged_parts(1) [OF sessions_unprivileged(4)]
    unprivileged_parts(2) [OF same_fleet_ack] unprivileged_parts(2) [OF same_refl(2)] unprivileged_parts(3,4)
  from open_routes [OF assms] show ?thesis
    by (auto simp: snd_on_data reading reading_other up split: prod.split)
qed

text \<open>
  The documented behaviour of gin's router: it finds routes that were registered, for the method of the
  request, when the path agrees with the registered one in every segment that is not a parameter.
\<close>

definition route_matches :: "string \<Rightarrow> string \<Rightarrow> bool" where
  "route_matches pat p \<longleftrightarrow> list_all2 (\<lambda>s t. hasPrefix s '':'' \<or> t = s) (split CHR ''/'' pat) (split CHR ''/'' p)"

definition finds :: "finder \<Rightarrow> bool" where
  "finds f \<longleftrightarrow> (\<forall>m p r ps. f m p = Found r ps \<longrightarrow> r \<in> set routes \<and> rt_method r = m \<and> route_matches (rt_path r) p)"

lemma route_matches_self [simp]: "route_matches p p"
  by (simp add: route_matches_def list_all2_refl)

lemma demo_finds: "finds demo_finder"
  by (auto simp: finds_def demo_finder_def find_Some_iff split: option.splits)

section \<open>The audit trail\<close>

definition admin_endpoints :: "endpoint list" where
  "admin_endpoints = map rt_endpoint (filter (\<lambda>r. rt_access r = Admin) routes)"

lemma admin_route: "r \<in> set routes \<Longrightarrow> rt_access r = Admin \<Longrightarrow> rt_endpoint r \<in> set admin_endpoints"
  by (auto simp: admin_endpoints_def)

lemma admin_endpoints_eq:
  "set admin_endpoints = {DeleteDevice, ScanDevice, NetworkScan, ResolveVuln, AnalyzeFirmware, UploadFirmware, CreateSafelist,
     DeleteSafelist, CreateScanScope, DeleteScanScope, ListWebhooks, CreateWebhook, DeleteWebhook, TestWebhook, ListUsers, RegisterUser,
     ListSessions, RevokeSession}"
  by (auto simp: admin_endpoints_def routes_def route_of_def)

text \<open>The handlers for administrators do not panic.\<close>

lemma uuidParam_calm: "uuidParam P n c = Inl c' \<Longrightarrow> cx_panicked c' = cx_panicked c"
  by (auto simp: uuidParam_def Let_def fail_def reply_def split: if_splits)

lemma answers_calm [simp]:
  "cx_panicked (reply st v c) = cx_panicked c" "cx_panicked (success v c) = cx_panicked c" "cx_panicked (fail st m c) = cx_panicked c"
  "cx_panicked (failInternal st m e c) = cx_panicked c"
  by (simp_all add: reply_def success_def fail_def failInternal_def)

lemma calm_fleet:
  "cx_panicked (fst (DeleteDeviceHandler P err c db)) = cx_panicked c"
  "cx_panicked (fst (TriggerDeviceScanHandler P err uuid now body c dj)) = cx_panicked c"
  "cx_panicked (fst (NetworkScanHandler c w)) = cx_panicked c"
  "cx_panicked (fst (ResolveVulnerabilityHandler P err now c db)) = cx_panicked c"
  "cx_panicked (fst (AnalyzeFirmwareHandler P err cfg c db)) = cx_panicked c"
  "cx_panicked (fst (UploadFirmwareHandler ue cfg form c st)) = cx_panicked c"
  by (auto simp: DeleteDeviceHandler_def TriggerDeviceScanHandler_def NetworkScanHandler_def ResolveVulnerabilityHandler_def
      AnalyzeFirmwareHandler_def UploadFirmwareHandler_def store_upload_def Let_def
      dest: uuidParam_calm split: option.split sum.split prod.split)

lemma calm_admin:
  "cx_panicked (fst (CreateSafelistHandler err uuid now sr c s)) = cx_panicked c"
  "cx_panicked (fst (DeleteSafelistHandler P err c s)) = cx_panicked c"
  "cx_panicked (fst (CreateScanScopeHandler Q err uuid now cr c s)) = cx_panicked c"
  "cx_panicked (fst (DeleteScanScopeHandler P err c s)) = cx_panicked c"
  "cx_panicked (fst (ListWebhooksHandler err c ag)) = cx_panicked c"
  "cx_panicked (fst (CreateWebhookHandler Q err uuid now wr c ag)) = cx_panicked c"
  "cx_panicked (fst (DeleteWebhookHandler P err c ag)) = cx_panicked c"
  "cx_panicked (fst (TestWebhookHandler P err post c ag)) = cx_panicked c"
  "cx_panicked (fst (ListUsersHandler ev c sv)) = cx_panicked c" "cx_panicked (fst (RegisterHandler bc em ev rr c sv)) = cx_panicked c"
  "cx_panicked (fst (ListSessionsHandler U ev c sv)) = cx_panicked c" "cx_panicked (fst (RevokeSessionHandler P ev c sv)) = cx_panicked c"
  by (auto simp: CreateSafelistHandler_def DeleteSafelistHandler_def CreateScanScopeHandler_def DeleteScanScopeHandler_def
      ListWebhooksHandler_def CreateWebhookHandler_def DeleteWebhookHandler_def TestWebhookHandler_def ListUsersHandler_def
      RegisterHandler_def ListSessionsHandler_def list_sessions_def RevokeSessionHandler_def Let_def
      dest: uuidParam_calm split: option.split sum.split prod.split)

lemma admin_calm: "e \<in> set admin_endpoints \<Longrightarrow> cx_panicked (fst (api E e b c w)) = cx_panicked c"
  unfolding admin_endpoints_eq by (auto simp: calm_fleet calm_admin)

text \<open>No handler for administrators removes an account or writes the audit trail.\<close>

lemma Register_users:
  "\<exists>new. sv_users (snd (RegisterHandler bc em ev rr c s)) = sv_users s @ new"
  by (auto simp: RegisterHandler_def insert_user_def Let_def split: option.split sum.split prod.split)

lemma other_users:
  "sv_users (snd (ListUsersHandler ev c s)) = sv_users s" "sv_users (snd (ListSessionsHandler U ev c s)) = sv_users s"
  "sv_users (snd (RevokeSessionHandler P ev c s)) = sv_users s"
  by (auto simp: ListUsersHandler_def ListSessionsHandler_def list_sessions_def RevokeSessionHandler_def Let_def
      split: option.split sum.split)

lemma starts_frame:
  "(\<And>j d. dt_server (note j d) = dt_server d) \<Longrightarrow> dt_server (ap_data (snd (starts h note c w))) = dt_server (ap_data w)"
  "ap_audit (snd (starts h note c w)) = ap_audit w"
  by (auto simp: starts_def put_fleet_def split: prod.split option.split)

lemma on_data_audit [simp]: "ap_audit (snd (on_data get put h c w)) = ap_audit w"
  by (simp add: on_data_def split: prod.split)

lemma admin_has_user:
  assumes "e \<in> set admin_endpoints" "has_user w uid"
  shows "has_user (snd (api E e b c w)) uid"
proof -
  have "\<exists>new. sv_users (dt_server (ap_data (snd (api E e b c w)))) = sv_users (dt_server (ap_data w)) @ new"
    using assms(1) unfolding admin_endpoints_eq
    by (auto simp: snd_on_data starts_frame put_fleet_def other_users Register_users NetworkScanHandler_def split: prod.split)
  with assms(2) show ?thesis by (auto simp: has_user_def list_ex_iff)
qed

lemma admin_audit: "e \<in> set admin_endpoints \<Longrightarrow> ap_audit (snd (api E e b c w)) = ap_audit w"
  unfolding admin_endpoints_eq by (auto simp: starts_frame NetworkScanHandler_def)

text \<open>The administrators' pages that are only read.\<close>

lemma get_unprivileged:
  assumes "r \<in> set routes" "\<not> isWriteMethod (rt_method r)"
  shows "unprivileged (ap_data w) (ap_data (snd (api E (rt_endpoint r) b c w)))"
proof (cases "rt_access r = Admin")
  case True
  with assms have "rt_endpoint r \<in> {ListWebhooks, ListUsers, ListSessions}"
    by (auto simp: routes_def route_of_def isWriteMethod_def writeMethods_def)
  moreover have "snd (ListWebhooksHandler err c ag) = ag" "snd (ListUsersHandler ev c s) = s" "snd (ListSessionsHandler U ev c s) = s"
    for err c ag ev U and s :: "('a, 'b) server"
    by (auto simp: ListWebhooksHandler_def ListUsersHandler_def ListSessionsHandler_def list_sessions_def Let_def split: option.split sum.split)
  ultimately show ?thesis by (auto simp: snd_on_data)
next
  case False
  with assms(1) show ?thesis by (rule api_unprivileged)
qed

lemma admin_paths_audited:
  "r \<in> set routes \<Longrightarrow> rt_access r = Admin \<Longrightarrow> route_matches (rt_path r) p \<Longrightarrow> p \<notin> set audit_skip"
proof -
  have "list_all (\<lambda>r. rt_access r = Admin \<longrightarrow> list_all (\<lambda>p. \<not> route_matches (rt_path r) p) audit_skip) routes" by code_simp
  then show "r \<in> set routes \<Longrightarrow> rt_access r = Admin \<Longrightarrow> route_matches (rt_path r) p \<Longrightarrow> p \<notin> set audit_skip"
    by (auto simp: list_all_iff)
qed

section \<open>The way of a request to the tables\<close>

text \<open>Behind the guards: a request is confined, or an administrator's write request runs its handler.\<close>

lemma guarded_cases:
  fixes w1 :: "('sk, 'pk) app"
  assumes "r \<in> set routes" "\<not> cx_aborted c1"
  shows "unprivileged (ap_data w1) (ap_data (snd (guards G (rt_access r) (api E (rt_endpoint r) b) c1 w1))) \<or>
    (\<exists>u. rt_access r = Admin \<and> isWriteMethod (rt_method r) \<and> permitted G (Some ''admin'') c1 (dt_server (ap_data w1)) = Some u \<and>
       guards G (rt_access r) (api E (rt_endpoint r) b) c1 w1 = api E (rt_endpoint r) b (authenticated u c1) w1)"
proof (cases "rt_access r")
  case Public
  then show ?thesis using api_unprivileged [OF assms(1), of w1 E b c1] by (simp add: guards_def)
next
  case (Protected role)
  show ?thesis
  proof (cases "permitted G role c1 (dt_server (ap_data w1))")
    case None
    then obtain c' where "\<forall>n. guards G (Protected role) n c1 w1 = (c', w1)" using guards_closed [OF assms(2)] by blast
    then show ?thesis by (simp add: Protected)
  next
    case (Some u)
    have run: "guards G (rt_access r) (api E (rt_endpoint r) b) c1 w1 = api E (rt_endpoint r) b (authenticated u c1) w1"
      using guards_open [OF assms(2) Some] Protected by simp
    show ?thesis
    proof (cases "rt_access r = Admin \<and> isWriteMethod (rt_method r)")
      case True
      with run Some Protected show ?thesis by simp
    next
      case False
      then have "unprivileged (ap_data w1) (ap_data (snd (api E (rt_endpoint r) b (authenticated u c1) w1)))"
        using api_unprivileged [OF assms(1)] get_unprivileged [OF assms(1)] by blast
      then show ?thesis by (simp add: run)
    qed
  qed
qed

lemma served_cases:
  fixes w :: "('sk, 'pk) app"
  assumes "finds find_route" "\<not> cx_aborted c"
  obtains (confined) "unprivileged (ap_data w) (ap_data (snd (serve find_route (api E) G body c w)))"
  | (admin) r ps u b c1 w1 f where "find_route (rq_method (cx_req c)) (rq_path (cx_req c)) = Found r ps"
      "rt_access r = Admin" "isWriteMethod (rt_method r)" "permitted G (Some ''admin'') c (dt_server (ap_data w)) = Some u"
      "carried (admitted_ctx G (with_params ps c)) c1" "same_data w w1" "\<And>c2 w2. same_data w2 (f c2 w2)"
      "serve find_route (api E) G body c w =
         (let res = api E (rt_endpoint r) b (authenticated u c1) w1 in (fst res, f (fst res) (audit_after G c1 (fst res) (snd res))))"
proof (cases "find_route (rq_method (cx_req c)) (rq_path (cx_req c))")
  case NoRoute
  from global_chain_cases [of w G c body] have "ap_data (snd (serve find_route (api E) G body c w)) = ap_data w"
    by (auto simp: serve_def NoRoute not_found_def)
  then show thesis by (intro confined) simp
next
  case (Redirect target)
  then show thesis by (intro confined) (simp add: serve_def redirected_def)
next
  case (Found r ps)
  have r: "r \<in> set routes" using assms(1) Found by (auto simp: finds_def)
  show thesis
  proof (rule serve_cases [where find_route = find_route and c = c and G = G and w = w and body = body, OF Found])
    fix c' w'
    assume "same_data w w'" "\<And>H. serve find_route H G body c w = (c', w')"
    then show thesis by (intro confined) (simp add: same_data_def)
  next
    fix b c1 w1 f
    let ?g = "guards G (rt_access r) (api E (rt_endpoint r) b) c1 w1"
    assume p: "carried (admitted_ctx G (with_params ps c)) c1" "cx_aborted c1 = cx_aborted c" "same_data w w1"
      "\<And>c2 w2. same_data w2 (f c2 w2)"
      "\<And>role. permitted G role c1 (dt_server (ap_data w1)) = permitted G role c (dt_server (ap_data w))"
      "\<And>H. serve find_route H G body c w =
         (let g = guards G (rt_access r) (H (rt_endpoint r) b) c1 w1 in (fst g, f (fst g) (audit_after G c1 (fst g) (snd g))))"
    have na: "\<not> cx_aborted c1" using p(2) assms(2) by simp
    from guarded_cases [OF r na, of w1 G E b] show thesis
    proof (elim disjE exE conjE)
      assume "unprivileged (ap_data w1) (ap_data (snd ?g))"
      then show thesis using p(3,4) by (intro confined) (simp add: p(6) Let_def same_data_def)
    next
      fix u
      assume a: "rt_access r = Admin" "isWriteMethod (rt_method r)" "permitted G (Some ''admin'') c1 (dt_server (ap_data w1)) = Some u"
        "?g = api E (rt_endpoint r) b (authenticated u c1) w1"
      show thesis
        by (rule admin [of r ps u c1 w1 f b]) (use a p Found in \<open>simp_all add: Let_def\<close>)
    qed
  qed
qed

section \<open>Example\<close>

definition demo_api :: "(unit, unit) api_env" where
  "demo_api = \<lparr>en_crypto = toy_lib, en_bcrypt = demo_bcrypt, en_cfg = config_Load Map.empty, en_session = demo_env, en_err = (\<lambda>_. None),
     en_now = 0, en_now' = 0, en_uuid = ''n'', en_uuids = plain_uuids, en_is_email = (\<lambda>_. True), en_is_cidr = (\<lambda>_. True),
     en_is_url = (\<lambda>_. True), en_name_le = (\<lambda>_ _. True), en_parseFloat = (\<lambda>_. 0), en_avg = (\<lambda>_. 0), en_login = (\<lambda>_. None),
     en_refresh = (\<lambda>_. None), en_change = (\<lambda>_. None), en_register = (\<lambda>_. None), en_trigger = (\<lambda>_. NoBody), en_safelist = (\<lambda>_. None),
     en_scope = (\<lambda>_. None), en_webhook = (\<lambda>_. None), en_form = (\<lambda>_. None),
     en_upload = \<lparr>ue_sha = id, ue_read_err = False, ue_tempPath = None, ue_copy_err = False, ue_minio_err = False, ue_put_err = False,
       ue_rename_err = False, ue_insert_err = False, ue_uuid = ''f'', ue_uuids = plain_uuids\<rparr>, en_post = (\<lambda>_. None),
     en_outside = \<lparr>od_dial = (\<lambda>_. None), od_http_get = (\<lambda>_. None)\<rparr>, en_databaseUp = True, en_upgrade = (\<lambda>_ c. Inl c), en_client = 0,
     en_swagger = None, en_metric_keys = ([], [], []), en_kev_mtime = None, en_kev_fmt = (\<lambda>_. []), en_kev = None\<rparr>"

section \<open>Properties\<close>

text \<open>C1: What a request without an administrator's token can do, through the whole interface: whatever the
  path, the headers and the body, it adds and changes no device, scan, vulnerability, firmware image,
  webhook, delivery, safelist entry, scan profile or scope and no stored file, it starts no scan, analysis or
  rescoring, it adds no account, changes no name, e-mail address, role or activation and replaces no
  signing key. Alerts can only become acknowledged. This holds for operators and viewers alike: the routes
  that delete a device, resolve a vulnerability, start a scan or upload an image ask for an administrator, although
  \<open>RolePermissions\<close> and the endpoint tables of \<open>docs/api.md\<close> grant these to operators.\<close>

theorem unprivileged_request_confined:
  fixes w :: "('sk, 'pk) app"
  assumes "finds find_route" "permitted G (Some ''admin'') c (dt_server (ap_data w)) = None" "\<not> cx_aborted c"
  shows "unprivileged (ap_data w) (ap_data (snd (serve find_route (api E) G body c w)))"
  by (rule served_cases [OF assms(1,3)]) (use assms(2) in auto)

theorem unprivileged_request_confined_witness:
  "unprivileged demo_data (ap_data (snd (serve demo_finder (api demo_api) demo_gate [] operator_call demo_app)))"
  using unprivileged_request_confined [OF demo_finds operator_identified(2), of demo_api "[]"]
  by (simp add: operator_call_def new_ctx_def) (simp add: demo_app_def)

text \<open>C7: No privileged change goes unrecorded: when a request changes anything that only an administrator
  may change, then it carried the token of an administrator, and provided that the account still exists and the
  insertion does not fail, the audit trail has grown by exactly one row, with that user, the method, the
  path and the status of the answer.\<close>

theorem privileged_change_audited:
  fixes w :: "('sk, 'pk) app"
  assumes "finds find_route" "\<not> cx_aborted c" "\<not> cx_panicked c" "serve find_route (api E) G body c w = (c', w')"
    and "\<not> unprivileged (ap_data w) (ap_data w')"
  shows "\<exists>u. permitted G (Some ''admin'') c (dt_server (ap_data w)) = Some u \<and>
    (u_ID u \<noteq> [] \<and> has_user w (u_ID u) \<and> (\<forall>e. av_err (ga_audit G) e = None) \<longrightarrow>
      (\<exists>row. ap_audit w' = ap_audit w @ [row] \<and> au_user_id row = Some (u_ID u) \<and> au_action row = rq_method (cx_req c) \<and>
         au_resource row = rq_path (cx_req c) \<and> au_status_code row = cx_status c'))"
proof (rule served_cases [OF assms(1,2), of w E G body])
  assume "unprivileged (ap_data w) (ap_data (snd (serve find_route (api E) G body c w)))"
  with assms(4,5) show ?thesis by simp
next
  fix r ps u b c1 w1 and f :: "ctx \<Rightarrow> ('sk, 'pk) app \<Rightarrow> ('sk, 'pk) app"
  assume r: "find_route (rq_method (cx_req c)) (rq_path (cx_req c)) = Found r ps" "rt_access r = Admin" "isWriteMethod (rt_method r)"
    and u: "permitted G (Some ''admin'') c (dt_server (ap_data w)) = Some u"
    and p: "carried (admitted_ctx G (with_params ps c)) c1" "same_data w w1" "\<And>c2 w2. same_data w2 (f c2 w2)"
    and out: "serve find_route (api E) G body c w =
         (let res = api E (rt_endpoint r) b (authenticated u c1) w1 in (fst res, f (fst res) (audit_after G c1 (fst res) (snd res))))"
  define c2 w2 where "c2 = fst (api E (rt_endpoint r) b (authenticated u c1) w1)" and "w2 = snd (api E (rt_endpoint r) b (authenticated u c1) w1)"
  have R: "r \<in> set routes" "rt_method r = rq_method (cx_req c)" "route_matches (rt_path r) (rq_path (cx_req c))"
    using assms(1) r(1) by (auto simp: finds_def)
  note adm = admin_route [OF R(1) r(2)]
  have res: "c' = c2" "w' = f c2 (audit_after G c1 c2 w2)" using assms(4) by (auto simp: out Let_def c2_def w2_def)
  have c1: "rq_path (cx_req c1) = rq_path (cx_req c)" "rq_method (cx_req c1) = rq_method (cx_req c)"
    using carried_request(2,3) [OF p(1)] by (simp_all add: with_params_def)
  have "rt_endpoint r \<noteq> WS" using adm unfolding admin_endpoints_eq by auto
  then have "replied (authenticated u c1) c2" unfolding c2_def by (intro api_replied) simp
  then have c2: "rq_method (cx_req c2) = rq_method (cx_req c)" "rq_path (cx_req c2) = rq_path (cx_req c)" "get_string c2 ''user_id'' = u_ID u"
    using c1 by (simp_all add: replied_def get_string_def authenticated_def)
  have "cx_panicked c1 = cx_panicked c" using p(1) by (simp add: pipe_defs with_params_def)
  then have calm: "\<not> cx_panicked c2" using admin_calm [OF adm, of E b "authenticated u c1" w1] assms(3) by (simp add: c2_def)
  have "\<exists>row. ap_audit w' = ap_audit w @ [row] \<and> au_user_id row = Some (u_ID u) \<and> au_action row = rq_method (cx_req c) \<and>
         au_resource row = rq_path (cx_req c) \<and> au_status_code row = cx_status c'"
    if h: "u_ID u \<noteq> []" "has_user w (u_ID u)" "\<forall>e. av_err (ga_audit G) e = None"
  proof -
    have "has_user w1 (u_ID u)" using h(2) p(2) by (simp add: has_user_def same_data_def)
    then have "has_user w2 (u_ID u)" unfolding w2_def by (rule admin_has_user [OF adm])
    moreover have "ap_audit w2 = ap_audit w" using admin_audit [OF adm, of E b "authenticated u c1" w1] p(2) by (simp add: w2_def same_data_def)
    moreover have "rq_path (cx_req c1) \<notin> set audit_skip" using admin_paths_audited [OF R(1) r(2) R(3)] c1(1) by simp
    ultimately have "ap_audit w' = ap_audit w @ [audit_row_of (av_uuid (ga_audit G)) (av_now (ga_audit G))
        (audit_entry_of (av_stop (ga_audit G) - av_start (ga_audit G)) c2)]"
      using p(3) [of "audit_after G c1 c2 w2" c2] calm r(3) R(2) h c2
      by (simp add: res same_data_def audit_after_def insert_audit_def audit_entry_of_def)
    then show ?thesis using c2 by (simp add: res audit_row_of_def audit_entry_of_def)
  qed
  with u show ?thesis by blast
qed

text \<open>The example: an administrator starts a scan of the network.\<close>

definition admin_user :: user where
  "admin_user = \<lparr>u_ID = ''u1'', u_Username = ''ada'', u_Email = [], u_Role = ''admin'', u_TokenID = [], u_MustChangePassword = False\<rparr>"

definition admin_lib :: "(unit, unit) crypto_lib" where
  "admin_lib = toy_lib\<lparr>json_unmarshal := (\<lambda>s. if s = ''c'' then Some (access_claims admin_user ''r'' 0) else None),
     json_marshal := (\<lambda>c. if c = access_claims admin_user ''r'' 0 then Some ''c'' else None)\<rparr>"

definition admin_gate :: "(unit, unit) gate" where
  "admin_gate = demo_gate\<lparr>ga_crypto := admin_lib\<rparr>"

lemma admin_verified: "verifyRS256 admin_lib toy_keys (10 * minute) toy_token = Inr (access_claims admin_user ''r'' 0)"
proof -
  have ok: "keys_ready admin_lib toy_keys ()" "sign_verifies admin_lib ()" "claims_json admin_lib (access_claims admin_user ''r'' 0)"
    by (auto simp: keys_ready_def sign_verifies_def claims_json_def admin_lib_def toy_lib_def toy_keys_def)
  have "signRS256 admin_lib toy_keys (access_claims admin_user ''r'' 0) = Inr toy_token"
    by (simp add: signRS256_def admin_lib_def toy_lib_def toy_keys_def toy_token_def Let_def)
  from verify_signed [OF ok this] show ?thesis
    by (simp add: check_claims_def admin_user_def unix_time_def to_unix_def AccessTokenTTL_def)
qed

lemma admin_identified:
  "permitted admin_gate (Some ''admin'') operator_call (dt_server (ap_data demo_app)) = Some (admin_user\<lparr>u_TokenID := generateTokenID ''r''\<rparr>)"
proof -
  have v: "ValidateAccessToken admin_lib toy_keys NewTokenBlacklist (10 * minute) toy_token = Inr (admin_user\<lparr>u_TokenID := generateTokenID ''r''\<rparr>)"
    unfolding ValidateAccessToken_def admin_verified
    by (simp add: IsBlacklisted_def NewTokenBlacklist_def claims_user_def access_claims_def admin_user_def)
  then show ?thesis
    using operator_bearer
    by (simp add: permitted_def granted_def admin_gate_def demo_gate_def demo_app_def demo_data_def admin_user_def
        RoleHierarchy_def min_level_def)
qed

lemma outer_chain_passes:
  fixes w :: "('sk, 'pk) app"
  assumes "hasPrefix (getHeader c ''Authorization'') ''Bearer ''" "rq_contentLength (cx_req c) \<le> 104857600" "getHeader c ''Content-Type'' = []"
    and "Allow (ap_limiter w) (ga_rl_now G) (rq_clientIP (cx_req c)) (get_string c ''user_id'') (rq_method (cx_req c)) (rq_path (cx_req c)) =
      (rl, True, remaining, limit)"
  shows "\<exists>c1 w1. carried c c1 \<and> ap_data w1 = ap_data w \<and> (\<forall>n. ap_data (snd (outer_chain G body n c w)) = ap_data (snd (n body c1 w1)))"
proof -
  obtain c0 st where set: "SetCSRFToken (sha256 (ga_crypto G)) (ga_rnd G) (ga_csrf_now' G) c (ap_csrf w) = (c0, st)" by fastforce
  then have c0: "c0 = set_header ''X-CSRF-Token'' (generateCSRFToken (ga_rnd G)) c" by (simp add: SetCSRFToken_def Let_def)
  have same: "cx_req c0 = cx_req c" "getHeader c0 x = getHeader c x" "get_string c0 y = get_string c y" for x y
    by (simp_all add: c0 getHeader_def get_string_def)
  have car: "carried c c0" unfolding c0 by (rule set_header_carried [OF fixed_header_names(1)])
  define c1 where "c1 = set_header ''X-RateLimit-Reset'' (itoa (to_unix (ga_rl_now' G + 30 * second)))
      (set_header ''X-RateLimit-Remaining'' (itoa remaining) (set_header ''X-RateLimit-Limit'' (itoa limit) c0))"
  have same1: "cx_req c1 = cx_req c" "getHeader c1 x = getHeader c x" for x by (simp_all add: c1_def same getHeader_def)
  have car1: "carried c c1"
    unfolding c1_def
    by (rule pipe.c_trans [OF car pipe.c_trans [OF pipe.c_trans [OF set_header_carried [OF fixed_header_names(4)]
            set_header_carried [OF fixed_header_names(3)]] set_header_carried [OF fixed_header_names(2)]]])
  define w1 where "w1 = (w\<lparr>ap_csrf := st, ap_limiter := rl\<rparr>)\<lparr>ap_metrics := add_active 1 (ap_metrics w)\<rparr>"
  have "ap_data (snd (outer_chain G body n c w)) = ap_data (snd (n body c1 w1))" for n
  proof -
    let ?m = "MetricsMiddleware ap_metrics (\<lambda>m w. w\<lparr>ap_metrics := m\<rparr>) (ga_start G) (ga_stop G)
      (SanitizeInput (ga_unmarshal G) (ga_marshal G) DefaultXSSConfig (ga_readErr G) body n)"
    have "outer_chain G body n c w = ?m c1 (w\<lparr>ap_csrf := st, ap_limiter := rl\<rparr>)"
      using assms(1,2,4) set same
      by (simp add: outer_chain_def CSRFMiddleware_def bodyLimit_def RateLimitMiddleware_def c1_def)
    also have "ap_data (snd (?m c1 (w\<lparr>ap_csrf := st, ap_limiter := rl\<rparr>))) = ap_data (snd (n body c1 w1))"
      using assms(3) same1 by (simp add: MetricsMiddleware_def SanitizeInput_def w1_def split: prod.split)
    finally show ?thesis .
  qed
  with car1 show ?thesis by (intro exI [of _ c1] exI [of _ w1]) (simp add: w1_def)
qed

lemma admin_sweeps:
  "dt_sweeps (ap_data (snd (serve demo_finder (api demo_api) admin_gate [] operator_call demo_app))) = 1"
proof -
  let ?r = "route_of ''POST'' ''/scan/network'' Admin NetworkScan"
  let ?c = "with_params Map.empty operator_call"
  let ?cc = "admitted_ctx admin_gate ?c"
  have req: "cx_req ?cc = cx_req operator_call" "getHeader ?cc x = getHeader operator_call x" for x
    by (simp_all add: with_params_def operator_call_def new_ctx_def demo_http_request_def getHeader_def)
  have auth: "hasPrefix (getHeader ?cc ''Authorization'') ''Bearer ''"
    unfolding req by (simp add: hasPrefix_def operator_call_def new_ctx_def demo_http_request_def getHeader_def)
  have small: "rq_contentLength (cx_req ?cc) \<le> 104857600" "getHeader ?cc ''Content-Type'' = []"
    unfolding req by (simp_all add: operator_call_def new_ctx_def demo_http_request_def getHeader_def)
  obtain rl remaining limit where al: "Allow (ap_limiter demo_app) (ga_rl_now admin_gate) (rq_clientIP (cx_req ?cc)) (get_string ?cc ''user_id'')
      (rq_method (cx_req ?cc)) (rq_path (cx_req ?cc)) = (rl, True, remaining, limit)"
    by (simp add: Allow_def demo_app_def NewRateLimiter_def getRule_def Let_def)
  obtain c1 w1 where p: "carried ?cc c1" "ap_data w1 = demo_data"
    "\<And>n. ap_data (snd (outer_chain admin_gate [] n ?cc demo_app)) = ap_data (snd (n [] c1 w1))"
    using outer_chain_passes [OF auth small al, of "[]"] by (auto simp: demo_app_def)
  have na: "\<not> cx_aborted c1" using carried_request(4) [OF p(1)] by (simp add: with_params_def operator_call_def new_ctx_def)
  have "getHeader c1 ''Authorization'' = getHeader operator_call ''Authorization''"
    using carried_request(1) [OF p(1)] req(2) by simp
  then have u: "permitted admin_gate (Some ''admin'') c1 (dt_server (ap_data w1)) = Some (admin_user\<lparr>u_TokenID := generateTokenID ''r''\<rparr>)"
    using caller_cong(2) [of c1 operator_call admin_gate] admin_identified p(2) by (simp add: demo_app_def)
  have "serve demo_finder (api demo_api) admin_gate [] operator_call demo_app =
      outer_chain admin_gate [] (\<lambda>b. audit_mw admin_gate (guards admin_gate Admin (api demo_api NetworkScan b))) ?cc demo_app"
    using demo_found(1)
    by (simp add: serve_def operator_call_def demo_http_request_def new_ctx_def route_of_def global_chain_eq inner_chain_def with_params_def)
  then have "ap_data (snd (serve demo_finder (api demo_api) admin_gate [] operator_call demo_app)) =
      ap_data (snd (guards admin_gate Admin (api demo_api NetworkScan []) c1 w1))"
    by (simp add: p(3) audit_mw_eq)
  then show ?thesis using guards_open [OF na u, of "api demo_api NetworkScan []"] p(2)
    by (simp add: NetworkScanHandler_def demo_data_def)
qed

theorem privileged_change_audited_witness:
  "\<exists>row. ap_audit (snd (serve demo_finder (api demo_api) admin_gate [] operator_call demo_app)) = [row] \<and> au_user_id row = Some ''u1'' \<and>
     au_action row = ''POST'' \<and> au_resource row = ''/api/v1/scan/network'' \<and>
     au_status_code row = cx_status (fst (serve demo_finder (api demo_api) admin_gate [] operator_call demo_app))"
proof -
  have "\<not> unprivileged (ap_data demo_app) (ap_data (snd (serve demo_finder (api demo_api) admin_gate [] operator_call demo_app)))"
    using admin_sweeps by (auto simp: unprivileged_def demo_app_def demo_data_def)
  moreover have "has_user demo_app ''u1''" by (simp add: has_user_def demo_app_def demo_data_def demo_row_def)
  ultimately show ?thesis
    using privileged_change_audited [OF demo_finds _ _ prod.collapse [symmetric], of operator_call demo_app demo_api admin_gate "[]"]
      admin_identified
    by (auto simp: operator_call_def new_ctx_def demo_http_request_def admin_user_def admin_gate_def demo_gate_def) (simp add: demo_app_def)
qed

lemma replied_kept: "replied c c' \<Longrightarrow> kept_headers c c'"
  by (simp add: replied_def kept_headers_def)

text \<open>Every response carries the security headers but the one that opens a web socket and gin's redirection to a path without the slash at the end: also a refusal, an error and the
  answer to a preflight request, and it allows another origin exactly when the request names one that is
  configured: then that very origin, and never a wildcard.\<close>

theorem response_headers:
  fixes w :: "('sk, 'pk) app"
  assumes "\<And>r ps. find_route (rq_method rq) (rq_path rq) = Found r ps \<Longrightarrow> rt_endpoint r \<noteq> WS"
    and "\<And>target. find_route (rq_method rq) (rq_path rq) \<noteq> Redirect target"
  shows "case serve find_route (api E) G body (new_ctx rq) w of
     (c', w') \<Rightarrow>
       (\<forall>(k, v) \<in> set security_headers. cx_headers c' k = Some v) \<and>
       cx_headers c' ''Access-Control-Allow-Origin'' =
         (case rq_headers rq ''Origin'' of
            None \<Rightarrow> None
          | Some orig \<Rightarrow> if orig \<noteq> [] \<and> orig \<in> set (cfg_AllowedOrigins (ga_cfg G)) then Some orig else None)"
proof (rule served_headers)
  show "kept_headers c (fst (api E (rt_endpoint r) b c w))" if "find_route (rq_method rq) (rq_path rq) = Found r ps" for r ps b c w
    using assms(1) [OF that] by (intro replied_kept api_replied) blast
qed (rule assms(2))

theorem response_headers_witness:
  "case serve demo_finder (api demo_api) demo_gate []
       (new_ctx (demo_http_request ''GET'' ''/api/v1/devices'' [''Origin'' \<mapsto> ''https://seagles''])) demo_app of
     (c', w') \<Rightarrow> (\<forall>(k, v) \<in> set security_headers. cx_headers c' k = Some v) \<and>
       cx_headers c' ''Access-Control-Allow-Origin'' = Some ''https://seagles''"
proof -
  have "''https://seagles'' \<in> set (cfg_AllowedOrigins (ga_cfg demo_gate))"
    by (simp add: demo_gate_def config_Load_def getAllowedOrigins_def getEnv_def, code_simp)
  then show ?thesis
    using response_headers [where find_route = demo_finder and E = demo_api and G = demo_gate
        and body = "[]" and rq = "demo_http_request ''GET'' ''/api/v1/devices'' [''Origin'' \<mapsto> ''https://seagles'']" and w = demo_app]
      demo_found(2)
    by (simp add: demo_http_request_def route_of_def)
qed

end
