(* ===== verification/Passive.thy ===== *)
theory Passive
  imports Scan_Pipeline Encoding
begin

text \<open>
  The passive monitor of \<open>backend/scanner/passive.go\<close>.

  A captured packet is what the decoder found in it: an ARP layer, the source port of a UDP layer, a
  DHCP layer. The addresses of an ARP layer are byte slices whose lengths the packet itself declares.
  Indexing past their end is a panic; the monitor's goroutine does not recover, so a panic (\<open>None\<close>)
  ends the process. Opening the device and the packet loop are not modelled.
\<close>

section \<open>Packets\<close>

record arp_layer =
  arp_Operation :: nat
  arp_SourceHwAddress :: "nat list"
  arp_SourceProtAddress :: "nat list"

record dhcp_layer =
  dh_ClientIP :: string
  dh_YourClientIP :: string
  dh_ClientHWAddr :: string

record packet =
  pk_arp :: "arp_layer option"
  pk_udp_src :: "int option"
  pk_dhcp :: "dhcp_layer option"

definition ifaceName :: "string \<Rightarrow> string" where
  "ifaceName interfaceName = (if interfaceName = [] then ''eth0'' else interfaceName)"

text \<open>The formats \<open>%d.%d.%d.%d\<close> and \<open>%02x:...:%02x\<close> over the first bytes of a slice.\<close>

definition dotted :: "nat list \<Rightarrow> string option" where
  "dotted bs = (if length bs < 4 then None else Some (join CHR ''.'' (map nat_digits (take 4 bs))))"

definition hex_byte :: "nat \<Rightarrow> string" where
  "hex_byte b = hex_encode [char_of b]"

definition colons :: "nat list \<Rightarrow> string option" where
  "colons bs = (if length bs < 6 then None else Some (join CHR '':'' (map hex_byte (take 6 bs))))"

section \<open>Devices seen\<close>

record passive_env =
  pe_safelist_err :: "string option"
  pe_select_err :: "string option"
  pe_insert_err :: "string option"
  pe_update_err :: "string option"
  pe_ip_unique :: bool
  pe_uuid :: string
  pe_now :: time
  pe_alert :: alert_env

definition isSafelistedMAC :: "string option \<Rightarrow> scan_admin \<Rightarrow> string \<Rightarrow> bool" where
  "isSafelistedMAC err adm mac =
     (if mac = [] then False
      else let count = (if err \<noteq> None then 0
             else length (filter (\<lambda>r. se_is_active r \<and> se_entry_type r = ''mac'' \<and> toLower (se_value r) = toLower mac) (sa_safelists adm)))
           in count > 0)"

definition touch_ip :: "time \<Rightarrow> string \<Rightarrow> fleet \<Rightarrow> fleet" where
  "touch_ip now ip db = db\<lparr>fl_devices := map (\<lambda>d. if d_IPAddress d = ip then d\<lparr>d_LastSeen := now\<rparr> else d) (fl_devices db)\<rparr>"

definition passive_device :: "passive_env \<Rightarrow> string \<Rightarrow> string \<Rightarrow> device" where
  "passive_device e ip mac =
     (new_device (pe_uuid e) ip (pe_now e))\<lparr>d_MACAddress := Some mac, d_Tags := Some [''passive-discovery'']\<rparr>"

definition passive_alert :: "string \<Rightarrow> string \<Rightarrow> string \<Rightarrow> string \<Rightarrow> alert_request" where
  "passive_alert dev ip mac source =
     \<lparr>ar_DeviceID = dev, ar_AlertType = ''new_device'', ar_Severity = ''high'',
      ar_Title = ''New device passively discovered: '' @ ip,
      ar_Description = ''Device detected on network without active scanning. Source: '' @ source @ '', MAC: '' @ mac,
      ar_Metadata = None\<rparr>"

text \<open>
  A NULL address of a known device cannot be read into the variable: the query then fails with an error
  that is not \<open>ErrNoRows\<close>, and neither branch is taken.
\<close>

definition handleDiscoveredDevice :: "passive_env \<Rightarrow> scan_admin \<Rightarrow> string \<Rightarrow> string \<Rightarrow> string \<Rightarrow> step" where
  "handleDiscoveredDevice e adm ip mac source db =
     (if isSafelistedMAC (pe_safelist_err e) adm mac then exec (pe_update_err e) (touch_ip (pe_now e) ip) db
      else if pe_select_err e \<noteq> None then ([], db)
      else case find (\<lambda>d. d_IPAddress d = ip) (fl_devices db) of
             None \<Rightarrow>
               if \<not> pe_ip_unique e \<or> pe_insert_err e \<noteq> None then ([], db)
               else andThen (exec None (\<lambda>db. db\<lparr>fl_devices := fl_devices db @ [passive_device e ip mac]\<rparr>))
                      (raise (pe_alert e) (passive_alert (pe_uuid e) ip mac source)) db
           | Some d \<Rightarrow>
               (case d_MACAddress d of
                  None \<Rightarrow> ([], db)
                | Some existingMAC \<Rightarrow>
                    if existingMAC = [] \<or> existingMAC \<noteq> mac
                    then exec (pe_update_err e) (upd_device (d_ID d) (\<lambda>d. d\<lparr>d_MACAddress := Some mac, d_LastSeen := pe_now e\<rparr>)) db
                    else exec (pe_update_err e) (upd_device (d_ID d)
                           (\<lambda>d. if d_LastSeen d < pe_now e - 5 * minute then d\<lparr>d_LastSeen := pe_now e\<rparr> else d)) db))"

section \<open>Packets processed\<close>

text \<open>The steps a packet leads to; an ARP and a DHCP layer are looked at one after the other.\<close>

definition arp_step :: "passive_env \<Rightarrow> scan_admin \<Rightarrow> arp_layer \<Rightarrow> step option" where
  "arp_step e adm arp =
     (if arp_Operation arp = 1 \<or> arp_Operation arp = 2 then
        (case (dotted (arp_SourceProtAddress arp), colons (arp_SourceHwAddress arp)) of
           (Some ip, Some mac) \<Rightarrow>
             if ip \<noteq> ''0.0.0.0'' \<and> mac \<noteq> ''00:00:00:00:00:00''
             then Some (handleDiscoveredDevice e adm ip mac ''ARP discovery'') else Some nothing
         | _ \<Rightarrow> None)
      else Some nothing)"

definition dhcp_step :: "passive_env \<Rightarrow> scan_admin \<Rightarrow> int option \<Rightarrow> dhcp_layer option \<Rightarrow> step" where
  "dhcp_step e adm src dhcp =
     (case (src, dhcp) of
        (Some port, Some d) \<Rightarrow>
          if port = 67 \<or> port = 68 then
            (let ip = (if dh_ClientIP d = ''0.0.0.0'' then dh_YourClientIP d else dh_ClientIP d); mac = dh_ClientHWAddr d
             in if ip \<noteq> ''0.0.0.0'' \<and> mac \<noteq> [] then handleDiscoveredDevice e adm ip mac ''DHCP discovery'' else nothing)
          else nothing
      | _ \<Rightarrow> nothing)"

definition processPacket ::
  "passive_env \<Rightarrow> passive_env \<Rightarrow> scan_admin \<Rightarrow> packet \<Rightarrow> fleet \<Rightarrow> (dispatch list \<times> fleet) option" where
  "processPacket e1 e2 adm p db =
     (case (case pk_arp p of None \<Rightarrow> Some nothing | Some arp \<Rightarrow> arp_step e1 adm arp) of
        None \<Rightarrow> None
      | Some st \<Rightarrow> Some (andThen st (dhcp_step e2 adm (pk_udp_src p) (pk_dhcp p)) db))"

section \<open>Lemmas\<close>

text \<open>For a device whose hardware address is not recorded, packets of that device have no effect.\<close>

lemma unknown_mac_ignored:
  assumes "find (\<lambda>d. d_IPAddress d = ip) (fl_devices db) = Some d" "d_MACAddress d = None"
    and "\<not> isSafelistedMAC (pe_safelist_err e) adm mac"
  shows "handleDiscoveredDevice e adm ip mac source db = ([], db)"
  using assms by (simp add: handleDiscoveredDevice_def)

section \<open>Property\<close>

text \<open>An ARP packet decides whether the process survives. A request or reply is processed exactly when
  it declares at least four bytes of protocol address and six of hardware address; any shorter one, which
  any host on the network can send, panics. Packets that are no ARP request or reply never do.\<close>

theorem arp_packet_panics_iff:
  "processPacket e1 e2 adm p db = None \<longleftrightarrow>
     (\<exists>arp. pk_arp p = Some arp \<and> arp_Operation arp \<in> {1, 2} \<and>
        (length (arp_SourceProtAddress arp) < 4 \<or> length (arp_SourceHwAddress arp) < 6))"
  by (auto simp: processPacket_def arp_step_def dotted_def colons_def split: option.split)

end
