(* ===== verification/Retention.thy ===== *)
theory Retention
  imports Alerts Audit_Log Config
begin

text \<open>
  The retention job of \<open>backend/retention/retention.go\<close>.

  A purge is one \<open>DELETE\<close>, and what it deletes is read off the text of the statement: the words of the
  query name a table and a column, the schema (\<open>db/migrations\<close>) says which columns a table has, and a
  query on anything else fails. Since migration 015 every foreign key between these tables is declared
  \<open>ON DELETE CASCADE\<close>, so the statement also deletes the rows that refer to a deleted one, and the rows
  that refer to those. A day is 24 hours, as in a session whose time zone is UTC. A delivery is kept
  with its time. \<open>rv_err\<close> says whether the statement on a table fails, \<open>rv_now\<close> is the time of the
  statement. The tables of accounts, webhooks and the administration are not part of the state.
\<close>

section \<open>State\<close>

record stored =
  so_fleet :: fleet
  so_audit :: "audit_row list"
  so_deliveries :: "(time \<times> delivery) list"

record retention_env =
  rv_err :: "string \<Rightarrow> string option"
  rv_now :: "string \<Rightarrow> time"

record purge_target =
  pt_table :: string
  pt_column :: string

definition purge_query :: "purge_target \<Rightarrow> string" where
  "purge_query p = ''DELETE FROM '' @ pt_table p @ '' WHERE '' @ pt_column p @ '' < NOW() - make_interval(days => $1)''"

definition purgeScans :: purge_target where
  "purgeScans = \<lparr>pt_table = ''scans'', pt_column = ''started_at''\<rparr>"

definition purgeAlerts :: purge_target where
  "purgeAlerts = \<lparr>pt_table = ''alerts'', pt_column = ''triggered_at''\<rparr>"

definition purgeAuditLog :: purge_target where
  "purgeAuditLog = \<lparr>pt_table = ''audit_log'', pt_column = ''created_at''\<rparr>"

definition purgeWebhookDelivery :: purge_target where
  "purgeWebhookDelivery = \<lparr>pt_table = ''webhook_deliveries'', pt_column = ''delivered_at''\<rparr>"

section \<open>The statements\<close>

definition cutoff :: "time \<Rightarrow> int \<Rightarrow> time" where
  "cutoff now days = now - days * 24 * hour"

text \<open>Deleting the rows of a table that satisfy \<open>P\<close>, with the rows that refer to them.\<close>

definition drop_deliveries :: "(time \<times> delivery \<Rightarrow> bool) \<Rightarrow> stored \<Rightarrow> stored" where
  "drop_deliveries P st = st\<lparr>so_deliveries := filter (\<lambda>d. \<not> P d) (so_deliveries st)\<rparr>"

definition drop_audit :: "(audit_row \<Rightarrow> bool) \<Rightarrow> stored \<Rightarrow> stored" where
  "drop_audit P st = st\<lparr>so_audit := filter (\<lambda>r. \<not> P r) (so_audit st)\<rparr>"

definition drop_vulns :: "(vuln_row \<Rightarrow> bool) \<Rightarrow> stored \<Rightarrow> stored" where
  "drop_vulns P st = st\<lparr>so_fleet := (so_fleet st)\<lparr>fl_vulns := filter (\<lambda>v. \<not> P v) (fl_vulns (so_fleet st))\<rparr>\<rparr>"

definition drop_firmware :: "(firmware_row \<Rightarrow> bool) \<Rightarrow> stored \<Rightarrow> stored" where
  "drop_firmware P st = st\<lparr>so_fleet := (so_fleet st)\<lparr>fl_firmware := filter (\<lambda>f. \<not> P f) (fl_firmware (so_fleet st))\<rparr>\<rparr>"

definition drop_alerts :: "(alert_row \<Rightarrow> bool) \<Rightarrow> stored \<Rightarrow> stored" where
  "drop_alerts P st =
     (let gone = map al_ID (filter P (fl_alerts (so_fleet st)))
      in drop_deliveries (\<lambda>d. dl_alert_id (snd d) \<in> set gone)
           (st\<lparr>so_fleet := (so_fleet st)\<lparr>fl_alerts := filter (\<lambda>a. \<not> P a) (fl_alerts (so_fleet st))\<rparr>\<rparr>))"

definition drop_scans :: "(scan \<Rightarrow> bool) \<Rightarrow> stored \<Rightarrow> stored" where
  "drop_scans P st =
     (let gone = map s_ID (filter P (fl_scans (so_fleet st)))
      in drop_vulns (\<lambda>v. vu_ScanID v \<in> Some ` set gone)
           (st\<lparr>so_fleet := (so_fleet st)\<lparr>fl_scans := filter (\<lambda>s. \<not> P s) (fl_scans (so_fleet st))\<rparr>\<rparr>))"

definition drop_devices :: "(device \<Rightarrow> bool) \<Rightarrow> stored \<Rightarrow> stored" where
  "drop_devices P st =
     (let gone = Some ` set (map d_ID (filter P (fl_devices (so_fleet st))))
      in drop_scans (\<lambda>s. s_DeviceID s \<in> gone) (drop_vulns (\<lambda>v. vu_DeviceID v \<in> gone)
           (drop_firmware (\<lambda>f. fr_device_id f \<in> gone) (drop_alerts (\<lambda>a. al_DeviceID a \<in> gone)
             (st\<lparr>so_fleet := (so_fleet st)\<lparr>fl_devices := filter (\<lambda>d. \<not> P d) (fl_devices (so_fleet st))\<rparr>\<rparr>)))))"

text \<open>The time columns of the tables. A NULL is not older than anything.\<close>

definition older :: "time \<Rightarrow> time option \<Rightarrow> bool" where
  "older limit t = (case t of None \<Rightarrow> False | Some x \<Rightarrow> x < limit)"

definition scan_column :: "string \<rightharpoonup> (scan \<Rightarrow> time option)" where
  "scan_column = [''started_at'' \<mapsto> (\<lambda>s. Some (s_StartedAt s)), ''completed_at'' \<mapsto> s_CompletedAt]"

definition alert_column :: "string \<rightharpoonup> (alert_row \<Rightarrow> time option)" where
  "alert_column = [''triggered_at'' \<mapsto> (\<lambda>a. Some (al_TriggeredAt a)), ''acknowledged_at'' \<mapsto> al_AcknowledgedAt,
     ''webhook_sent_at'' \<mapsto> al_webhook_sent_at]"

definition audit_column :: "string \<rightharpoonup> (audit_row \<Rightarrow> time option)" where
  "audit_column = [''created_at'' \<mapsto> (\<lambda>r. Some (au_created_at r))]"

definition delivery_column :: "string \<rightharpoonup> (time \<times> delivery \<Rightarrow> time option)" where
  "delivery_column = [''delivered_at'' \<mapsto> (\<lambda>d. Some (fst d))]"

definition device_column :: "string \<rightharpoonup> (device \<Rightarrow> time option)" where
  "device_column = [''first_seen'' \<mapsto> (\<lambda>d. Some (d_FirstSeen d)), ''last_seen'' \<mapsto> (\<lambda>d. Some (d_LastSeen d))]"

definition vuln_column :: "string \<rightharpoonup> (vuln_row \<Rightarrow> time option)" where
  "vuln_column = [''discovered_at'' \<mapsto> (\<lambda>v. Some (vu_DiscoveredAt v)), ''resolved_at'' \<mapsto> vu_ResolvedAt,
     ''epss_updated_at'' \<mapsto> vu_epss_updated_at]"

definition firmware_column :: "string \<rightharpoonup> (firmware_row \<Rightarrow> time option)" where
  "firmware_column = [''analyzed_at'' \<mapsto> fr_analyzed_at]"

definition drop_older ::
  "(('a \<Rightarrow> bool) \<Rightarrow> stored \<Rightarrow> stored) \<Rightarrow> ('a \<Rightarrow> time option) option \<Rightarrow> time \<Rightarrow> stored \<Rightarrow> stored option" where
  "drop_older del col limit st = map_option (\<lambda>f. del (\<lambda>r. older limit (f r)) st) col"

text \<open>\<open>DELETE FROM table WHERE column < limit\<close>: \<open>None\<close> when there is no such table or column.\<close>

definition delete_older :: "string \<Rightarrow> string \<Rightarrow> time \<Rightarrow> stored \<Rightarrow> stored option" where
  "delete_older table col =
     (if table = ''scans'' then drop_older drop_scans (scan_column col)
      else if table = ''alerts'' then drop_older drop_alerts (alert_column col)
      else if table = ''audit_log'' then drop_older drop_audit (audit_column col)
      else if table = ''webhook_deliveries'' then drop_older drop_deliveries (delivery_column col)
      else if table = ''devices'' then drop_older drop_devices (device_column col)
      else if table = ''vulnerabilities'' then drop_older drop_vulns (vuln_column col)
      else if table = ''firmware'' then drop_older drop_firmware (firmware_column col)
      else (\<lambda>_ _. None))"

text \<open>The database's reading of a query, word by word.\<close>

definition exec_delete :: "string \<Rightarrow> time \<Rightarrow> int \<Rightarrow> stored \<Rightarrow> stored option" where
  "exec_delete query now days st =
     (case split CHR '' '' query of
        [k1, k2, table, k3, col, opr, n, sub, interval, arrow, arg] \<Rightarrow>
          if [k1, k2, k3, opr, n, sub, interval, arrow, arg] =
             [''DELETE'', ''FROM'', ''WHERE'', ''<'', ''NOW()'', ''-'', ''make_interval(days'', ''=>'', ''$1)'']
          then delete_older table col (cutoff now days) st else None
      | _ \<Rightarrow> None)"

definition purgeOld :: "retention_env \<Rightarrow> purge_target \<Rightarrow> int \<Rightarrow> stored \<Rightarrow> stored" where
  "purgeOld rv target days st =
     (if rv_err rv (pt_table target) \<noteq> None then st
      else case exec_delete (purge_query target) (rv_now rv (pt_table target)) days st of None \<Rightarrow> st | Some st' \<Rightarrow> st')"

definition purge_if :: "retention_env \<Rightarrow> purge_target \<Rightarrow> int \<Rightarrow> stored \<Rightarrow> stored" where
  "purge_if rv target days st = (if days > 0 then purgeOld rv target days st else st)"

definition runOnce :: "retention_env \<Rightarrow> config \<Rightarrow> stored \<Rightarrow> stored" where
  "runOnce rv cfg st =
     purge_if rv purgeWebhookDelivery (cfg_RetentionWebhookDelivDays cfg)
       (purge_if rv purgeAuditLog (cfg_RetentionAuditLogDays cfg)
         (purge_if rv purgeAlerts (cfg_RetentionAlertsDays cfg)
           (purge_if rv purgeScans (cfg_RetentionScansDays cfg) st)))"

text \<open>
  \<open>StartRetentionJob\<close>: a pass at the start and one per tick, until the stop channel is closed. When a
  tick and the stop are both ready, Go may take either; the list says which turns it took.
\<close>

datatype job_turn = Tick retention_env | Stop

fun retention_loop :: "config \<Rightarrow> job_turn list \<Rightarrow> stored \<Rightarrow> stored \<times> bool" where
  "retention_loop cfg [] st = (st, False)"
| "retention_loop cfg (Stop # ts) st = (st, True)"
| "retention_loop cfg (Tick rv # ts) st = retention_loop cfg ts (runOnce rv cfg st)"

definition StartRetentionJob :: "retention_env \<Rightarrow> config \<Rightarrow> job_turn list \<Rightarrow> stored \<Rightarrow> stored \<times> bool" where
  "StartRetentionJob rv cfg turns st = retention_loop cfg turns (runOnce rv cfg st)"

section \<open>Lemmas\<close>

text \<open>Whether a pass deletes the rows of a table that have a given time.\<close>

definition overdue :: "retention_env \<Rightarrow> string \<Rightarrow> int \<Rightarrow> time \<Rightarrow> bool" where
  "overdue rv table days t \<longleftrightarrow> days > 0 \<and> rv_err rv table = None \<and> t < rv_now rv table - days * 24 * hour"

text \<open>What the four queries ask for.\<close>

lemma exec_purge:
  assumes "CHR '' '' \<notin> set (pt_table p)" "CHR '' '' \<notin> set (pt_column p)"
  shows "exec_delete (purge_query p) now days st = delete_older (pt_table p) (pt_column p) (cutoff now days) st"
proof -
  let ?ws = "[''DELETE'', ''FROM'', pt_table p, ''WHERE'', pt_column p, ''<'', ''NOW()'', ''-'', ''make_interval(days'', ''=>'', ''$1)'']"
  have "purge_query p = join CHR '' '' ?ws" by (simp add: purge_query_def)
  moreover have "split CHR '' '' (join CHR '' '' ?ws) = ?ws" using assms by (intro split_join) auto
  ultimately show ?thesis by (simp add: exec_delete_def)
qed

lemma purge_scans:
  "purge_if rv purgeScans days st = drop_scans (\<lambda>s. overdue rv ''scans'' days (s_StartedAt s)) st"
  by (auto simp: purge_if_def purgeOld_def exec_purge purgeScans_def delete_older_def drop_older_def scan_column_def older_def cutoff_def
      overdue_def drop_scans_def drop_vulns_def)

lemma purge_alerts:
  "purge_if rv purgeAlerts days st = drop_alerts (\<lambda>a. overdue rv ''alerts'' days (al_TriggeredAt a)) st"
  by (auto simp: purge_if_def purgeOld_def exec_purge purgeAlerts_def delete_older_def drop_older_def alert_column_def older_def cutoff_def
      overdue_def drop_alerts_def drop_deliveries_def)

lemma purge_audit:
  "purge_if rv purgeAuditLog days st = drop_audit (\<lambda>r. overdue rv ''audit_log'' days (au_created_at r)) st"
  by (auto simp: purge_if_def purgeOld_def exec_purge purgeAuditLog_def delete_older_def drop_older_def audit_column_def older_def
      cutoff_def overdue_def drop_audit_def)

lemma purge_deliveries:
  "purge_if rv purgeWebhookDelivery days st = drop_deliveries (\<lambda>d. overdue rv ''webhook_deliveries'' days (fst d)) st"
  by (auto simp: purge_if_def purgeOld_def exec_purge purgeWebhookDelivery_def delete_older_def drop_older_def delivery_column_def
      older_def cutoff_def overdue_def drop_deliveries_def)

lemmas purges = purge_scans purge_alerts purge_audit purge_deliveries

lemmas drops = drop_scans_def drop_vulns_def drop_alerts_def drop_deliveries_def drop_audit_def Let_def

section \<open>Properties\<close>

text \<open>C29: A pass deletes exactly what is due. A scan goes when it was started, an alert when it was
  triggered, an audit entry when it was created and a delivery when it was made more than the configured
  number of days ago; all others stay, and a table whose limit is zero or whose statement fails keeps
  everything. A delivery also goes with its alert, and a vulnerability goes with its scan, and only so.
  Devices and firmware are never touched.\<close>

theorem retention_exact:
  "let st' = runOnce rv cfg st; db = so_fleet st; db' = so_fleet st';
       old_scan = (\<lambda>s. overdue rv ''scans'' (cfg_RetentionScansDays cfg) (s_StartedAt s));
       old_alert = (\<lambda>a. overdue rv ''alerts'' (cfg_RetentionAlertsDays cfg) (al_TriggeredAt a)) in
   fl_scans db' = filter (\<lambda>s. \<not> old_scan s) (fl_scans db) \<and>
   fl_alerts db' = filter (\<lambda>a. \<not> old_alert a) (fl_alerts db) \<and>
   so_audit st' = filter (\<lambda>r. \<not> overdue rv ''audit_log'' (cfg_RetentionAuditLogDays cfg) (au_created_at r)) (so_audit st) \<and>
   so_deliveries st' = filter (\<lambda>(t, d). \<not> overdue rv ''webhook_deliveries'' (cfg_RetentionWebhookDelivDays cfg) t \<and>
       dl_alert_id d \<notin> al_ID ` {a \<in> set (fl_alerts db). old_alert a}) (so_deliveries st) \<and>
   fl_vulns db' = filter (\<lambda>v. vu_ScanID v \<notin> (Some \<circ> s_ID) ` {s \<in> set (fl_scans db). old_scan s}) (fl_vulns db) \<and>
   fl_devices db' = fl_devices db \<and> fl_firmware db' = fl_firmware db"
proof -
  have v: "vu_ScanID v \<in> Some ` set (map s_ID (filter P xs)) \<longleftrightarrow> vu_ScanID v \<in> (Some \<circ> s_ID) ` {s \<in> set xs. P s}"
    for v :: vuln_row and P and xs :: "scan list"
    by (auto simp: image_image)
  have d: "(\<lambda>x :: time \<times> delivery. dl_alert_id (snd x) \<notin> al_ID ` A \<and> \<not> P (fst x)) =
      (\<lambda>(t, d). dl_alert_id d \<notin> al_ID ` A \<and> \<not> P t)" for P and A :: "alert_row set"
    by (auto simp: fun_eq_iff)
  show ?thesis
    unfolding runOnce_def purges drops v by (simp add: conj_commute d)
qed


section \<open>A pass on paper\<close>

definition demo_old_scan :: scan where
  "demo_old_scan = \<lparr>s_ID = ''s1'', s_DeviceID = Some ''d1'', s_StartedAt = 0, s_CompletedAt = Some 1, s_Status = ''completed'',
     s_ScanType = ''full'', s_OpenPorts = [], s_Services = [], s_ScanOutput = None\<rparr>"

definition demo_open_vuln :: vuln_row where
  "demo_open_vuln = \<lparr>vu_ID = ''v1'', vu_DeviceID = Some ''d1'', vu_ScanID = Some ''s1'', vu_CVEID = Some ''CVE-2021-36260'',
     vu_CVSSScore = Some 9, vu_Severity = ''critical'', vu_Title = ''t'', vu_Description = None, vu_AffectedComponent = None,
     vu_Remediation = None, vu_IsKEV = True, vu_DiscoveredAt = 0, vu_ResolvedAt = None, vu_IsResolved = False,
     vu_epss_score = None, vu_epss_percentile = None, vu_epss_updated_at = None\<rparr>"

definition demo_stored :: stored where
  "demo_stored = \<lparr>so_fleet = \<lparr>fl_devices = [], fl_scans = [demo_old_scan], fl_vulns = [demo_open_vuln], fl_firmware = [],
     fl_alerts = []\<rparr>, so_audit = [], so_deliveries = []\<rparr>"


end
