(* ===== verification/Pinning.thy ===== *)
theory Pinning
  imports Gin_Context Encoding
begin

text \<open>
  TLS enforcement and certificate pinning, \<open>backend/middleware/tls.go\<close>.

  SHA-256 and the parser of certificates are parameters. A pin is matched by the names inside the
  certificate that the peer presents; the host that was dialled plays no part in the check.
\<close>

section \<open>Requests over TLS\<close>

abbreviation VersionTLS12 :: nat where
  "VersionTLS12 \<equiv> 0x0303"

record tls_config =
  tc_Enabled :: bool
  tc_CertFile :: string
  tc_KeyFile :: string
  tc_MinVersion :: nat
  tc_EnforceTLS13 :: bool
  tc_PinnedKeysFile :: string

definition DefaultTLSConfig :: tls_config where
  "DefaultTLSConfig = \<lparr>tc_Enabled = False, tc_CertFile = [], tc_KeyFile = [], tc_MinVersion = VersionTLS12,
     tc_EnforceTLS13 = False, tc_PinnedKeysFile = []\<rparr>"

text \<open>\<open>version\<close> is the version of the connection, \<open>None\<close> for a request without TLS.\<close>

definition TLSEnforcementMiddleware :: "nat option \<Rightarrow> 'w middleware" where
  "TLSEnforcementMiddleware version next c w =
     (case version of
        None \<Rightarrow> next c w
      | Some v \<Rightarrow> if v < VersionTLS12 then (abort_fail 403 ''TLS 1.2 or higher required'' c, w) else next c w)"

section \<open>Pins\<close>

record cert_pin =
  cp_Hostname :: string
  cp_SHA256 :: string

fun parse_pins :: "string list \<Rightarrow> cert_pin list" where
  "parse_pins [] = []"
| "parse_pins (l # ls) =
     (let line = trimSpace l in
      if line = [] \<or> hasPrefix line ''#'' then parse_pins ls
      else case splitN 2 CHR '' '' line of
             [h, s] \<Rightarrow> \<lparr>cp_Hostname = h, cp_SHA256 = s\<rparr> # parse_pins ls
           | _ \<Rightarrow> parse_pins ls)"

definition LoadPinnedKeys :: "string + string \<Rightarrow> string + cert_pin list" where
  "LoadPinnedKeys file =
     (case file of
        Inl err \<Rightarrow> Inl (''failed to read pinned keys file: '' @ err)
      | Inr data \<Rightarrow> Inr (parse_pins (split CHR 0x0A data)))"

section \<open>The check of a peer\<close>

record x509 =
  xc_Raw :: string
  xc_CommonName :: string
  xc_DNSNames :: "string list"

datatype pin_error = NoPeerCertificate | BadCertificate string | PinMismatch string string string | NoPin string

definition hostMatchesPin :: "x509 \<Rightarrow> string \<Rightarrow> bool" where
  "hostMatchesPin cert hostname =
     (let target = toLower (trimSpace hostname) in
      if target = [] then False
      else if toLower (trimSpace (xc_CommonName cert)) = target then True
      else list_ex (\<lambda>dns. toLower (trimSpace dns) = toLower target) (xc_DNSNames cert))"

fun check_pins :: "cert_pin list \<Rightarrow> x509 \<Rightarrow> string \<Rightarrow> pin_error option" where
  "check_pins [] cert fingerprint = Some (NoPin (xc_CommonName cert))"
| "check_pins (pin # pins) cert fingerprint =
     (if hostMatchesPin cert (cp_Hostname pin) then
        if fingerprint = toLower (trimSpace (cp_SHA256 pin)) then None
        else Some (PinMismatch (cp_Hostname pin) (cp_SHA256 pin) fingerprint)
      else check_pins pins cert fingerprint)"

text \<open>The callback of the pinned client; \<open>None\<close> accepts the peer.\<close>

definition verifyPeer ::
  "(string \<Rightarrow> string) \<Rightarrow> (string \<Rightarrow> string + x509) \<Rightarrow> cert_pin list \<Rightarrow> string list \<Rightarrow> pin_error option" where
  "verifyPeer sha parse pins rawCerts =
     (case rawCerts of
        [] \<Rightarrow> Some NoPeerCertificate
      | raw # _ \<Rightarrow>
          (case parse raw of
             Inl err \<Rightarrow> Some (BadCertificate err)
           | Inr cert \<Rightarrow> check_pins pins cert (hex_encode (sha (xc_Raw cert)))))"

fun containsHost :: "string list \<Rightarrow> string \<Rightarrow> bool" where
  "containsHost [] target = False"
| "containsHost (h # hs) target = (if contains h target then True else containsHost hs target)"

section \<open>Lemmas\<close>

lemma check_pins_find:
  "check_pins pins cert fp =
     (case find (\<lambda>q. hostMatchesPin cert (cp_Hostname q)) pins of
        None \<Rightarrow> Some (NoPin (xc_CommonName cert))
      | Some pin \<Rightarrow> if fp = toLower (trimSpace (cp_SHA256 pin)) then None
                    else Some (PinMismatch (cp_Hostname pin) (cp_SHA256 pin) fp))"
  by (induction pins) auto

lemma hostMatchesPin_iff:
  "hostMatchesPin cert h \<longleftrightarrow> trimSpace h \<noteq> [] \<and>
     (\<exists>n \<in> insert (xc_CommonName cert) (set (xc_DNSNames cert)). toLower (trimSpace n) = toLower (trimSpace h))"
  by (auto simp: hostMatchesPin_def Let_def list_ex_iff) (auto simp: toLower_def)

lemma parse_pins_line:
  assumes "pin \<in> set (parse_pins ls)"
  shows "\<exists>l \<in> set ls. trimSpace l = cp_Hostname pin @ CHR '' '' # cp_SHA256 pin \<and> \<not> hasPrefix (trimSpace l) ''#'' \<and>
     CHR '' '' \<notin> set (cp_Hostname pin)"
  using assms by (induction ls) (auto simp: Let_def splitN_2_eq split: if_splits list.splits)

section \<open>Property\<close>

text \<open>C40: Pinning fails closed. A peer is accepted exactly when its first certificate parses, some pin of
  the file names the certificate's common name or one of its DNS names, and the first such pin is the
  certificate's fingerprint; that pin stands on a line of the file that is no comment. With no pin for it,
  or with no certificate, a peer is refused.\<close>

theorem pinning_fails_closed:
  "case LoadPinnedKeys (Inr data) of
     Inl e \<Rightarrow> False
   | Inr pins \<Rightarrow>
       verifyPeer sha parse pins rawCerts = None \<longleftrightarrow>
       (\<exists>raw chain cert pin.
          rawCerts = raw # chain \<and> parse raw = Inr cert \<and>
          find (\<lambda>q. hostMatchesPin cert (cp_Hostname q)) pins = Some pin \<and>
          (\<exists>l \<in> set (split CHR 0x0A data). trimSpace l = cp_Hostname pin @ CHR '' '' # cp_SHA256 pin \<and>
             \<not> hasPrefix (trimSpace l) ''#'') \<and>
          (\<exists>n \<in> insert (xc_CommonName cert) (set (xc_DNSNames cert)).
             toLower (trimSpace n) = toLower (trimSpace (cp_Hostname pin))) \<and>
          hex_encode (sha (xc_Raw cert)) = toLower (trimSpace (cp_SHA256 pin)))"
proof -
  let ?pins = "parse_pins (split CHR 0x0A data)"
  have found: "(\<exists>l \<in> set (split CHR 0x0A data). trimSpace l = cp_Hostname pin @ CHR '' '' # cp_SHA256 pin \<and>
        \<not> hasPrefix (trimSpace l) ''#'') \<and>
      (\<exists>n \<in> insert (xc_CommonName cert) (set (xc_DNSNames cert)).
         toLower (trimSpace n) = toLower (trimSpace (cp_Hostname pin)))"
    if "find (\<lambda>q. hostMatchesPin cert (cp_Hostname q)) ?pins = Some pin" for cert pin
    using find_SomeD [OF that] parse_pins_line [of pin] by (simp add: hostMatchesPin_iff) blast
  show ?thesis
    using found by (auto simp: LoadPinnedKeys_def verifyPeer_def check_pins_find split: list.split sum.split option.split)
qed

end
