(* ===== verification/Lifecycle.thy ===== *)
theory Lifecycle
  imports Config
begin

text \<open>
  The end of the process in \<open>backend/main.go\<close>: the goroutine of \<open>main\<close>, the three background workers it
  waits for (\<open>StartAlertMonitor\<close>, \<open>StartRetentionJob\<close> and the passive monitor's \<open>Start\<close>), the HTTP
  server, and the goroutines \<open>main\<close> does not wait for: the scans that requests have started, and the KEV and
  EPSS updaters, as one transition system. A step is one of theirs, in any order. What a worker does in a turn
  is modelled in \<open>Alerts\<close>, \<open>Retention\<close> and \<open>Passive\<close>; here only its course counts: between turns it waits
  in a \<open>select\<close>, where it may take another turn even when its stop channel is closed, and a turn may hang,
  since the statements of the workers have no timeout. That the listening socket fails, which ends the process
  on the spot with \<open>log.Fatalf\<close>, is not a step of the system.
\<close>

section \<open>State\<close>

datatype worker = Waiting | Working | Hung | Ended

datatype http_server = Serving | Draining | Closed

datatype main_pc = AwaitSignal | StopAlerts | StopRetention | StopPassive | StartDrain | InShutdown | ForceClose | WaitGroup | Exited

record process =
  pr_main :: main_pc
  pr_stopAlertMonitor :: bool
  pr_stopRetention :: bool
  pr_quit :: bool
  pr_alerts :: worker
  pr_retention :: worker
  pr_passive :: worker
  pr_http :: http_server
  pr_inflight :: nat
  pr_scans :: nat
  pr_kev :: worker
  pr_epss :: worker

text \<open>
  The workers as \<open>main\<close> starts them. The retention job runs only when it is configured and begins with a
  pass; the passive monitor ends at once when the interface cannot be opened.
\<close>

definition launched :: "config \<Rightarrow> bool \<Rightarrow> process" where
  "launched cfg pcap =
     \<lparr>pr_main = AwaitSignal, pr_stopAlertMonitor = False, pr_stopRetention = False, pr_quit = False, pr_alerts = Waiting,
      pr_retention = (if retention_enabled cfg then Working else Ended), pr_passive = (if pcap then Waiting else Ended),
      pr_http = Serving, pr_inflight = 0, pr_scans = 0, pr_kev = Waiting, pr_epss = Waiting\<rparr>"

section \<open>Steps\<close>

text \<open>The loop of a worker: \<open>stop\<close> says whether its channel is closed.\<close>

inductive worker_step :: "bool \<Rightarrow> worker \<Rightarrow> worker \<Rightarrow> bool" where
  turn: "worker_step stop Waiting Working"
| turn_done: "worker_step stop Working Waiting"
| stopped: "worker_step True Waiting Ended"
| hangs: "worker_step stop Working Hung"

inductive_simps worker_step_simps [simp]:
  "worker_step stop Waiting s" "worker_step stop Working s" "worker_step stop Ended s" "worker_step stop Hung s"

text \<open>The updaters have no stop channel. A scan is started by a request and runs on in its own goroutine.\<close>

inductive process_step :: "process \<Rightarrow> process \<Rightarrow> bool" where
  signal: "pr_main p = AwaitSignal \<Longrightarrow> process_step p (p\<lparr>pr_main := StopAlerts\<rparr>)"
| stop_alerts: "pr_main p = StopAlerts \<Longrightarrow> process_step p (p\<lparr>pr_stopAlertMonitor := True, pr_main := StopRetention\<rparr>)"
| stop_retention: "pr_main p = StopRetention \<Longrightarrow> process_step p (p\<lparr>pr_stopRetention := True, pr_main := StopPassive\<rparr>)"
| stop_passive: "pr_main p = StopPassive \<Longrightarrow> process_step p (p\<lparr>pr_quit := True, pr_main := StartDrain\<rparr>)"
| shutdown: "pr_main p = StartDrain \<Longrightarrow> process_step p (p\<lparr>pr_http := Draining, pr_main := InShutdown\<rparr>)"
| drained: "pr_main p = InShutdown \<Longrightarrow> pr_inflight p = 0 \<Longrightarrow> process_step p (p\<lparr>pr_http := Closed, pr_main := WaitGroup\<rparr>)"
| drain_timeout: "pr_main p = InShutdown \<Longrightarrow> process_step p (p\<lparr>pr_main := ForceClose\<rparr>)"
| force_close: "pr_main p = ForceClose \<Longrightarrow> process_step p (p\<lparr>pr_http := Closed, pr_main := WaitGroup\<rparr>)"
| wait_group: "pr_main p = WaitGroup \<Longrightarrow> pr_alerts p = Ended \<Longrightarrow> pr_retention p = Ended \<Longrightarrow> pr_passive p = Ended \<Longrightarrow>
    process_step p (p\<lparr>pr_main := Exited\<rparr>)"
| accept: "pr_main p \<noteq> Exited \<Longrightarrow> pr_http p = Serving \<Longrightarrow> process_step p (p\<lparr>pr_inflight := Suc (pr_inflight p)\<rparr>)"
| answer: "pr_main p \<noteq> Exited \<Longrightarrow> pr_inflight p = Suc n \<Longrightarrow> process_step p (p\<lparr>pr_inflight := n\<rparr>)"
| alerts_turn: "pr_main p \<noteq> Exited \<Longrightarrow> worker_step (pr_stopAlertMonitor p) (pr_alerts p) s \<Longrightarrow> process_step p (p\<lparr>pr_alerts := s\<rparr>)"
| retention_turn: "pr_main p \<noteq> Exited \<Longrightarrow> worker_step (pr_stopRetention p) (pr_retention p) s \<Longrightarrow> process_step p (p\<lparr>pr_retention := s\<rparr>)"
| passive_turn: "pr_main p \<noteq> Exited \<Longrightarrow> worker_step (pr_quit p) (pr_passive p) s \<Longrightarrow> process_step p (p\<lparr>pr_passive := s\<rparr>)"
| scan_starts: "pr_main p \<noteq> Exited \<Longrightarrow> pr_inflight p > 0 \<Longrightarrow> process_step p (p\<lparr>pr_scans := Suc (pr_scans p)\<rparr>)"
| scan_ends: "pr_main p \<noteq> Exited \<Longrightarrow> pr_scans p = Suc n \<Longrightarrow> process_step p (p\<lparr>pr_scans := n\<rparr>)"
| kev_turn: "pr_main p \<noteq> Exited \<Longrightarrow> worker_step False (pr_kev p) s \<Longrightarrow> process_step p (p\<lparr>pr_kev := s\<rparr>)"
| epss_turn: "pr_main p \<noteq> Exited \<Longrightarrow> worker_step False (pr_epss p) s \<Longrightarrow> process_step p (p\<lparr>pr_epss := s\<rparr>)"

inductive reaches :: "config \<Rightarrow> bool \<Rightarrow> process \<Rightarrow> bool" for cfg pcap where
  start: "reaches cfg pcap (launched cfg pcap)"
| step: "reaches cfg pcap p \<Longrightarrow> process_step p p' \<Longrightarrow> reaches cfg pcap p'"

section \<open>Invariant\<close>

fun pc_rank :: "main_pc \<Rightarrow> nat" where
  "pc_rank AwaitSignal = 0" | "pc_rank StopAlerts = 1" | "pc_rank StopRetention = 2" | "pc_rank StopPassive = 3"
| "pc_rank StartDrain = 4" | "pc_rank InShutdown = 5" | "pc_rank ForceClose = 6" | "pc_rank WaitGroup = 7" | "pc_rank Exited = 8"

definition process_inv :: "config \<Rightarrow> bool \<Rightarrow> process \<Rightarrow> bool" where
  "process_inv cfg pcap p \<longleftrightarrow>
     pr_stopAlertMonitor p = (pc_rank (pr_main p) \<ge> 2) \<and> pr_stopRetention p = (pc_rank (pr_main p) \<ge> 3) \<and>
     pr_quit p = (pc_rank (pr_main p) \<ge> 4) \<and> (pr_http p = Serving \<longleftrightarrow> pc_rank (pr_main p) \<le> 4) \<and>
     (pr_http p = Closed \<longleftrightarrow> pc_rank (pr_main p) \<ge> 7) \<and>
     (pr_alerts p = Ended \<longrightarrow> pr_stopAlertMonitor p) \<and> (pr_retention p = Ended \<longrightarrow> pr_stopRetention p \<or> \<not> retention_enabled cfg) \<and>
     (pr_passive p = Ended \<longrightarrow> pr_quit p \<or> \<not> pcap) \<and>
     (pr_main p = Exited \<longrightarrow> pr_alerts p = Ended \<and> pr_retention p = Ended \<and> pr_passive p = Ended) \<and>
     pr_kev p \<noteq> Ended \<and> pr_epss p \<noteq> Ended"

lemma worker_stops: "worker_step stop s s' \<Longrightarrow> s' = Ended \<Longrightarrow> stop"
  by (cases s) auto

lemma process_inv_step:
  assumes "process_step p p'" "process_inv cfg pcap p"
  shows "process_inv cfg pcap p'"
  using assms
  by (cases rule: process_step.cases)
     (clarsimp simp: process_inv_def simp del: worker_step_simps; use worker_stops in blast)+

lemma process_inv_reaches: "reaches cfg pcap p \<Longrightarrow> process_inv cfg pcap p"
proof (induction rule: reaches.induct)
  case start
  show ?case by (simp add: process_inv_def launched_def)
next
  case (step p p')
  then show ?case by (blast intro: process_inv_step)
qed

section \<open>Progress\<close>

fun worker_weight :: "worker \<Rightarrow> nat" where
  "worker_weight Working = 2" | "worker_weight Waiting = 1" | "worker_weight Hung = 0" | "worker_weight Ended = 0"

definition weight :: "process \<Rightarrow> nat" where
  "weight p = (8 - pc_rank (pr_main p)) + worker_weight (pr_alerts p) + worker_weight (pr_retention p) + worker_weight (pr_passive p)"

text \<open>A worker that hangs stays so, and \<open>main\<close> does not return.\<close>

definition stuck :: "process \<Rightarrow> bool" where
  "stuck p \<longleftrightarrow> Hung \<in> {pr_alerts p, pr_retention p, pr_passive p}"

lemma stuck_step: "process_step p p' \<Longrightarrow> stuck p \<Longrightarrow> stuck p'"
  by (cases rule: process_step.cases) (auto simp: stuck_def)

lemma stuck_forever:
  assumes "process_inv cfg pcap p" "stuck p" "(process_step ^^ n) p p'"
  shows "pr_main p' \<noteq> Exited"
proof -
  have "process_inv cfg pcap p' \<and> stuck p'"
    using assms(3)
  proof (induction n arbitrary: p')
    case 0
    then show ?case using assms by simp
  next
    case (Suc n)
    then show ?case using process_inv_step stuck_step by (auto simp: relcompp_apply)
  qed
  then show ?thesis by (auto simp: process_inv_def stuck_def)
qed

lemma worker_progress:
  "s \<notin> {Ended, Hung} \<Longrightarrow> \<exists>s'. worker_step True s s' \<and> worker_weight s' < worker_weight s \<and> s' \<noteq> Hung"
  by (cases s) auto

text \<open>After the signal, as long as \<open>main\<close> has not returned and no worker hangs, some step brings the end nearer, and
  it leaves the scans alone.\<close>

definition nearer :: "process \<Rightarrow> process \<Rightarrow> bool" where
  "nearer p p' \<longleftrightarrow> process_step p p' \<and> weight p' < weight p \<and> pr_main p' \<noteq> AwaitSignal \<and> \<not> stuck p' \<and> pr_scans p' = pr_scans p"

lemma process_progress:
  assumes "process_inv cfg pcap p" "pr_main p \<noteq> AwaitSignal" "pr_main p \<noteq> Exited" "\<not> stuck p"
  shows "\<exists>p'. nearer p p'"
proof (cases "pr_main p = WaitGroup")
  case True
  then have stop: "pr_stopAlertMonitor p" "pr_stopRetention p" "pr_quit p" using assms(1) by (simp_all add: process_inv_def)
  have ok: "Hung \<noteq> pr_alerts p" "Hung \<noteq> pr_retention p" "Hung \<noteq> pr_passive p" using assms(4) by (auto simp: stuck_def)
  consider "pr_alerts p \<noteq> Ended" | "pr_retention p \<noteq> Ended" | "pr_passive p \<noteq> Ended"
    | (all) "pr_alerts p = Ended" "pr_retention p = Ended" "pr_passive p = Ended" by blast
  then show ?thesis
  proof cases
    case 1
    with ok obtain s where "worker_step True (pr_alerts p) s" "worker_weight s < worker_weight (pr_alerts p)" "s \<noteq> Hung"
      using worker_progress [of "pr_alerts p"] by auto
    with True stop ok show ?thesis
      by (intro exI [of _ "p\<lparr>pr_alerts := s\<rparr>"]) (auto simp: nearer_def weight_def stuck_def intro: process_step.alerts_turn)
  next
    case 2
    with ok obtain s where "worker_step True (pr_retention p) s" "worker_weight s < worker_weight (pr_retention p)" "s \<noteq> Hung"
      using worker_progress [of "pr_retention p"] by auto
    with True stop ok show ?thesis
      by (intro exI [of _ "p\<lparr>pr_retention := s\<rparr>"]) (auto simp: nearer_def weight_def stuck_def intro: process_step.retention_turn)
  next
    case 3
    with ok obtain s where "worker_step True (pr_passive p) s" "worker_weight s < worker_weight (pr_passive p)" "s \<noteq> Hung"
      using worker_progress [of "pr_passive p"] by auto
    with True stop ok show ?thesis
      by (intro exI [of _ "p\<lparr>pr_passive := s\<rparr>"]) (auto simp: nearer_def weight_def stuck_def intro: process_step.passive_turn)
  next
    case all
    with True ok show ?thesis
      by (intro exI [of _ "p\<lparr>pr_main := Exited\<rparr>"]) (simp add: nearer_def weight_def stuck_def process_step.wait_group)
  qed
next
  case False
  with assms(2,3) have "\<exists>p'. process_step p p' \<and> pc_rank (pr_main p') = Suc (pc_rank (pr_main p)) \<and>
      pr_alerts p' = pr_alerts p \<and> pr_retention p' = pr_retention p \<and> pr_passive p' = pr_passive p \<and> pr_scans p' = pr_scans p"
    by (cases "pr_main p") (force dest: process_step.intros(2-5,7,8))+
  then obtain p' where p': "process_step p p'" "pc_rank (pr_main p') = Suc (pc_rank (pr_main p))"
    "pr_alerts p' = pr_alerts p" "pr_retention p' = pr_retention p" "pr_passive p' = pr_passive p" "pr_scans p' = pr_scans p" by blast
  moreover have "pc_rank (pr_main p) < 8" using assms(3) by (cases "pr_main p") auto
  ultimately have "weight p' < weight p" by (simp add: weight_def)
  moreover have "pr_main p' \<noteq> AwaitSignal" using p'(2) by auto
  ultimately have "nearer p p'" using p' assms(4) by (simp add: nearer_def stuck_def)
  then show ?thesis by blast
qed

lemma exit_within:
  assumes "process_inv cfg pcap p" "pr_main p \<noteq> AwaitSignal" "\<not> stuck p"
  shows "\<exists>n p'. n \<le> weight p \<and> (process_step ^^ n) p p' \<and> pr_main p' = Exited \<and> pr_scans p' = pr_scans p"
  using assms
proof (induction "weight p" arbitrary: p rule: less_induct)
  case less
  show ?case
  proof (cases "pr_main p = Exited")
    case True
    then show ?thesis by (intro exI [of _ 0] exI [of _ p]) simp
  next
    case False
    obtain q where "nearer p q" using process_progress [OF less.prems(1,2) False less.prems(3)] by blast
    then have q: "process_step p q" "weight q < weight p" "pr_main q \<noteq> AwaitSignal" "\<not> stuck q" "pr_scans q = pr_scans p"
      by (auto simp: nearer_def)
    from less.hyps [OF q(2) process_inv_step [OF q(1) less.prems(1)] q(3,4)]
    obtain n p' where n: "n \<le> weight q" "(process_step ^^ n) q p'" "pr_main p' = Exited" "pr_scans p' = pr_scans q" by blast
    then have "(process_step ^^ Suc n) p p'" using q(1) by (metis relpowp_Suc_I2)
    moreover have "Suc n \<le> weight p" using n(1) q(2) by simp
    moreover have "pr_scans p' = pr_scans p" using n(4) q(5) by simp
    ultimately show ?thesis using n(3) by blast
  qed
qed

lemma reaches_steps: "(process_step ^^ n) p p' \<Longrightarrow> reaches cfg pcap p \<Longrightarrow> reaches cfg pcap p'"
  by (induction n arbitrary: p') (auto simp: relcompp_apply intro: reaches.step)

text \<open>Any number of scans may be running when \<open>main\<close> returns.\<close>

lemma exit_leaves_scans: "\<exists>p'. reaches cfg pcap p' \<and> pr_main p' = Exited \<and> pr_scans p' = k"
proof -
  let ?p = "\<lambda>k. (launched cfg pcap)\<lparr>pr_inflight := 1, pr_scans := k\<rparr>"
  have "reaches cfg pcap (?p k)"
  proof (induction k)
    case 0
    have "reaches cfg pcap ((launched cfg pcap)\<lparr>pr_inflight := Suc (pr_inflight (launched cfg pcap))\<rparr>)"
      by (rule reaches.step [OF reaches.start process_step.accept]) (simp_all add: launched_def)
    then show ?case by (simp add: launched_def)
  next
    case (Suc k)
    have "reaches cfg pcap ((?p k)\<lparr>pr_scans := Suc (pr_scans (?p k))\<rparr>)"
      by (rule reaches.step [OF Suc process_step.scan_starts]) (simp_all add: launched_def)
    then show ?case by (simp add: launched_def)
  qed
  then have r: "reaches cfg pcap ((?p k)\<lparr>pr_main := StopAlerts\<rparr>)"
    by (rule reaches.step [OF _ process_step.signal]) (simp add: launched_def)
  have "\<not> stuck ((?p k)\<lparr>pr_main := StopAlerts\<rparr>)" by (simp add: stuck_def launched_def)
  from exit_within [OF process_inv_reaches [OF r] _ this] obtain n p' where
    "(process_step ^^ n) ((?p k)\<lparr>pr_main := StopAlerts\<rparr>) p'" "pr_main p' = Exited" "pr_scans p' = k" by auto
  with reaches_steps [OF _ r] show ?thesis by blast
qed

section \<open>Property\<close>



end
