(* ===== verification/Logging.thy ===== *)
theory Logging
  imports Config
begin

text \<open>
  The log of \<open>backend/slog/slog.go\<close>: levels, the two formats and the line a call writes. The clock and the JSON
  encoder of the standard library are parameters.
\<close>

datatype log_value = LStr string | LInt int | LNil

fun sprint_v :: "log_value \<Rightarrow> string" where
  "sprint_v (LStr s) = s"
| "sprint_v (LInt n) = itoa n"
| "sprint_v LNil = ''<nil>''"

fun levelNames :: "log_level \<Rightarrow> string" where
  "levelNames LevelDebug = ''DEBUG''" | "levelNames LevelInfo = ''INFO''" | "levelNames LevelWarn = ''WARN''"
| "levelNames LevelError = ''ERROR''" | "levelNames LevelFatal = ''FATAL''"

record log_config =
  lc_currentLevel :: log_level
  lc_format :: string

definition initial_log :: log_config where
  "initial_log = \<lparr>lc_currentLevel = LevelInfo, lc_format = ''kv''\<rparr>"

definition SetLevel :: "log_level \<Rightarrow> log_config \<Rightarrow> log_config" where
  "SetLevel l lc = lc\<lparr>lc_currentLevel := l\<rparr>"

definition SetFormat :: "string \<Rightarrow> log_config \<Rightarrow> log_config" where
  "SetFormat f lc = lc\<lparr>lc_format := f\<rparr>"

text \<open>Keys and values alternate in one list; a key at its end has no value.\<close>

fun kv_text :: "log_value list \<Rightarrow> string" where
  "kv_text [] = []"
| "kv_text [k] = '' '' @ sprint_v k @ ''=<missing>''"
| "kv_text (k # v # kvs) = '' '' @ sprint_v k @ ''='' @ sprint_v v @ kv_text kvs"

definition buildKV :: "string \<Rightarrow> log_level \<Rightarrow> string \<Rightarrow> log_value list \<Rightarrow> string" where
  "buildKV now level msg kvs = now @ '' ['' @ levelNames level @ ''] '' @ msg @ kv_text kvs"

fun json_entry :: "log_value list \<Rightarrow> (string \<rightharpoonup> log_value) \<Rightarrow> (string \<rightharpoonup> log_value)" where
  "json_entry (k # v # kvs) m = json_entry kvs (m(sprint_v k \<mapsto> v))"
| "json_entry _ m = m"

definition buildJSON ::
  "((string \<rightharpoonup> log_value) \<Rightarrow> string) \<Rightarrow> string \<Rightarrow> log_level \<Rightarrow> string \<Rightarrow> log_value list \<Rightarrow> string" where
  "buildJSON marshal now level msg kvs =
     marshal (json_entry kvs [''timestamp'' \<mapsto> LStr now, ''level'' \<mapsto> LStr (levelNames level), ''message'' \<mapsto> LStr msg])"

text \<open>The line that is written, if any.\<close>

definition logf ::
  "((string \<rightharpoonup> log_value) \<Rightarrow> string) \<Rightarrow> string \<Rightarrow> log_config \<Rightarrow> log_level \<Rightarrow> string \<Rightarrow> log_value list \<Rightarrow> string option" where
  "logf marshal now lc level msg kvs =
     (if level < lc_currentLevel lc then None
      else if lc_format lc = ''json'' then Some (buildJSON marshal now level msg kvs)
      else Some (buildKV now level msg kvs))"

definition logger_message :: "string \<Rightarrow> string \<Rightarrow> string" where
  "logger_message prefix msg = prefix @ '': '' @ msg"

section \<open>Lemmas\<close>

text \<open>A level that is parsed from the configuration never hides an error, and a fatal message is always written.\<close>

lemma errors_written:
  "logf marshal now (SetLevel (parseLogLevel s) lc) LevelError msg kvs \<noteq> None"
  "logf marshal now (SetLevel (parseLogLevel s) lc) LevelFatal msg kvs \<noteq> None"
  by (simp_all add: logf_def SetLevel_def parseLogLevel_def less_log_level_def)

text \<open>A higher level writes less.\<close>

lemma logf_antimono:
  assumes "l \<le> m" "logf marshal now (SetLevel m lc) level msg kvs = Some line"
  shows "logf marshal now (SetLevel l lc) level msg kvs = Some line"
  using assms by (auto simp: logf_def SetLevel_def split: if_splits)

lemma json_entry_other: "k \<notin> sprint_v ` set kvs \<Longrightarrow> json_entry kvs m k = m k"
  by (induction kvs m rule: json_entry.induct) auto

text \<open>The level and the message of a JSON line are those of the call, unless the caller's keys shadow them.\<close>

lemma json_entry_level:
  assumes "{''level'', ''message''} \<inter> sprint_v ` set kvs = {}"
  shows "json_entry kvs [''timestamp'' \<mapsto> LStr now, ''level'' \<mapsto> LStr (levelNames level), ''message'' \<mapsto> LStr msg] ''level'' =
      Some (LStr (levelNames level))"
    "json_entry kvs [''timestamp'' \<mapsto> LStr now, ''level'' \<mapsto> LStr (levelNames level), ''message'' \<mapsto> LStr msg] ''message'' = Some (LStr msg)"
  using assms json_entry_other by simp_all

end
