(* ===== verification/Spec2Isabelle.thy ===== *)
theory Spec2Isabelle
  imports Api Passive Retention Pinning Lifecycle Logging
begin

text \<open>
  Seagles: a verification of the backend.

  The backend of Seagles (\<open>src/backend\<close>, Go) watches a network of devices: it discovers and scans them, records
  vulnerabilities, firmware images and alerts, scores their risk, and offers all of this over an HTTP interface
  with accounts, roles and sessions. This development is a shallow embedding of it. Every component is a theory:
  structs are records, enumerations and errors are datatypes, functions are HOL functions that compute, and state is
  passed explicitly. Everything outside the source is an argument: clocks, random values, the network, the
  file system, cryptography, the JSON codec, and for each SQL statement whether it fails. What a property needs of such
  an argument is a named hypothesis that states documented behaviour, with a witness in which it holds.

  \<^bold>\<open>How the parts work together.\<close> \<open>main.go\<close> reads the configuration, sets up the signing keys, brings the schema up to date,
  starts the background workers and serves requests until a signal arrives. A request passes the
  global middleware (request identifier, security headers, cross-origin rules, CSRF check, size limit, rate limit, metrics,
  sanitising, audit), then the guards of its route (token, pending password change, role), then its handler. Handlers
  read and write the tables and start jobs: device scans, firmware analyses, new risk scores. Scans and the periodic
  checks raise alerts, and alerts go out to webhooks.

  \<^bold>\<open>Theories and sources\<close>

  \<^item> \<open>Go_Prelude\<close>: time as nanoseconds, \<open>int\<close> at 64 bits, strings as bytes with the functions of \<open>strings\<close> and
    \<open>strconv\<close> that the code uses, sweeps of maps. Its locales: \<open>expiring\<close> (entries that stay dead once they are dead, so that a
    sweep changes no answer) and \<open>growing_system\<close> (events that keep an invariant and move a state forward in an order).
  \<^item> \<open>Encoding\<close>: hex and base64, with round trips. \<open>Float64\<close>: rounding to binary64, with the locale \<open>rounding\<close>, and the shortest
    decimal text of a number, in which it reaches a NUMERIC column. \<open>Gin_Context\<close>: gin's request context, replies, middleware and recovery from a
    panic, and the reading of UUIDs: \<open>uuid.Parse\<close> and PostgreSQL's conversion to the type uuid are the fields of \<open>uuid_lib\<close>, and identifiers are
    compared after that conversion.
  \<^item> \<open>Breaker\<close> (\<open>breaker/breaker.go\<close>): \<open>Execute\<close> and \<open>Reset\<close> as functions, and \<open>Execute\<close> once more as the atomic steps between
    its locks, interleaved. The locale \<open>circuit\<close> states what a breaker promises; \<open>Execute\<close> is shown to refine an automaton with three states.
  \<^item> \<open>Cache_Store\<close> (\<open>cache/\<close>): the cache and the token blacklist, with the locale \<open>revocation_list\<close>.
  \<^item> \<open>Token\<close> (\<open>auth/tokens.go\<close>), \<open>Rbac\<close> and \<open>Session\<close> (\<open>auth/auth.go\<close>, \<open>api/sessions.go\<close>): keys, access tokens, refresh tokens, roles and
    permissions, all handlers, over the tables \<open>users\<close> and \<open>refresh_tokens\<close>.
  \<^item> \<open>Rate_Limit\<close>, \<open>Csrf\<close>, \<open>Sanitize\<close>, \<open>Metrics\<close>, \<open>Audit_Log\<close>, \<open>Pinning\<close> (\<open>middleware/\<close>), and \<open>Health\<close> (\<open>middleware/health.go\<close>, \<open>api/health.go\<close>).
  \<^item> \<open>Models\<close> (\<open>models/\<close> and the tables of the migrations), \<open>Risk\<close> (\<open>risk/scorer.go\<close>), \<open>Alerts\<close> (\<open>alerts/\<close>, \<open>api/alerts.go\<close>), \<open>Fleet_Api\<close>
    (\<open>api/devices.go\<close>, \<open>api/vulnerabilities.go\<close>, \<open>api/risks.go\<close>), \<open>Firmware\<close> (\<open>api/firmware.go\<close>).
  \<^item> \<open>Nmap\<close>, \<open>Probes\<close>, \<open>Credentials\<close>, \<open>Passive\<close> (\<open>scanner/\<close>), \<open>Safelist\<close> (\<open>api/safelists.go\<close>) and \<open>Scan_Pipeline\<close> (\<open>api/scans.go\<close>): from an
    address to the findings in the tables, and the recovery of a scan that panics on the way. A scan is a sequence of steps on the tables; the locale \<open>step_order\<close> carries a
    relation between the tables before and after through the whole sequence, and is interpreted three times.
  \<^item> \<open>Kev\<close> (\<open>kev/\<close>, \<open>api/kev.go\<close>): the catalogue of exploited vulnerabilities and the EPSS scores, behind the breaker.
  \<^item> \<open>Migrations\<close> (\<open>db/db.go\<close>), \<open>Config\<close> (\<open>config/config.go\<close> and the start of \<open>main.go\<close>), \<open>Lifecycle\<close> (the shutdown of \<open>main.go\<close>, with the workers it
    waits for, the updaters and scans it does not wait for, and workers that hang), \<open>Retention\<close> (\<open>retention/\<close>: the text of each DELETE is built as in the code, and its
    effect is read off the table and the column in that text), \<open>Ws_Hub\<close> (\<open>api/ws.go\<close>), \<open>Logging\<close> (\<open>slog/slog.go\<close>).
  \<^item> \<open>Router\<close> (\<open>api/router.go\<close>): the state of the whole server, the chain of middleware and the table of routes. The locale
    \<open>stop_or_pass\<close> describes middleware that either answers by itself or passes a request on once; it composes, and
    its interpretation \<open>pipe\<close> gives what the whole chain does from one lemma per middleware.
  \<^item> \<open>Api\<close> (\<open>api/router.go\<close>, \<open>api/swagger.go\<close>): every endpoint with its handler on the state of the server.

  \<^bold>\<open>What is shown\<close>

  \<^item> The interface as a whole: a request without an accepted token, or with too low a role, is refused before its handler and
    changes nothing; a request without an administrator's token changes nothing but sessions, passwords and the
    acknowledgement of alerts; every change beyond that leaves one row in the audit log with its author; the
    security headers are on every response that passes the middleware.
  \<^item> Identity: an accepted token was issued within the last 15 minutes and not revoked; a refresh token works once; what a login
    answers, and for how long its refresh token is accepted; logging out and changing the password end all sessions for good if the statement that
    revokes them succeeds, and what is left if it fails; the tables of accounts stay well-formed through every run.
  \<^item> Protection: the rate limiter is a fixed window per client, no more than its limit per window; the CSRF
    token is needed; the targets that reach \<open>nmap\<close> are described exactly, the one that begins with a minus sign included; the circuit breaker refines its automaton, and an interleaving that
    leaves it stuck is exhibited.
  \<^item> Scanning: a scan ends in a final state, stays within its device, is not run on a safelisted device, and every protocol
    finding ends up in the table, in the factors and in the score; the score is in its range and monotone; alerts of one
    kind are not repeated within a day while one is open, unless two calls for the same device and kind overlap, and then they are; webhooks are tried
    at most three times, with what the log and the alert record of it when their statements succeed.
  \<^item> Operation: migrations are applied once each and a modified one is refused; the start demands the configured key; the
    shutdown waits for its three workers and nothing else, and finishes unless a statement of one of them never returns; the purge deletes exactly what is old, and what it takes with it is shown too.

  Next to the numbered properties the theories contain theorems on the remaining components under the same names as their
  subjects, among them \<open>metrics_exact\<close>, \<open>readiness_truthful\<close>, \<open>protocol_findings_sound\<close>, \<open>credential_tests_faithful\<close>,
  \<open>epss_batches_cover\<close>, \<open>analysis_ends\<close> and \<open>device_pages_partition\<close>, and those that exhibit defects, such as
  \<open>password_change_never_enforced\<close>, \<open>bad_feed_destroys_cache\<close> and \<open>arp_packet_panics_iff\<close>.

  \<^bold>\<open>Bounds.\<close> They are those of the source: three attempts per webhook, 50 and 20 pairs per credential test and 100 pairs in all, batches of 30 CVE
  identifiers, channels of 256 messages, 1000 latency samples, pages of at most 500 rows of the audit log. All functions are total; the
  loops of the workers are step relations or lists of turns, and no fuel is used.

  \<^bold>\<open>Conventions.\<close> A table is a list of rows in the order of insertion. The error of a statement is an argument, numbered where a
  handler has several; a commit that reports an error may have taken effect or not. Times in JSON are their nanoseconds. The
  start of a goroutine is noted in the state, and the job is a function of its own.

  \<^bold>\<open>Not modelled.\<close> The PostgreSQL server, \<open>nmap\<close>, gin's tree of routes, the SSH, TLS, WebSocket and packet capture libraries and the
  firmware analyzer are third-party code or other services, and arguments here. Data races on unlocked fields are
  not considered: every method that holds a lock is one step. A panic inside the call that the breaker protects, a panic of a scan within one of its
  steps rather than between two of them, and the failure of the listening socket are left out. \<open>CreateAlert\<close> is split at its two statements; the other functions
  with several statements on the tables are run without others in between. The signature scheme is idealised (\<open>unforgeable\<close>), and the
  count of the rate limiter is not wrapped at 64 bits. Files of other languages (frontend, analyzer, deployment) are not part of this development.
\<close>

end
